theory Spec2Isabelle
  imports Main
begin

section \<open>Text\<close>

text \<open>
  A Python \<open>str\<close> is a sequence of Unicode code points. It is modelled as a list of
  natural numbers, one per code point, so that \<open>strip\<close> and \<open>split\<close> see the same
  characters as the interpreter does. \<open>u\<close> turns an ASCII literal into such a text.
\<close>

type_synonym str = "nat list"

definition u :: "string \<Rightarrow> str" where
  "u s = map of_char s"

definition NL :: nat where
  "NL = 10"

definition CR :: nat where
  "CR = 13"

text \<open>\<open>str.isspace\<close> for one code point: the characters Python treats as whitespace.\<close>

definition isspace :: "nat \<Rightarrow> bool" where
  "isspace c = ((9 \<le> c \<and> c \<le> 13) \<or> (28 \<le> c \<and> c \<le> 32) \<or> c = 133 \<or> c = 160
     \<or> c = 5760 \<or> (8192 \<le> c \<and> c \<le> 8202) \<or> c = 8232 \<or> c = 8233 \<or> c = 8239
     \<or> c = 8287 \<or> c = 12288)"

text \<open>\<open>s.strip()\<close>: leading and trailing whitespace removed.\<close>

definition strip :: "str \<Rightarrow> str" where
  "strip s = rev (dropWhile isspace (rev (dropWhile isspace s)))"

text \<open>
  \<open>s.split()\<close> with no separator: the maximal runs of non-whitespace characters, in
  order. \<open>cur\<close> is the token being read, reversed.
\<close>

fun split_from :: "str \<Rightarrow> str \<Rightarrow> str list" where
  "split_from cur [] = (if cur = [] then [] else [rev cur])"
| "split_from cur (c # cs) =
     (if isspace c then (if cur = [] then split_from [] cs else rev cur # split_from [] cs)
      else split_from (c # cur) cs)"

definition split :: "str \<Rightarrow> str list" where
  "split s = split_from [] s"

text \<open>\<open>sep.join(xs)\<close>.\<close>

fun join :: "str \<Rightarrow> str list \<Rightarrow> str" where
  "join sep [] = []"
| "join sep [x] = x"
| "join sep (x # y # ys) = x @ sep @ join sep (y # ys)"

text \<open>
  Reading a file opened in text mode: \<open>\r\n\<close> and a lone \<open>\r\<close> arrive as \<open>\n\<close>
  (universal newlines), and iterating the file or calling \<open>readlines\<close> yields the lines
  with their terminating \<open>\n\<close>; a last line without one is yielded as it is.
\<close>

fun universal_newlines :: "str \<Rightarrow> str" where
  "universal_newlines [] = []"
| "universal_newlines (c # cs) =
     (if c = CR then
        (case cs of [] \<Rightarrow> [NL]
         | d # ds \<Rightarrow> if d = NL then NL # universal_newlines ds else NL # universal_newlines cs)
      else c # universal_newlines cs)"

fun lines_from :: "str \<Rightarrow> str \<Rightarrow> str list" where
  "lines_from cur [] = (if cur = [] then [] else [rev cur])"
| "lines_from cur (c # cs) =
     (if c = NL then rev (c # cur) # lines_from [] cs else lines_from (c # cur) cs)"

definition readlines :: "str \<Rightarrow> str list" where
  "readlines content = lines_from [] (universal_newlines content)"

text \<open>Truthiness of a string, and of a string that may be \<open>None\<close>.\<close>

definition truthy :: "str \<Rightarrow> bool" where
  "truthy s = (s \<noteq> [])"

definition truthy_opt :: "str option \<Rightarrow> bool" where
  "truthy_opt x = (case x of None \<Rightarrow> False | Some s \<Rightarrow> truthy s)"

section \<open>Target Loader and clean-URL extraction\<close>

text \<open>\<open>[line.strip() for line in f if line.strip()]\<close> (line 136).\<close>

definition load_targets :: "str \<Rightarrow> str list" where
  "load_targets content = map strip (filter (\<lambda>line. truthy (strip line)) (readlines content))"

text \<open>
  The loop of lines 232--235 over the lines of the rich-detail file:
  \<open>parts = line.strip().split()\<close>, and \<open>parts[0]\<close> is appended when \<open>parts\<close> is not empty.
\<close>

fun extract_urls :: "str list \<Rightarrow> str list \<Rightarrow> str list" where
  "extract_urls clean_urls [] = clean_urls"
| "extract_urls clean_urls (line # raw_lines) =
     (case split (strip line) of
        [] \<Rightarrow> extract_urls clean_urls raw_lines
      | p # ps \<Rightarrow> extract_urls (clean_urls @ [p]) raw_lines)"


section \<open>Console output\<close>

text \<open>The ANSI colour table of class \<open>Colors\<close>; \<open>ESC\<close> is the character \<open>\033\<close>.\<close>

definition ESC :: nat where
  "ESC = 27"

definition HEADER :: str where
  "HEADER = ESC # u ''[95m''"

definition BLUE :: str where
  "BLUE = ESC # u ''[94m''"

definition CYAN :: str where
  "CYAN = ESC # u ''[96m''"

definition GREEN :: str where
  "GREEN = ESC # u ''[92m''"

definition YELLOW :: str where
  "YELLOW = ESC # u ''[93m''"

definition RED :: str where
  "RED = ESC # u ''[91m''"

definition WHITE :: str where
  "WHITE = ESC # u ''[97m''"

definition ENDC :: str where
  "ENDC = ESC # u ''[0m''"

definition BOLD :: str where
  "BOLD = ESC # u ''[1m''"

definition UNDERLINE :: str where
  "UNDERLINE = ESC # u ''[4m''"

text \<open>The three non-ASCII glyphs of the messages (U+2713, U+2717, U+279C) and the quote.\<close>

definition CHECK_MARK :: nat where
  "CHECK_MARK = 10003"

definition BALLOT_X :: nat where
  "BALLOT_X = 10007"

definition ARROW :: nat where
  "ARROW = 10140"

definition SQ :: nat where
  "SQ = 39"

definition rule60 :: str where
  "rule60 = replicate 60 61"

text \<open>\<open>str(n)\<close> for an integer, \<open>s.upper()\<close> on ASCII letters, and \<open>f"{s:<n}"\<close>.\<close>

function str_nat :: "nat \<Rightarrow> str" where
  "str_nat n = (if n < 10 then [48 + n] else str_nat (n div 10) @ [48 + n mod 10])"
  by pat_completeness auto
termination
  by (relation "measure id") auto

definition str_int :: "int \<Rightarrow> str" where
  "str_int i = (if i < 0 then 45 # str_nat (nat (- i)) else str_nat (nat i))"

definition upper :: "str \<Rightarrow> str" where
  "upper s = map (\<lambda>c. if 97 \<le> c \<and> c \<le> 122 then c - 32 else c) s"

definition ljust :: "nat \<Rightarrow> str \<Rightarrow> str" where
  "ljust n s = s @ replicate (n - length s) 32"

section \<open>The operating system and the program state\<close>

text \<open>
  The exceptions the program tells apart: \<open>FileNotFoundError\<close> and any other exception
  class, each with the text \<open>str(e)\<close>. What \<open>subprocess.run(..., check=True)\<close> raises is
  either \<open>CalledProcessError\<close> (exit status and captured standard error) or one of those.
\<close>

datatype exn = FileNotFoundError str | OtherError str

datatype raised = CalledProcessError int str | Exn exn

datatype completed = CompletedProcess (cp_args: "str list") (returncode: int) (stdout: str) (stderr: str)

text \<open>How the process ends early: \<open>sys.exit(n)\<close>, or an exception nobody catches.\<close>

datatype stop = SysExit int | Uncaught exn

type_synonym env = "(str \<times> str) list"

text \<open>
  Everything outside the program is a parameter: a world \<open>'w\<close> (file system, installed
  tools, network) and the operations on it the program uses. \<open>os_spawn\<close> starts a
  process with the given argument vector, standard input and environment (\<open>None\<close>:
  inherited) and waits for it: it yields the exit status with the captured standard
  output and error, or the exception that \<open>subprocess.run\<close> raises instead (the process
  could not be started, or what it printed could not be decoded), and the world the process
  leaves behind. \<open>os_read\<close> is \<open>open(p, 'r')\<close> followed by reading
  the whole text, \<open>os_write\<close> is \<open>open(p, 'w')\<close> followed by one \<open>write\<close>.
\<close>

record 'w os =
  os_spawn :: "str list \<Rightarrow> str option \<Rightarrow> env option \<Rightarrow> 'w \<Rightarrow> (exn + int \<times> str \<times> str) \<times> 'w"
  os_read :: "str \<Rightarrow> 'w \<Rightarrow> exn + str"
  os_write :: "str \<Rightarrow> str \<Rightarrow> 'w \<Rightarrow> exn option \<times> 'w"
  os_makedirs :: "str \<Rightarrow> 'w \<Rightarrow> exn option \<times> 'w"
  os_abspath :: "str \<Rightarrow> 'w \<Rightarrow> str"
  os_environ :: "'w \<Rightarrow> env"

text \<open>
  The calls that reach the operating system are logged in \<open>calls\<close>, in order; the lines
  printed are collected in \<open>console\<close> (one entry per \<open>print\<close>).
\<close>

datatype call = Spawn "str list" "str option" "env option" | WriteText str str | MakeDirs str

record 'w st =
  world :: 'w
  console :: "str list"
  calls :: "call list"

definition print :: "str \<Rightarrow> 'w st \<Rightarrow> 'w st" where
  "print msg s = s\<lparr>console := console s @ [msg]\<rparr>"

definition subprocess_run ::
  "'w os \<Rightarrow> str list \<Rightarrow> str option \<Rightarrow> env option \<Rightarrow> 'w st \<Rightarrow> (raised + completed) \<times> 'w st" where
  "subprocess_run os command input_data environment s =
     (case os_spawn os command input_data environment (world s) of (r, w) \<Rightarrow>
        let s' = s\<lparr>world := w, calls := calls s @ [Spawn command input_data environment]\<rparr> in
        (case r of
           Inl e \<Rightarrow> (Inl (Exn e), s')
         | Inr (rc, out, err) \<Rightarrow>
             if rc \<noteq> 0 then (Inl (CalledProcessError rc err), s')
             else (Inr (CompletedProcess command rc out err), s')))"

definition write_file :: "'w os \<Rightarrow> str \<Rightarrow> str \<Rightarrow> 'w st \<Rightarrow> exn option \<times> 'w st" where
  "write_file os path content s =
     (case os_write os path content (world s) of (r, w) \<Rightarrow>
        (r, s\<lparr>world := w, calls := calls s @ [WriteText path content]\<rparr>))"

definition makedirs :: "'w os \<Rightarrow> str \<Rightarrow> 'w st \<Rightarrow> exn option \<times> 'w st" where
  "makedirs os path s =
     (case os_makedirs os path (world s) of (r, w) \<Rightarrow>
        (r, s\<lparr>world := w, calls := calls s @ [MakeDirs path]\<rparr>))"

text \<open>\<open>os.path.join(a, b)\<close> and \<open>os.path.basename(p)\<close> (POSIX).\<close>

definition path_join :: "str \<Rightarrow> str \<Rightarrow> str" where
  "path_join a b =
     (if b \<noteq> [] \<and> hd b = 47 then b
      else if a = [] \<or> last a = 47 then a @ b
      else a @ [47] @ b)"

definition basename :: "str \<Rightarrow> str" where
  "basename p = rev (takeWhile (\<lambda>c. c \<noteq> 47) (rev p))"

text \<open>A dictionary with string keys, in insertion order: \<open>d[k] = v\<close> and \<open>d.get(k)\<close>.\<close>

fun dict_set :: "str \<Rightarrow> str \<Rightarrow> env \<Rightarrow> env" where
  "dict_set k v [] = [(k, v)]"
| "dict_set k v ((k', v') # kvs) =
     (if k' = k then (k, v) # kvs else (k', v') # dict_set k v kvs)"

definition dict_get :: "env \<Rightarrow> str \<Rightarrow> str option" where
  "dict_get d k = map_of d k"

definition str_opt :: "str option \<Rightarrow> str" where
  "str_opt x = (case x of None \<Rightarrow> u ''None'' | Some s \<Rightarrow> s)"

section \<open>Utility functions (lines 25--62)\<close>

definition TOOL_CHAIN :: "str list" where
  "TOOL_CHAIN = [u ''subfinder'', u ''dnsx'', u ''naabu'', u ''httpx'', u ''katana'']"

definition print_info :: "str \<Rightarrow> 'w st \<Rightarrow> 'w st" where
  "print_info msg s = print (BLUE @ u ''[*] '' @ msg @ ENDC) s"

definition print_success :: "str \<Rightarrow> 'w st \<Rightarrow> 'w st" where
  "print_success msg s = print (GREEN @ u ''['' @ [CHECK_MARK] @ u ''] '' @ msg @ ENDC) s"

definition print_warn :: "str \<Rightarrow> 'w st \<Rightarrow> 'w st" where
  "print_warn msg s = print (YELLOW @ u ''[!] '' @ msg @ ENDC) s"

definition print_err :: "str \<Rightarrow> 'w st \<Rightarrow> 'w st" where
  "print_err msg s = print (RED @ u ''['' @ [BALLOT_X] @ u ''] '' @ msg @ ENDC) s"

definition print_step :: "int \<Rightarrow> int \<Rightarrow> str \<Rightarrow> str \<Rightarrow> 'w st \<Rightarrow> 'w st" where
  "print_step step_num total' tool_name description s =
     print (HEADER @ u ''    Description: '' @ description @ ENDC)
       (print (NL # HEADER @ BOLD @ u ''--- Step '' @ str_int step_num @ u ''/'' @ str_int total'
                 @ u '': '' @ upper tool_name @ u '' ---'' @ ENDC) s)"

text \<open>
  The loop of \<open>check_tools_installed\<close> (lines 45--55): one \<open>which\<close> per tool;
  \<open>CalledProcessError\<close> and \<open>FileNotFoundError\<close> mark the tool missing, any other
  exception is not caught.
\<close>

fun check_tools_loop ::
  "'w os \<Rightarrow> str list \<Rightarrow> str list \<Rightarrow> 'w st \<Rightarrow> (stop + str list) \<times> 'w st" where
  "check_tools_loop os [] missing_tools s = (Inr missing_tools, s)"
| "check_tools_loop os (tool # tools) missing_tools s =
     (case subprocess_run os [u ''which'', tool] None None s of
        (Inr result, s1) \<Rightarrow>
          check_tools_loop os tools missing_tools
            (print (u ''    '' @ GREEN @ [CHECK_MARK] @ ENDC @ u '' '' @ ljust 10 tool @ u '' ''
                      @ GREEN @ u ''INSTALLED'' @ ENDC) s1)
      | (Inl (CalledProcessError rc err), s1) \<Rightarrow>
          check_tools_loop os tools (missing_tools @ [tool])
            (print (u ''    '' @ RED @ [BALLOT_X] @ ENDC @ u '' '' @ ljust 10 tool @ u '' ''
                      @ RED @ u ''MISSING'' @ ENDC) s1)
      | (Inl (Exn (FileNotFoundError m)), s1) \<Rightarrow>
          check_tools_loop os tools (missing_tools @ [tool])
            (print (u ''    '' @ RED @ [BALLOT_X] @ ENDC @ u '' '' @ ljust 10 tool @ u '' ''
                      @ RED @ u ''ERROR (cmd not found)'' @ ENDC) s1)
      | (Inl (Exn (OtherError m)), s1) \<Rightarrow> (Inl (Uncaught (OtherError m)), s1))"

definition check_tools_installed :: "'w os \<Rightarrow> str list \<Rightarrow> 'w st \<Rightarrow> stop option \<times> 'w st" where
  "check_tools_installed os tools s0 =
     (let s1 = print (BOLD @ NL # u ''--- System Check: Verifying Installed Tools ---'' @ ENDC) s0 in
      case check_tools_loop os tools [] s1 of
        (Inl e, s2) \<Rightarrow> (Some e, s2)
      | (Inr missing_tools, s2) \<Rightarrow>
          if missing_tools \<noteq> [] then
            (Some (SysExit 1),
             print (YELLOW @ u ''Please install them to run this script.'' @ ENDC)
               (print (NL # RED @ BOLD @ u ''[FATAL] The following tools are missing: ''
                         @ join (u '', '') missing_tools @ ENDC) s2))
          else
            (None, print (GREEN @ u ''    >> All systems go. Starting reconnaissance.'' @ ENDC) s2))"

section \<open>The Process Runner (lines 64--105)\<close>

text \<open>
  \<open>environment\<close> is \<open>None\<close> or a dictionary, \<open>output_file\<close> and \<open>input_data\<close> are
  \<open>None\<close> or a string. The result is the \<open>CompletedProcess\<close> returned, or the way the
  process stops: \<open>sys.exit(1)\<close> in the last handler, and the \<open>IndexError\<close> of
  \<open>command[0]\<close> inside the first handler when the command is empty.
\<close>

definition run_command ::
  "'w os \<Rightarrow> str list \<Rightarrow> str option \<Rightarrow> str option \<Rightarrow> env option \<Rightarrow> bool \<Rightarrow> 'w st
     \<Rightarrow> (stop + completed) \<times> 'w st" where
  "run_command os command input_data output_file environment dry_run s0 =
     (let cmd_str = join (u '' '') command;
          s1 = print (CYAN @ u ''    '' @ [ARROW] @ u '' Executing: '' @ cmd_str @ ENDC) s0
      in
      if dry_run then
        (let proxy_msg =
               (case environment of
                  None \<Rightarrow> []
                | Some e \<Rightarrow>
                    if e \<noteq> [] then u '' (Proxy: '' @ str_opt (dict_get e (u ''HTTP_PROXY'')) @ u '')''
                    else []);
             s2 = print (YELLOW @ u ''    [DRY-RUN] Command skipped.'' @ proxy_msg @ ENDC) s1;
             s3 = (if truthy_opt output_file
                   then print (YELLOW @ u ''    [DRY-RUN] Output path: '' @ str_opt output_file @ ENDC) s2
                   else s2)
         in (Inr (CompletedProcess command 0 (u ''Simulated output'' @ [NL]) []), s3))
      else
        (case subprocess_run os command input_data environment s1 of
           (Inr result, s2) \<Rightarrow>
             if truthy_opt output_file then
               (case write_file os (str_opt output_file) (stdout result) s2 of
                  (None, s3) \<Rightarrow>
                    (Inr result,
                     print (GREEN @ u ''    '' @ [CHECK_MARK] @ u '' Output saved to: '' @ UNDERLINE
                              @ str_opt output_file @ ENDC) s3)
                | (Some e, s3) \<Rightarrow>
                    (Inl (SysExit 1),
                     print (NL # RED @ BOLD @ u ''[CRITICAL ERROR] ''
                              @ (case e of FileNotFoundError m \<Rightarrow> m | OtherError m \<Rightarrow> m) @ ENDC) s3))
             else (Inr result, s2)
         | (Inl (CalledProcessError rc err), s2) \<Rightarrow>
             (case command of
                [] \<Rightarrow> (Inl (Uncaught (OtherError (u ''list index out of range''))), s2)
              | tool # rest \<Rightarrow>
                  (let s3 = print (NL # RED @ u ''    [ERROR] Tool '' @ [SQ] @ tool @ [SQ]
                                     @ u '' failed with exit code '' @ str_int rc @ u ''.'' @ ENDC) s2;
                       s4 = (if truthy err
                             then print (RED @ u ''    Stderr: '' @ strip err @ ENDC) s3 else s3)
                   in (Inr (CompletedProcess command 1 [] err), s4)))
         | (Inl (Exn e), s2) \<Rightarrow>
             (Inl (SysExit 1),
              print (NL # RED @ BOLD @ u ''[CRITICAL ERROR] ''
                       @ (case e of FileNotFoundError m \<Rightarrow> m | OtherError m \<Rightarrow> m) @ ENDC) s2)))"


section \<open>Main logic (lines 110--289)\<close>

text \<open>
  The parsed command line: \<open>args.domain\<close>, \<open>args.list\<close>, \<open>args.output_dir\<close>,
  \<open>args.proxy\<close> and \<open>args.dry_run\<close>. An option that was not given is \<open>None\<close>.
\<close>

record arguments =
  domain :: "str option"
  list_file :: "str option"
  output_dir :: str
  proxy :: "str option"
  dry_run :: bool

text \<open>
  Lines 131--139. \<open>open(None, 'r')\<close> raises \<open>TypeError\<close>, which nothing catches.
\<close>

definition load_target_list :: "'w os \<Rightarrow> arguments \<Rightarrow> 'w st \<Rightarrow> (stop + str list) \<times> 'w st" where
  "load_target_list os a s =
     (if truthy_opt (domain a) then (Inr [str_opt (domain a)], s)
      else
        (case list_file a of
           None \<Rightarrow>
             (Inl (Uncaught (OtherError (u ''expected str, bytes or os.PathLike object, not NoneType''))), s)
         | Some path \<Rightarrow>
             (case os_read os path (world s) of
                Inr content \<Rightarrow> (Inr (load_targets content), s)
              | Inl (FileNotFoundError m) \<Rightarrow>
                  (Inl (SysExit 1),
                   print_err (u ''Input list file '' @ [SQ] @ path @ [SQ] @ u '' not found.'') s)
              | Inl (OtherError m) \<Rightarrow> (Inl (Uncaught (OtherError m)), s))))"

text \<open>
  The output files of one target (\<open>os.path.join(output_base_dir, f"{target}_...")\<close>) and
  the command lines of the five stages and of the seeding step, as the loop body builds them.
\<close>

definition subfinder_output_file :: "arguments \<Rightarrow> str \<Rightarrow> str" where
  "subfinder_output_file a target = path_join (output_dir a) (target @ u ''_subfinder.txt'')"

definition dnsx_output_file :: "arguments \<Rightarrow> str \<Rightarrow> str" where
  "dnsx_output_file a target = path_join (output_dir a) (target @ u ''_dnsx.txt'')"

definition naabu_output_file :: "arguments \<Rightarrow> str \<Rightarrow> str" where
  "naabu_output_file a target = path_join (output_dir a) (target @ u ''_naabu.txt'')"

definition httpx_details_file :: "arguments \<Rightarrow> str \<Rightarrow> str" where
  "httpx_details_file a target = path_join (output_dir a) (target @ u ''_httpx_details.txt'')"

definition urls_for_burp_file :: "arguments \<Rightarrow> str \<Rightarrow> str" where
  "urls_for_burp_file a target = path_join (output_dir a) (target @ u ''_urls_for_burp.txt'')"

definition katana_output_file :: "arguments \<Rightarrow> str \<Rightarrow> str" where
  "katana_output_file a target =
     path_join (output_dir a) (target @ u ''_katana_crawled_paths.txt'')"

definition subfinder_cmd :: "str \<Rightarrow> str list" where
  "subfinder_cmd target = [u ''subfinder'', u ''-d'', target, u ''-silent'']"

definition dnsx_cmd :: "str list" where
  "dnsx_cmd = [u ''dnsx'', u ''-silent'']"

definition naabu_cmd :: "str list" where
  "naabu_cmd = [u ''naabu'', u ''-p'', u ''80,443,8080,8443'', u ''-nmap-cli'', u ''-silent'']"

definition httpx_cmd :: "arguments \<Rightarrow> str \<Rightarrow> str \<Rightarrow> str list" where
  "httpx_cmd a proxy_url target =
     [u ''httpx'', u ''-sc'', u ''-cl'', u ''-title'', u ''-probe'', u ''-silent'', u ''-o'',
      httpx_details_file a target]
     @ (if truthy_opt (proxy a) then [u ''-http-proxy'', proxy_url] else [])"

definition katana_cmd :: "arguments \<Rightarrow> str \<Rightarrow> str list" where
  "katana_cmd a proxy_url =
     [u ''katana'', u ''-jc'', u ''-aff'', u ''-kf'', u ''all'', u ''-silent'']
     @ (if truthy_opt (proxy a) then [u ''-proxy'', proxy_url] else [])"

definition seed_cmd :: "arguments \<Rightarrow> str \<Rightarrow> str \<Rightarrow> str list" where
  "seed_cmd a proxy_url target =
     [u ''httpx'', u ''-silent'', u ''-http-proxy'', proxy_url, u ''-l'', urls_for_burp_file a target]"

text \<open>The final summary, lines 279--289.\<close>

definition final_summary :: "'w os \<Rightarrow> arguments \<Rightarrow> str \<Rightarrow> 'w st \<Rightarrow> 'w st" where
  "final_summary os a target s =
     (let s1 = print (NL # BOLD @ GREEN @ rule60 @ ENDC) s;
          s2 = print (BOLD @ GREEN @ u '' RECONNAISSANCE COMPLETE: '' @ WHITE @ target @ ENDC) s1;
          s3 = print (BOLD @ GREEN @ rule60 @ ENDC) s2;
          s4 = print (u ''    '' @ CYAN @ u ''Results Directory:'' @ ENDC @ u '' ''
                        @ os_abspath os (output_dir a) (world s3)) s3;
          s5 = (if truthy_opt (proxy a) then
                  print (u ''    '' @ CYAN @ u ''Next Step:'' @ ENDC
                           @ u ''         Check Burp Suite '' @ [SQ] @ u ''Target'' @ [SQ] @ u '' tab.'')
                    (print (u ''    '' @ CYAN @ u ''Proxy Status:'' @ ENDC
                              @ u ''      Traffic sent to '' @ str_opt (proxy a)) s4)
                else
                  print (u ''    '' @ CYAN @ u ''Manual Import:'' @ ENDC @ u ''     Import '' @ [SQ]
                           @ basename (urls_for_burp_file a target) @ [SQ] @ u '' into Burp.'') s4)
      in print [NL] s5)"

text \<open>Step 6, lines 269--276.\<close>

definition seed_burp ::
  "'w os \<Rightarrow> arguments \<Rightarrow> str \<Rightarrow> env \<Rightarrow> str \<Rightarrow> 'w st \<Rightarrow> stop option \<times> 'w st" where
  "seed_burp os a proxy_url current_env target s =
     (if truthy_opt (proxy a) \<and> \<not> dry_run a then
        (let s1 = print_step 6 6 (u ''Burp Suite Integration'') (u ''Seeding Site Map'') s;
             s2 = print (u ''    Sending discovered URLs to '' @ BOLD @ str_opt (proxy a) @ ENDC
                           @ u ''...'') s1
         in case run_command os (seed_cmd a proxy_url target) None None (Some current_env)
                   (dry_run a) s2 of
              (Inl e, s3) \<Rightarrow> (Some e, s3)
            | (Inr r, s3) \<Rightarrow>
                (None, print_success (u ''Burp Suite Site Map populated successfully.'') s3))
      else (None, s))"

text \<open>
  The stages of one loop iteration, last first. Each takes the value of \<open>current_input\<close>
  it starts with and yields the value the variable has when the iteration ends
  (by \<open>continue\<close> or at the end of the body), or the way the process stops.
\<close>

text \<open>Stage 5, lines 254--266, followed by step 6 and the summary.\<close>

definition katana_stage ::
  "'w os \<Rightarrow> arguments \<Rightarrow> str \<Rightarrow> env \<Rightarrow> str \<Rightarrow> str option \<Rightarrow> 'w st
     \<Rightarrow> (stop + str option) \<times> 'w st" where
  "katana_stage os a proxy_url current_env target current_input s =
     (let s1 = print_step 5 6 (u ''Katana'') (u ''Crawling for endpoints'') s
      in case run_command os (katana_cmd a proxy_url) current_input
                (Some (katana_output_file a target)) (Some current_env) (dry_run a) s1 of
           (Inl e, s2) \<Rightarrow> (Inl e, s2)
         | (Inr katana_result, s2) \<Rightarrow>
             (let s3 = (if \<not> dry_run a
                        then print (GREEN @ u ''    '' @ [CHECK_MARK] @ u '' Crawled paths saved.'' @ ENDC) s2
                        else s2)
              in case seed_burp os a proxy_url current_env target s3 of
                   (Some e, s4) \<Rightarrow> (Inl e, s4)
                 | (None, s4) \<Rightarrow> (Inr current_input, final_summary os a target s4)))"

text \<open>
  Lines 227--247: the clean-URL list read from the rich-detail file. Both the read and
  the write are inside the \<open>try\<close>, so a \<open>FileNotFoundError\<close> of either reaches the handler.
\<close>

definition collect_clean_urls ::
  "'w os \<Rightarrow> arguments \<Rightarrow> str \<Rightarrow> str option \<Rightarrow> 'w st \<Rightarrow> (stop + str option) \<times> 'w st" where
  "collect_clean_urls os a target current_input s =
     (if \<not> dry_run a then
        (case os_read os (httpx_details_file a target) (world s) of
           Inl (FileNotFoundError m) \<Rightarrow>
             (Inr None,
              print_warn (u ''httpx did not produce an output file. Likely no live services found.'') s)
         | Inl (OtherError m) \<Rightarrow> (Inl (Uncaught (OtherError m)), s)
         | Inr content \<Rightarrow>
             (let clean_urls = extract_urls [] (readlines content) in
              case write_file os (urls_for_burp_file a target) (join [NL] clean_urls) s of
                (Some (FileNotFoundError m), s1) \<Rightarrow>
                  (Inr None,
                   print_warn
                     (u ''httpx did not produce an output file. Likely no live services found.'') s1)
              | (Some (OtherError m), s1) \<Rightarrow> (Inl (Uncaught (OtherError m)), s1)
              | (None, s1) \<Rightarrow>
                  (Inr (Some (join [NL] clean_urls)),
                   print (GREEN @ u ''    '' @ [CHECK_MARK] @ u '' Clean URLs: ''
                            @ urls_for_burp_file a target
                            @ u '' (Ready for Burp)'' @ ENDC)
                     (print (GREEN @ u ''    '' @ [CHECK_MARK] @ u '' Rich details: ''
                               @ httpx_details_file a target @ ENDC) s1))))
      else (Inr current_input, s))"

text \<open>Stage 4, lines 215--251.\<close>

definition httpx_stage ::
  "'w os \<Rightarrow> arguments \<Rightarrow> str \<Rightarrow> env \<Rightarrow> str \<Rightarrow> str option \<Rightarrow> 'w st \<Rightarrow> (stop + str option) \<times> 'w st" where
  "httpx_stage os a proxy_url current_env target current_input s =
     (let s1 = print_step 4 6 (u ''HTTPX'') (u ''Probing for live HTTP services'') s
      in case run_command os (httpx_cmd a proxy_url target) current_input None (Some current_env)
                (dry_run a) s1 of
           (Inl e, s2) \<Rightarrow> (Inl e, s2)
         | (Inr httpx_result, s2) \<Rightarrow>
             (case collect_clean_urls os a target current_input s2 of
                (Inl e, s3) \<Rightarrow> (Inl e, s3)
              | (Inr current_input', s3) \<Rightarrow>
                  if \<not> truthy_opt current_input' \<and> \<not> dry_run a then
                    (Inr current_input',
                     print_warn
                       (u ''httpx found no live HTTP(S) services. Stopping chain for this target.'') s3)
                  else katana_stage os a proxy_url current_env target current_input' s3))"

text \<open>Stage 3, lines 202--212.\<close>

definition naabu_stage ::
  "'w os \<Rightarrow> arguments \<Rightarrow> str \<Rightarrow> env \<Rightarrow> str \<Rightarrow> str option \<Rightarrow> 'w st \<Rightarrow> (stop + str option) \<times> 'w st" where
  "naabu_stage os a proxy_url current_env target current_input s =
     (let s1 = print_step 3 6 (u ''Naabu'') (u ''Port scanning (Top web ports)'') s
      in case run_command os naabu_cmd current_input (Some (naabu_output_file a target)) None
                (dry_run a) s1 of
           (Inl e, s2) \<Rightarrow> (Inl e, s2)
         | (Inr naabu_result, s2) \<Rightarrow>
             (let current_input' = Some (stdout naabu_result) in
              if \<not> truthy_opt current_input' \<and> \<not> dry_run a then
                (Inr current_input',
                 print_warn (u ''Naabu found no open web ports. Stopping chain for this target.'') s2)
              else httpx_stage os a proxy_url current_env target current_input' s2))"

text \<open>Stage 2, lines 189--199.\<close>

definition dnsx_stage ::
  "'w os \<Rightarrow> arguments \<Rightarrow> str \<Rightarrow> env \<Rightarrow> str \<Rightarrow> str option \<Rightarrow> 'w st \<Rightarrow> (stop + str option) \<times> 'w st" where
  "dnsx_stage os a proxy_url current_env target current_input s =
     (let s1 = print_step 2 6 (u ''DNSx'') (u ''Resolving active subdomains'') s
      in case run_command os dnsx_cmd current_input (Some (dnsx_output_file a target)) None
                (dry_run a) s1 of
           (Inl e, s2) \<Rightarrow> (Inl e, s2)
         | (Inr dnsx_result, s2) \<Rightarrow>
             (let current_input' = Some (stdout dnsx_result) in
              if \<not> truthy_opt current_input' \<and> \<not> dry_run a then
                (Inr current_input',
                 print_warn (u ''DNSx resolved no hosts. Stopping chain for this target.'') s2)
              else naabu_stage os a proxy_url current_env target current_input' s2))"

text \<open>Lines 179--182: the output of stage 1 is saved by the loop body itself.\<close>

definition save_subfinder_output ::
  "'w os \<Rightarrow> arguments \<Rightarrow> str \<Rightarrow> str option \<Rightarrow> 'w st \<Rightarrow> stop option \<times> 'w st" where
  "save_subfinder_output os a target current_input s =
     (if truthy_opt current_input \<and> \<not> dry_run a then
        (case write_file os (subfinder_output_file a target) (str_opt current_input) s of
           (Some e, s1) \<Rightarrow> (Some (Uncaught e), s1)
         | (None, s1) \<Rightarrow>
             (None,
              print (GREEN @ u ''    '' @ [CHECK_MARK] @ u '' Output saved to: ''
                       @ subfinder_output_file a target @ ENDC) s1))
      else (None, s))"

text \<open>Stage 1, lines 171--186. It is started on no input.\<close>

definition subfinder_stage ::
  "'w os \<Rightarrow> arguments \<Rightarrow> str \<Rightarrow> env \<Rightarrow> str \<Rightarrow> 'w st \<Rightarrow> (stop + str option) \<times> 'w st" where
  "subfinder_stage os a proxy_url current_env target s =
     (let s1 = print_step 1 6 (u ''Subfinder'') (u ''Enumerating subdomains'') s
      in case run_command os (subfinder_cmd target) None None None (dry_run a) s1 of
           (Inl e, s2) \<Rightarrow> (Inl e, s2)
         | (Inr subfinder_result, s2) \<Rightarrow>
             (let current_input' = Some (stdout subfinder_result) in
              case save_subfinder_output os a target current_input' s2 of
                (Some e, s3) \<Rightarrow> (Inl e, s3)
              | (None, s3) \<Rightarrow>
                  if \<not> truthy_opt current_input' \<and> \<not> dry_run a then
                    (Inr current_input',
                     print_warn
                       (u ''Subfinder returned no results. Stopping chain for this target.'') s3)
                  else dnsx_stage os a proxy_url current_env target current_input' s3))"

text \<open>
  The loop body, lines 165--289. \<open>current_input\<close> is the value the variable holds when
  the iteration begins; line 169 sets it to \<open>None\<close> and stage 1 then assigns it anew.
\<close>

definition process_target ::
  "'w os \<Rightarrow> arguments \<Rightarrow> str \<Rightarrow> env \<Rightarrow> str \<Rightarrow> str option \<Rightarrow> 'w st \<Rightarrow> (stop + str option) \<times> 'w st" where
  "process_target os a proxy_url current_env target current_input s =
     (let s1 = print (NL # BOLD @ BLUE @ rule60 @ ENDC) s;
          s2 = print (BOLD @ BLUE @ u '' STARTING RECON FOR TARGET: '' @ WHITE @ target @ ENDC) s1;
          s3 = print (BOLD @ BLUE @ rule60 @ ENDC) s2;
          current_input' = (None :: str option)
      in subfinder_stage os a proxy_url current_env target s3)"

text \<open>The loop over the targets, line 164.\<close>

fun for_targets ::
  "'w os \<Rightarrow> arguments \<Rightarrow> str \<Rightarrow> env \<Rightarrow> str list \<Rightarrow> str option \<Rightarrow> 'w st
     \<Rightarrow> (stop + str option) \<times> 'w st" where
  "for_targets os a proxy_url current_env [] current_input s = (Inr current_input, s)"
| "for_targets os a proxy_url current_env (target # targets) current_input s =
     (case process_target os a proxy_url current_env target current_input s of
        (Inl e, s') \<Rightarrow> (Inl e, s')
      | (Inr current_input', s') \<Rightarrow> for_targets os a proxy_url current_env targets current_input' s')"

text \<open>
  \<open>main\<close> after \<open>parse_args\<close>. The result is \<open>None\<close> when \<open>main\<close> returns, and the
  way the process stops otherwise.
\<close>

definition main :: "'w os \<Rightarrow> arguments \<Rightarrow> 'w st \<Rightarrow> stop option \<times> 'w st" where
  "main os a s0 =
     (case check_tools_installed os TOOL_CHAIN s0 of
        (Some e, s1) \<Rightarrow> (Some e, s1)
      | (None, s1) \<Rightarrow>
          (case load_target_list os a s1 of
             (Inl e, s2) \<Rightarrow> (Some e, s2)
           | (Inr targets, s2) \<Rightarrow>
               if targets = [] then
                 (Some (SysExit 1), print_err (u ''No valid targets found in the input.'') s2)
               else
                 (let output_base_dir = output_dir a in
                  case makedirs os output_base_dir s2 of
                    (Some e, s3) \<Rightarrow> (Some (Uncaught e), s3)
                  | (None, s3) \<Rightarrow>
                      (let s4 = print_info (u ''Output directory: '' @ output_base_dir) s3;
                           environ = os_environ os (world s4);
                           proxy_url = (if truthy_opt (proxy a)
                                        then u ''http://'' @ str_opt (proxy a) else []);
                           current_env =
                             (if truthy_opt (proxy a)
                              then dict_set (u ''HTTPS_PROXY'') proxy_url
                                     (dict_set (u ''HTTP_PROXY'') proxy_url environ)
                              else environ);
                           s5 = (if truthy_opt (proxy a)
                                 then print_info (u ''Proxy enabled: '' @ BOLD @ proxy_url @ ENDC
                                                    @ u '' (BurpSuite Integration)'') s4
                                 else print_info (u ''No proxy specified. Direct connection mode.'') s4)
                       in case for_targets os a proxy_url current_env targets None s5 of
                            (Inl e, s6) \<Rightarrow> (Some e, s6)
                          | (Inr current_input, s6) \<Rightarrow> (None, s6)))))"


section \<open>A scripted environment\<close>

text \<open>
  An environment on which the model can be run: the world is the list of files with their
  contents, every program exits at once with the status, output and error text that
  \<open>script\<close> gives for its name, a program called with \<open>-o path\<close> that exits with
  status 0 leaves its output in that file too, and no file operation fails except the read
  of a file that does not exist.
\<close>

type_synonym files = "(str \<times> str) list"

fun arg_after :: "str \<Rightarrow> str list \<Rightarrow> str option" where
  "arg_after k [] = None"
| "arg_after k [x] = None"
| "arg_after k (x # y # ys) = (if x = k then Some y else arg_after k (y # ys))"

definition scripted_spawn ::
  "(str \<Rightarrow> int \<times> str \<times> str) \<Rightarrow> str list \<Rightarrow> str option \<Rightarrow> env option \<Rightarrow> files
     \<Rightarrow> (exn + int \<times> str \<times> str) \<times> files" where
  "scripted_spawn script command input_data environment fs =
     (case command of
        [] \<Rightarrow> (Inl (OtherError (u ''empty command'')), fs)
      | tool # rest \<Rightarrow>
          (case script tool of (rc, out, err) \<Rightarrow>
             (Inr (rc, out, err),
              case arg_after (u ''-o'') rest of
                None \<Rightarrow> fs
              | Some path \<Rightarrow> if rc = 0 then dict_set path out fs else fs)))"

definition scripted_os :: "(str \<Rightarrow> int \<times> str \<times> str) \<Rightarrow> env \<Rightarrow> files os" where
  "scripted_os script environ =
     \<lparr> os_spawn = scripted_spawn script,
       os_read = (\<lambda>path fs. case map_of fs path of
                                None \<Rightarrow> Inl (FileNotFoundError path) | Some c \<Rightarrow> Inr c),
       os_write = (\<lambda>path content fs. (None, dict_set path content fs)),
       os_makedirs = (\<lambda>path fs. (None, fs)),
       os_abspath = (\<lambda>path fs. u ''/work/'' @ path),
       os_environ = (\<lambda>fs. environ) \<rparr>"

text \<open>Three scripts: every tool succeeds; \<open>dnsx\<close> exits with status 2; \<open>subfinder\<close> finds nothing.\<close>

definition all_ok :: "str \<Rightarrow> int \<times> str \<times> str" where
  "all_ok tool =
     (if tool = u ''httpx'' then (0, u ''https://a.io 200 12 Home'' @ [NL], [])
      else if tool = u ''katana'' then (0, u ''https://a.io/x'' @ [NL], [])
      else (0, u ''a.io'' @ [NL], []))"

definition dnsx_fails :: "str \<Rightarrow> int \<times> str \<times> str" where
  "dnsx_fails tool = (if tool = u ''dnsx'' then (2, u ''partial'', u ''boom'') else all_ok tool)"

definition subfinder_empty :: "str \<Rightarrow> int \<times> str \<times> str" where
  "subfinder_empty tool = (if tool = u ''subfinder'' then (0, [], []) else all_ok tool)"

definition start :: "files \<Rightarrow> files st" where
  "start fs = \<lparr> world = fs, console = [], calls = [] \<rparr>"

text \<open>
  More environments. \<open>all_fail\<close>: every tool exits with status 2. \<open>httpx_fails\<close>:
  the \<open>httpx\<close> tool exits with status 1 and prints nothing. \<open>rerun_os\<close>: \<open>httpx\<close>
  works the first time and fails in that way whenever the file named after \<open>-o\<close> is
  already there. \<open>undecodable_os\<close>: every tool exits with a non-zero status after
  printing a byte that is not valid UTF-8, so that \<open>subprocess.run\<close> raises
  \<open>UnicodeDecodeError\<close> instead of \<open>CalledProcessError\<close>.
\<close>

definition all_fail :: "str \<Rightarrow> int \<times> str \<times> str" where
  "all_fail tool = (2, u ''partial'', u ''boom'')"

definition httpx_fails :: "str \<Rightarrow> int \<times> str \<times> str" where
  "httpx_fails tool = (if tool = u ''httpx'' then (1, [], u ''boom'') else all_ok tool)"

definition rerun_spawn ::
  "str list \<Rightarrow> str option \<Rightarrow> env option \<Rightarrow> files \<Rightarrow> (exn + int \<times> str \<times> str) \<times> files" where
  "rerun_spawn command input_data environment fs =
     (case command of
        [] \<Rightarrow> (Inl (OtherError (u ''empty command'')), fs)
      | tool # rest \<Rightarrow>
          (case arg_after (u ''-o'') rest of
             None \<Rightarrow> scripted_spawn all_ok command input_data environment fs
           | Some path \<Rightarrow>
               if tool = u ''httpx'' \<and> map_of fs path \<noteq> None
               then (Inr (1, [], u ''boom''), fs)
               else scripted_spawn all_ok command input_data environment fs))"

definition rerun_os :: "files os" where
  "rerun_os = (scripted_os all_ok [])\<lparr> os_spawn := rerun_spawn \<rparr>"

definition undecodable_os :: "files os" where
  "undecodable_os =
     (scripted_os all_ok [])
       \<lparr> os_spawn := (\<lambda>command input_data environment fs.
                         (Inl (OtherError (u ''utf-8 codec cannot decode byte 0xff'')), fs)) \<rparr>"


section \<open>Reading the log of calls\<close>

text \<open>
  The kinds of logged call, the calls and lines a run adds to a state, and the probe
  \<open>which tool\<close> of the Tool Availability Checker.
\<close>

fun is_spawn :: "call \<Rightarrow> bool" where
  "is_spawn (Spawn command input_data environment) = True"
| "is_spawn (WriteText path content) = False"
| "is_spawn (MakeDirs path) = False"

fun is_write :: "call \<Rightarrow> bool" where
  "is_write (WriteText path content) = True"
| "is_write (Spawn command input_data environment) = False"
| "is_write (MakeDirs path) = False"

definition which_probe :: "str \<Rightarrow> call" where
  "which_probe tool = Spawn [u ''which'', tool] None None"

definition new_calls :: "'w st \<Rightarrow> 'w st \<Rightarrow> call list" where
  "new_calls s s' = drop (length (calls s)) (calls s')"

definition new_lines :: "'w st \<Rightarrow> 'w st \<Rightarrow> str list" where
  "new_lines s s' = drop (length (console s)) (console s')"

text \<open>
  The lines of the output that the claims name: the banner that opens the work on a target,
  the line of the summary block with the absolute path of the output directory, and the two
  notices of which the summary prints one. A line is \<open>decorated\<close> when it starts with a
  colour code or a line break.
\<close>

definition banner_line :: "str \<Rightarrow> str" where
  "banner_line target = BOLD @ BLUE @ u '' STARTING RECON FOR TARGET: '' @ WHITE @ target @ ENDC"

definition results_line :: "'w os \<Rightarrow> arguments \<Rightarrow> 'w \<Rightarrow> str" where
  "results_line os a w =
     u ''    '' @ CYAN @ u ''Results Directory:'' @ ENDC @ u '' '' @ os_abspath os (output_dir a) w"

definition proxy_notice :: "arguments \<Rightarrow> str" where
  "proxy_notice a =
     u ''    '' @ CYAN @ u ''Proxy Status:'' @ ENDC @ u ''      Traffic sent to '' @ str_opt (proxy a)"

definition manual_notice :: "arguments \<Rightarrow> str \<Rightarrow> str" where
  "manual_notice a target =
     u ''    '' @ CYAN @ u ''Manual Import:'' @ ENDC @ u ''     Import '' @ [SQ]
       @ basename (urls_for_burp_file a target) @ [SQ] @ u '' into Burp.''"

definition notice_line :: "arguments \<Rightarrow> str \<Rightarrow> str" where
  "notice_line a target = (if truthy_opt (proxy a) then proxy_notice a else manual_notice a target)"

definition decorated :: "str \<Rightarrow> bool" where
  "decorated l = (case l of [] \<Rightarrow> False | c # cs \<Rightarrow> c = ESC \<or> c = NL)"

text \<open>
  The spawn calls of the five stages in order: each command with the environment it is
  given, paired with the inputs it is started on.
\<close>

definition stage_table :: "arguments \<Rightarrow> str \<Rightarrow> env \<Rightarrow> str \<Rightarrow> (str list \<times> env option) list" where
  "stage_table a proxy_url current_env target =
     [(subfinder_cmd target, None), (dnsx_cmd, None), (naabu_cmd, None),
      (httpx_cmd a proxy_url target, Some current_env), (katana_cmd a proxy_url, Some current_env)]"

definition chain :: "(str list \<times> env option) list \<Rightarrow> str option list \<Rightarrow> call list" where
  "chain table inputs = map (\<lambda>((command, environment), input_data).
                               Spawn command input_data environment) (zip table inputs)"

text \<open>
  What the lines \<open>l\<close> printed for one target are like when the iteration ends with the
  buffer \<open>c\<close>: the summary is among them when the buffer is not empty (or in a dry run),
  and otherwise every line is decorated, which no line of the summary block is.
\<close>

definition target_lines :: "'w os \<Rightarrow> arguments \<Rightarrow> str \<Rightarrow> 'w \<Rightarrow> str option \<Rightarrow> str list \<Rightarrow> bool" where
  "target_lines os a target w c l =
     (if truthy_opt c \<or> dry_run a
      then results_line os a w \<in> set l \<and> notice_line a target \<in> set l
      else list_all decorated l)"

text \<open>
  The shape of the calls \<open>new\<close> that the stages of \<open>table\<close> add when the first of them
  is started on \<open>input_data\<close> and the iteration ends with \<open>r\<close>: the spawn calls are those of
  a prefix of the table, each later stage started on the non-empty output \<open>outs\<close> of the one
  before it, followed by at most the seeding command, which needs the whole table to have
  run; and the iteration ends with a non-empty buffer exactly when the whole table has run.
\<close>

definition stage_trace ::
  "arguments \<Rightarrow> str \<Rightarrow> env \<Rightarrow> str \<Rightarrow> (str list \<times> env option) list \<Rightarrow> str option
     \<Rightarrow> (stop + str option) \<Rightarrow> call list \<Rightarrow> bool" where
  "stage_trace a proxy_url current_env target table input_data r new =
     (\<exists>outs sd.
        filter is_spawn new = chain table (input_data # map Some outs) @ sd
        \<and> Suc (length outs) \<le> length table \<and> [] \<notin> set outs
        \<and> (sd = [] \<or> sd = [Spawn (seed_cmd a proxy_url target) None (Some current_env)]
                     \<and> Suc (length outs) = length table \<and> truthy_opt (proxy a))
        \<and> (\<forall>c. r = Inr c \<longrightarrow> (truthy_opt c \<longleftrightarrow> Suc (length outs) = length table)))"

text \<open>
  What a spawn call must look like for the proxy rule: the three stages that do not speak
  HTTP, and the probes of the tool check, are given no environment of their own; the
  \<open>httpx\<close> and \<open>katana\<close> commands are given the environment \<open>current_env\<close>.
\<close>

definition stage_env_ok :: "env \<Rightarrow> call \<Rightarrow> bool" where
  "stage_env_ok current_env c =
     (case c of
        Spawn command input_data environment \<Rightarrow>
          command \<noteq> []
          \<and> (hd command \<in> {u ''subfinder'', u ''dnsx'', u ''naabu'', u ''which''}
               \<longrightarrow> environment = None)
          \<and> (hd command \<in> {u ''httpx'', u ''katana''} \<longrightarrow> environment = Some current_env)
      | WriteText path content \<Rightarrow> True
      | MakeDirs path \<Rightarrow> True)"

text \<open>
  The environment a subprocess runs in: the mapping given to \<open>subprocess.run\<close>, and the
  environment of the program itself when none is given (\<open>env=None\<close>).
\<close>

definition received_env :: "env \<Rightarrow> env option \<Rightarrow> env" where
  "received_env environ environment = (case environment of None \<Rightarrow> environ | Some m \<Rightarrow> m)"


section \<open>Facts about \<open>strip\<close> and \<open>split\<close>\<close>

lemma rev_dropWhile_decomp:
  "xs = rev (dropWhile P (rev xs)) @ rev (takeWhile P (rev xs))"
proof -
  have "rev (takeWhile P (rev xs) @ dropWhile P (rev xs)) =
        rev (dropWhile P (rev xs)) @ rev (takeWhile P (rev xs))"
    by (rule rev_append)
  then show ?thesis by (simp only: takeWhile_dropWhile_id rev_rev_ident)
qed

lemma dropWhile_all_iff: "(\<forall>c \<in> set (dropWhile P s). P c) \<longleftrightarrow> dropWhile P s = []"
proof
  assume a: "\<forall>c \<in> set (dropWhile P s). P c"
  show "dropWhile P s = []"
  proof (rule ccontr)
    assume ne: "dropWhile P s \<noteq> []"
    then have "\<not> P (hd (dropWhile P s))" by (rule hd_dropWhile)
    moreover have "hd (dropWhile P s) \<in> set (dropWhile P s)" using ne by (rule hd_in_set)
    ultimately show False using a by blast
  qed
next
  assume "dropWhile P s = []"
  then show "\<forall>c \<in> set (dropWhile P s). P c" by (simp only: set_simps ball_empty)
qed

lemma strip_Nil_iff: "strip s = [] \<longleftrightarrow> list_all isspace s"
proof -
  have "strip s = [] \<longleftrightarrow> dropWhile isspace (rev (dropWhile isspace s)) = []"
    by (simp only: strip_def rev_is_Nil_conv)
  also have "\<dots> \<longleftrightarrow> (\<forall>c \<in> set (dropWhile isspace s). isspace c)"
    by (simp only: dropWhile_eq_Nil_conv set_rev)
  also have "\<dots> \<longleftrightarrow> dropWhile isspace s = []"
    by (rule dropWhile_all_iff)
  also have "\<dots> \<longleftrightarrow> list_all isspace s"
    by (simp only: dropWhile_eq_Nil_conv list_all_iff)
  finally show ?thesis .
qed

lemma strip_decomp:
  "dropWhile isspace s = strip s @ rev (takeWhile isspace (rev (dropWhile isspace s)))"
  unfolding strip_def by (rule rev_dropWhile_decomp)

lemma strip_last: "strip s \<noteq> [] \<Longrightarrow> \<not> isspace (last (strip s))"
proof -
  assume ne: "strip s \<noteq> []"
  let ?d = "dropWhile isspace (rev (dropWhile isspace s))"
  have dne: "?d \<noteq> []" using ne unfolding strip_def by simp
  then have "\<not> isspace (hd ?d)" by (rule hd_dropWhile)
  moreover have "last (strip s) = hd ?d" unfolding strip_def using dne by (simp add: last_rev)
  ultimately show ?thesis by simp
qed

lemma strip_hd: "strip s \<noteq> [] \<Longrightarrow> \<not> isspace (hd (strip s))"
proof -
  assume ne: "strip s \<noteq> []"
  let ?w = "rev (takeWhile isspace (rev (dropWhile isspace s)))"
  have d: "dropWhile isspace s = strip s @ ?w"
    by (rule strip_decomp)
  have dne: "dropWhile isspace s \<noteq> []"
  proof
    assume e: "dropWhile isspace s = []"
    have "strip s = rev (dropWhile isspace (rev []))"
      unfolding strip_def by (simp only: e)
    then have "strip s = []" by simp
    then show False using ne by simp
  qed
  then have "\<not> isspace (hd (dropWhile isspace s))" by (rule hd_dropWhile)
  moreover have "hd (dropWhile isspace s) = hd (strip s @ ?w)"
    by (rule arg_cong[OF d])
  moreover have "hd (strip s @ ?w) = hd (strip s)" using ne by (rule hd_append2)
  ultimately show ?thesis by simp
qed

lemma split_from_cur:
  "cur \<noteq> [] \<Longrightarrow> split_from cur s =
     (rev cur @ takeWhile (\<lambda>c. \<not> isspace c) s) # split_from [] (dropWhile (\<lambda>c. \<not> isspace c) s)"
  by (induction s arbitrary: cur) auto

lemma split_from_skip: "split_from [] s = split_from [] (dropWhile isspace s)"
  by (induction s) auto

lemma split_from_hd:
  "\<not> isspace c \<Longrightarrow> split_from [] (c # cs) =
     takeWhile (\<lambda>c. \<not> isspace c) (c # cs) # split_from [] (dropWhile (\<lambda>c. \<not> isspace c) cs)"
  by (simp add: split_from_cur)

lemma split_unfold:
  "split s = (case dropWhile isspace s of [] \<Rightarrow> []
      | c # cs \<Rightarrow> takeWhile (\<lambda>c. \<not> isspace c) (c # cs) # split (dropWhile (\<lambda>c. \<not> isspace c) cs))"
proof (cases "dropWhile isspace s")
  case Nil
  have "split s = split_from [] (dropWhile isspace s)"
    unfolding split_def by (rule split_from_skip)
  then show ?thesis by (simp add: Nil)
next
  case (Cons c cs)
  have "dropWhile isspace s \<noteq> []" by (simp only: Cons list.distinct not_False_eq_True)
  then have "\<not> isspace (hd (dropWhile isspace s))" by (rule hd_dropWhile)
  then have c: "\<not> isspace c" unfolding Cons list.sel .
  have "split s = split_from [] (dropWhile isspace s)"
    unfolding split_def by (rule split_from_skip)
  then show ?thesis by (simp only: Cons split_from_hd[OF c] list.case split_def)
qed

lemma takeWhile_strip:
  "takeWhile (\<lambda>c. \<not> isspace c) (strip s) = takeWhile (\<lambda>c. \<not> isspace c) (dropWhile isspace s)"
proof -
  let ?w = "rev (takeWhile isspace (rev (dropWhile isspace s)))"
  have d: "dropWhile isspace s = strip s @ ?w" by (rule strip_decomp)
  have w: "takeWhile (\<lambda>c. \<not> isspace c) ?w = []"
  proof (cases ?w)
    case Nil then show ?thesis by simp
  next
    case (Cons c cs)
    then have "c \<in> set (takeWhile isspace (rev (dropWhile isspace s)))"
      by (metis list.set_intros(1) set_rev)
    then have "isspace c" by (rule set_takeWhileD[THEN conjunct2])
    then show ?thesis using Cons by simp
  qed
  have "takeWhile (\<lambda>c. \<not> isspace c) (strip s @ ?w) = takeWhile (\<lambda>c. \<not> isspace c) (strip s)"
  proof (cases "\<forall>c \<in> set (strip s). (\<lambda>c. \<not> isspace c) c")
    case True
    then have t: "takeWhile (\<lambda>c. \<not> isspace c) (strip s) = strip s"
      by simp
    have "takeWhile (\<lambda>c. \<not> isspace c) (strip s @ ?w) =
        strip s @ takeWhile (\<lambda>c. \<not> isspace c) ?w"
      using True by simp
    also have "\<dots> = strip s @ []" by (simp only: w)
    also have "\<dots> = takeWhile (\<lambda>c. \<not> isspace c) (strip s)"
      by (simp only: t append_Nil2)
    finally show ?thesis .
  next
    case False
    then obtain c where "c \<in> set (strip s)" "\<not> \<not> isspace c" by blast
    then show ?thesis by (rule takeWhile_append1)
  qed
  then show ?thesis using d by simp
qed

lemma dropWhile_strip_id: "dropWhile isspace (strip s) = strip s"
proof (cases "strip s")
  case Nil then show ?thesis by simp
next
  case (Cons c cs)
  then have "\<not> isspace c" using strip_hd[of s] by simp
  then show ?thesis using Cons by simp
qed

lemma split_Nil_iff: "\<not> isspace (hd t) \<Longrightarrow> split t = [] \<longleftrightarrow> t = []"
  by (cases t) (simp_all add: split_def split_from_cur)

lemma split_strip_Nil_iff: "split (strip s) = [] \<longleftrightarrow> list_all isspace s"
proof (cases "strip s = []")
  case True
  then show ?thesis using strip_Nil_iff[of s] by (simp add: split_def)
next
  case False
  then have "\<not> isspace (hd (strip s))" by (rule strip_hd)
  then have "split (strip s) = [] \<longleftrightarrow> strip s = []" by (rule split_Nil_iff)
  then show ?thesis by (simp only: strip_Nil_iff)
qed

lemma hd_split_strip:
  "\<not> list_all isspace s \<Longrightarrow>
     hd (split (strip s)) = takeWhile (\<lambda>c. \<not> isspace c) (dropWhile isspace s)"
proof -
  assume "\<not> list_all isspace s"
  then have ne: "strip s \<noteq> []" by (simp add: strip_Nil_iff)
  then obtain c cs where c: "strip s = c # cs" by (cases "strip s") auto
  have nc: "\<not> isspace c" using strip_hd[OF ne] by (simp add: c)
  have "hd (split (strip s)) = takeWhile (\<lambda>c. \<not> isspace c) (strip s)"
    unfolding c split_def split_from_hd[OF nc] by (rule list.sel)
  then show ?thesis by (simp add: takeWhile_strip)
qed

lemma extract_urls_acc:
  "extract_urls acc ls = acc @ map (\<lambda>l. takeWhile (\<lambda>c. \<not> isspace c) (dropWhile isspace l))
       (filter (\<lambda>l. \<not> list_all isspace l) ls)"
proof (induction ls arbitrary: acc)
  case Nil then show ?case by simp
next
  case (Cons l ls)
  show ?case
  proof (cases "list_all isspace l")
    case True
    then have "split (strip l) = []" by (simp add: split_strip_Nil_iff)
    then show ?thesis using True Cons by simp
  next
    case False
    then have ne: "split (strip l) \<noteq> []" by (simp add: split_strip_Nil_iff)
    then obtain p ps where p: "split (strip l) = p # ps" by (cases "split (strip l)") auto
    then have "p = takeWhile (\<lambda>c. \<not> isspace c) (dropWhile isspace l)"
      using hd_split_strip[OF False] by simp
    then show ?thesis using False Cons p by simp
  qed
qed


section \<open>Target Loader and clean-URL list\<close>

text \<open>
  C6. For every list file that can be read, the Target Loader returns what \<open>load_targets\<close>
  makes of its content: the lines of the file that are not whitespace-only, each with its
  surrounding whitespace removed, in the order of the file and with nothing merged or
  dropped otherwise. Every target is non-empty and neither starts nor ends with whitespace,
  and \<open>"a.com\n\n  b.com \n"\<close> gives \<open>["a.com", "b.com"]\<close>.
\<close>

theorem load_targets_trimmed_nonblank_lines:
  "(\<not> truthy_opt (domain a) \<and> list_file a = Some path \<and> os_read os path (world s) = Inr content
      \<longrightarrow> load_target_list os a s = (Inr (load_targets content), s))
   \<and> load_targets content =
     map strip (filter (\<lambda>line. \<not> list_all isspace line) (readlines content))
   \<and> (\<forall>t \<in> set (load_targets content). t \<noteq> [] \<and> \<not> isspace (hd t) \<and> \<not> isspace (last t))
   \<and> load_targets (u ''a.com'' @ [NL, NL] @ u ''  b.com '' @ [NL]) = [u ''a.com'', u ''b.com'']"
proof (intro conjI ballI impI)
  assume "\<not> truthy_opt (domain a) \<and> list_file a = Some path
      \<and> os_read os path (world s) = Inr content"
  then show "load_target_list os a s = (Inr (load_targets content), s)"
    by (simp add: load_target_list_def)
next
  show "load_targets content =
     map strip (filter (\<lambda>line. \<not> list_all isspace line) (readlines content))"
    by (simp add: load_targets_def truthy_def strip_Nil_iff)
next
  fix t assume "t \<in> set (load_targets content)"
  then obtain line where t: "t = strip line" and ne: "strip line \<noteq> []"
    by (auto simp: load_targets_def truthy_def)
  show "t \<noteq> []" using t ne by simp
  show "\<not> isspace (hd t)" using strip_hd[OF ne] t by simp
  show "\<not> isspace (last t)" using strip_last[OF ne] t by simp
next
  show "load_targets (u ''a.com'' @ [NL, NL] @ u ''  b.com '' @ [NL]) = [u ''a.com'', u ''b.com'']"
    by (simp add: load_targets_def u_def readlines_def strip_def isspace_def truthy_def NL_def CR_def)
qed

theorem load_targets_trimmed_nonblank_lines_witness:
  "\<not> truthy_opt (domain \<lparr>domain = None, list_file = Some (u ''t.txt''), output_dir = u ''out'',
                            proxy = None, dry_run = False\<rparr>)
   \<and> os_read (scripted_os all_ok []) (u ''t.txt'')
        (world (start [(u ''t.txt'', u ''a.com'' @ [NL, NL] @ u ''  b.com '' @ [NL])]))
       = Inr (u ''a.com'' @ [NL, NL] @ u ''  b.com '' @ [NL])
   \<and> fst (load_target_list (scripted_os all_ok [])
             \<lparr>domain = None, list_file = Some (u ''t.txt''), output_dir = u ''out'',
               proxy = None, dry_run = False\<rparr>
             (start [(u ''t.txt'', u ''a.com'' @ [NL, NL] @ u ''  b.com '' @ [NL])]))
       = Inr [u ''a.com'', u ''b.com'']
   \<and> u ''b.com'' \<in> set (load_targets (u ''a.com'' @ [NL, NL] @ u ''  b.com '' @ [NL]))
   \<and> u ''b.com'' \<noteq> [] \<and> \<not> isspace (hd (u ''b.com'')) \<and> \<not> isspace (last (u ''b.com''))"
proof -
  let ?content = "u ''a.com'' @ [NL, NL] @ u ''  b.com '' @ [NL]"
  let ?a = "\<lparr>domain = None, list_file = Some (u ''t.txt''), output_dir = u ''out'',
              proxy = None, dry_run = False\<rparr>"
  let ?s = "start [(u ''t.txt'', ?content)]"
  note t = load_targets_trimmed_nonblank_lines
             [of ?a "u ''t.txt''" "scripted_os all_ok []" ?s ?content]
  have d: "\<not> truthy_opt (domain ?a)" by (simp add: truthy_opt_def)
  have l: "list_file ?a = Some (u ''t.txt'')" by simp
  have r: "os_read (scripted_os all_ok []) (u ''t.txt'') (world ?s) = Inr ?content"
    by (simp add: scripted_os_def start_def)
  from t have eq: "load_targets ?content = [u ''a.com'', u ''b.com'']" by blast
  from t d l r have "load_target_list (scripted_os all_ok []) ?a ?s
      = (Inr (load_targets ?content), ?s)" by blast
  then have ld: "fst (load_target_list (scripted_os all_ok []) ?a ?s)
      = Inr [u ''a.com'', u ''b.com'']" using eq by simp
  from t have trimmed:
    "\<forall>t \<in> set (load_targets ?content). t \<noteq> [] \<and> \<not> isspace (hd t) \<and> \<not> isspace (last t)"
    by blast
  have mem: "u ''b.com'' \<in> set (load_targets ?content)" unfolding eq by simp
  from trimmed mem have "u ''b.com'' \<noteq> [] \<and> \<not> isspace (hd (u ''b.com''))
      \<and> \<not> isspace (last (u ''b.com''))" by blast
  then show ?thesis using d r ld mem by (intro conjI) blast+
qed

text \<open>
  C7. In a run that is not a dry run, when the rich-detail file of stage 4 can be read and
  the clean-URL file can be written, the step of lines 227--247 derives the clean-URL list
  from the lines of the rich-detail file, writes it (joined by line breaks) to the
  clean-URL file, and leaves the same text in the buffer that stage 5 reads its input
  from. For every sequence of lines, the list holds, for each line that is not
  whitespace-only and in the order of the lines, the first whitespace-delimited token of
  the line (the characters after the leading whitespace up to the next whitespace); blank
  lines contribute nothing. The two example lines give
  \<open>["https://a.com", "https://b.com"]\<close>.
\<close>

theorem extract_urls_first_tokens:
  "(\<not> dry_run a \<and> os_read os (httpx_details_file a t) (world s) = Inr content
      \<and> fst (os_write os (urls_for_burp_file a t)
                (join [NL] (extract_urls [] (readlines content))) (world s)) = None
    \<longrightarrow> fst (collect_clean_urls os a t cur s)
          = Inr (Some (join [NL] (extract_urls [] (readlines content))))
        \<and> calls (snd (collect_clean_urls os a t cur s))
          = calls s @ [WriteText (urls_for_burp_file a t)
                         (join [NL] (extract_urls [] (readlines content)))])
   \<and> extract_urls [] raw_lines =
     map (\<lambda>line. takeWhile (\<lambda>c. \<not> isspace c) (dropWhile isspace line))
       (filter (\<lambda>line. \<not> list_all isspace line) raw_lines)
   \<and> extract_urls [] [u ''https://a.com 200 1234 Title Here'', u ''https://b.com 403 0 Forbidden'']
       = [u ''https://a.com'', u ''https://b.com'']
   \<and> extract_urls [] [u ''https://a.com 200 1234 Title Here'', u ''  '', [],
                        u ''https://b.com 403 0 Forbidden'']
       = [u ''https://a.com'', u ''https://b.com'']"
proof (intro conjI impI)
  assume h: "\<not> dry_run a \<and> os_read os (httpx_details_file a t) (world s) = Inr content
      \<and> fst (os_write os (urls_for_burp_file a t)
                (join [NL] (extract_urls [] (readlines content))) (world s)) = None"
  obtain w where w: "os_write os (urls_for_burp_file a t)
      (join [NL] (extract_urls [] (readlines content))) (world s) = (None, w)"
    using h by (metis prod.collapse)
  show "fst (collect_clean_urls os a t cur s)
          = Inr (Some (join [NL] (extract_urls [] (readlines content))))"
    using h w by (simp add: collect_clean_urls_def write_file_def Let_def)
  show "calls (snd (collect_clean_urls os a t cur s))
          = calls s @ [WriteText (urls_for_burp_file a t)
                         (join [NL] (extract_urls [] (readlines content)))]"
    using h w by (simp add: collect_clean_urls_def write_file_def Let_def print_def)
next
  show "extract_urls [] raw_lines =
     map (\<lambda>line. takeWhile (\<lambda>c. \<not> isspace c) (dropWhile isspace line))
       (filter (\<lambda>line. \<not> list_all isspace line) raw_lines)"
    by (simp add: extract_urls_acc)
next
  show "extract_urls [] [u ''https://a.com 200 1234 Title Here'', u ''https://b.com 403 0 Forbidden'']
       = [u ''https://a.com'', u ''https://b.com'']"
    by (simp add: u_def split_def strip_def isspace_def)
next
  show "extract_urls [] [u ''https://a.com 200 1234 Title Here'', u ''  '', [],
                        u ''https://b.com 403 0 Forbidden'']
       = [u ''https://a.com'', u ''https://b.com'']"
    by (simp add: u_def split_def strip_def isspace_def)
qed

theorem extract_urls_first_tokens_witness:
  "\<not> dry_run \<lparr>domain = Some (u ''a.com''), list_file = None, output_dir = u ''out'',
                proxy = None, dry_run = False\<rparr>
   \<and> os_read (scripted_os all_ok [])
        (httpx_details_file \<lparr>domain = Some (u ''a.com''), list_file = None, output_dir = u ''out'',
                               proxy = None, dry_run = False\<rparr> (u ''a.com''))
        (world (start [(u ''out/a.com_httpx_details.txt'',
                        u ''https://a.com 200 1234 Title Here'' @ [NL, NL]
                          @ u ''https://b.com 403 0 Forbidden'' @ [NL])]))
       = Inr (u ''https://a.com 200 1234 Title Here'' @ [NL, NL]
                @ u ''https://b.com 403 0 Forbidden'' @ [NL])
   \<and> fst (os_write (scripted_os all_ok [])
        (urls_for_burp_file \<lparr>domain = Some (u ''a.com''), list_file = None, output_dir = u ''out'',
                               proxy = None, dry_run = False\<rparr> (u ''a.com''))
        (u ''https://a.com'' @ [NL] @ u ''https://b.com'')
        (world (start [(u ''out/a.com_httpx_details.txt'',
                        u ''https://a.com 200 1234 Title Here'' @ [NL, NL]
                          @ u ''https://b.com 403 0 Forbidden'' @ [NL])]))) = None
   \<and> fst (collect_clean_urls (scripted_os all_ok [])
        \<lparr>domain = Some (u ''a.com''), list_file = None, output_dir = u ''out'',
          proxy = None, dry_run = False\<rparr> (u ''a.com'') (Some (u ''a.com:443'' @ [NL]))
        (start [(u ''out/a.com_httpx_details.txt'',
                 u ''https://a.com 200 1234 Title Here'' @ [NL, NL]
                   @ u ''https://b.com 403 0 Forbidden'' @ [NL])]))
       = Inr (Some (u ''https://a.com'' @ [NL] @ u ''https://b.com''))
   \<and> calls (snd (collect_clean_urls (scripted_os all_ok [])
        \<lparr>domain = Some (u ''a.com''), list_file = None, output_dir = u ''out'',
          proxy = None, dry_run = False\<rparr> (u ''a.com'') (Some (u ''a.com:443'' @ [NL]))
        (start [(u ''out/a.com_httpx_details.txt'',
                 u ''https://a.com 200 1234 Title Here'' @ [NL, NL]
                   @ u ''https://b.com 403 0 Forbidden'' @ [NL])])))
       = [WriteText (u ''out/a.com_urls_for_burp.txt'')
            (u ''https://a.com'' @ [NL] @ u ''https://b.com'')]"
proof -
  let ?a = "\<lparr>domain = Some (u ''a.com''), list_file = None, output_dir = u ''out'',
              proxy = None, dry_run = False\<rparr>"
  let ?os = "scripted_os all_ok []"
  let ?content = "u ''https://a.com 200 1234 Title Here'' @ [NL, NL]
                    @ u ''https://b.com 403 0 Forbidden'' @ [NL]"
  let ?s = "start [(u ''out/a.com_httpx_details.txt'', ?content)]"
  let ?urls = "join [NL] (extract_urls [] (readlines ?content))"
  have d: "\<not> dry_run ?a" by simp
  have r: "os_read ?os (httpx_details_file ?a (u ''a.com'')) (world ?s) = Inr ?content"
    by (simp add: scripted_os_def start_def httpx_details_file_def path_join_def u_def)
  have w: "fst (os_write ?os (urls_for_burp_file ?a (u ''a.com'')) ?urls (world ?s)) = None"
    by (simp add: scripted_os_def)
  have e: "?urls = u ''https://a.com'' @ [NL] @ u ''https://b.com''"
    by (simp add: readlines_def split_def strip_def isspace_def NL_def CR_def u_def)
  have f: "urls_for_burp_file ?a (u ''a.com'') = u ''out/a.com_urls_for_burp.txt''"
    by (simp add: urls_for_burp_file_def path_join_def u_def)
  note t = extract_urls_first_tokens
             [of ?a ?os "u ''a.com''" ?s ?content "Some (u ''a.com:443'' @ [NL])"]
  from t d r w have c:
    "fst (collect_clean_urls ?os ?a (u ''a.com'') (Some (u ''a.com:443'' @ [NL])) ?s)
       = Inr (Some ?urls)
     \<and> calls (snd (collect_clean_urls ?os ?a (u ''a.com'') (Some (u ''a.com:443'' @ [NL])) ?s))
       = calls ?s @ [WriteText (urls_for_burp_file ?a (u ''a.com'')) ?urls]"
    by blast
  have w': "fst (os_write ?os (urls_for_burp_file ?a (u ''a.com''))
                  (u ''https://a.com'' @ [NL] @ u ''https://b.com'') (world ?s)) = None"
    by (simp add: scripted_os_def)
  from c show ?thesis using d r w' unfolding e f by (simp add: start_def)
qed

section \<open>What the printing functions leave alone\<close>

lemma print_simps [simp]:
  "console (print m s) = console s @ [m]"
  "calls (print m s) = calls s"
  "world (print m s) = world s"
  by (simp_all add: print_def)

lemma print_kinds_frame [simp]:
  "calls (print_info m s) = calls s" "world (print_info m s) = world s"
  "calls (print_warn m s) = calls s" "world (print_warn m s) = world s"
  "calls (print_err m s) = calls s" "world (print_err m s) = world s"
  "calls (print_success m s) = calls s" "world (print_success m s) = world s"
  "calls (print_step n k t d s) = calls s" "world (print_step n k t d s) = world s"
  by (simp_all add: print_info_def print_warn_def print_err_def print_success_def print_step_def)


section \<open>The Process Runner on a failing tool\<close>

text \<open>
  C9. When the subprocess exits with a non-zero status, \<open>run_command\<close> called with an
  output file path makes no call after starting the subprocess, so it writes no file: the
  world it leaves is the one the subprocess left, and the output file reads there as it
  did when the subprocess ended (absent or unchanged).
\<close>

theorem run_command_failure_writes_nothing:
  assumes "os_spawn os command input_data environment (world s) = (Inr (rc, out, err), w)"
      and "rc \<noteq> 0"
  shows "calls (snd (run_command os command input_data (Some output_file) environment False s))
           = calls s @ [Spawn command input_data environment]
         \<and> world (snd (run_command os command input_data (Some output_file) environment False s)) = w
         \<and> os_read os output_file
              (world (snd (run_command os command input_data (Some output_file) environment False s)))
             = os_read os output_file w"
  using assms by (cases command) (simp_all add: run_command_def subprocess_run_def Let_def)

theorem run_command_failure_writes_nothing_witness:
  "os_spawn (scripted_os dnsx_fails []) [u ''dnsx''] (Some (u ''a.io'')) None (world (start []))
     = (Inr (2, u ''partial'', u ''boom''), [])
   \<and> (2::int) \<noteq> 0
   \<and> calls (snd (run_command (scripted_os dnsx_fails []) [u ''dnsx''] (Some (u ''a.io''))
                   (Some (u ''out/a.io_dnsx.txt'')) None False (start [])))
       = [Spawn [u ''dnsx''] (Some (u ''a.io'')) None]
   \<and> os_read (scripted_os dnsx_fails []) (u ''out/a.io_dnsx.txt'')
        (world (snd (run_command (scripted_os dnsx_fails []) [u ''dnsx''] (Some (u ''a.io''))
                       (Some (u ''out/a.io_dnsx.txt'')) None False (start []))))
       = Inl (FileNotFoundError (u ''out/a.io_dnsx.txt''))"
proof -
  have h: "os_spawn (scripted_os dnsx_fails []) [u ''dnsx''] (Some (u ''a.io'')) None
             (world (start [])) = (Inr (2, u ''partial'', u ''boom''), [])"
    by (simp add: scripted_os_def scripted_spawn_def dnsx_fails_def start_def u_def)
  have n: "(2::int) \<noteq> 0" by simp
  have r: "os_read (scripted_os dnsx_fails []) (u ''out/a.io_dnsx.txt'') []
             = Inl (FileNotFoundError (u ''out/a.io_dnsx.txt''))"
    by (simp add: scripted_os_def)
  show ?thesis
    using h n r run_command_failure_writes_nothing [OF h n, of "u ''out/a.io_dnsx.txt''"]
    by (simp add: start_def)
qed


section \<open>Frame lemmas: dry runs, the tool check, the loader\<close>

lemma final_summary_frame [simp]:
  "calls (final_summary os a t s) = calls s" "world (final_summary os a t s) = world s"
  by (simp_all add: final_summary_def Let_def)

lemma run_command_dry:
  "run_command os c i ofile e True s = (r, s') \<Longrightarrow>
     r = Inr (CompletedProcess c 0 (u ''Simulated output'' @ [NL]) [])
     \<and> calls s' = calls s \<and> world s' = world s"
  by (auto simp: run_command_def Let_def)

lemma seed_burp_dry:
  "dry_run a \<Longrightarrow> seed_burp os a p e t s = (None, s)"
  by (simp add: seed_burp_def)

lemma katana_stage_dry:
  assumes "dry_run a" and "katana_stage os a p e t cur s = (r, s')"
  shows "calls s' = calls s \<and> world s' = world s"
  using assms
  by (auto simp: katana_stage_def Let_def seed_burp_dry split: prod.splits sum.splits
        dest!: run_command_dry)

lemma collect_clean_urls_dry:
  "dry_run a \<Longrightarrow> collect_clean_urls os a t cur s = (Inr cur, s)"
  by (simp add: collect_clean_urls_def)

lemma httpx_stage_dry:
  assumes "dry_run a" and "httpx_stage os a p e t cur s = (r, s')"
  shows "calls s' = calls s \<and> world s' = world s"
  using assms
  by (auto simp: httpx_stage_def Let_def collect_clean_urls_dry split: prod.splits sum.splits
        dest!: run_command_dry katana_stage_dry)

lemma naabu_stage_dry:
  assumes "dry_run a" and "naabu_stage os a p e t cur s = (r, s')"
  shows "calls s' = calls s \<and> world s' = world s"
  using assms
  by (auto simp: naabu_stage_def Let_def split: prod.splits sum.splits
        dest!: run_command_dry httpx_stage_dry)

lemma dnsx_stage_dry:
  assumes "dry_run a" and "dnsx_stage os a p e t cur s = (r, s')"
  shows "calls s' = calls s \<and> world s' = world s"
  using assms
  by (auto simp: dnsx_stage_def Let_def split: prod.splits sum.splits
        dest!: run_command_dry naabu_stage_dry)

lemma save_subfinder_output_dry:
  "dry_run a \<Longrightarrow> save_subfinder_output os a t cur s = (None, s)"
  by (simp add: save_subfinder_output_def)

lemma subfinder_stage_dry:
  assumes "dry_run a" and "subfinder_stage os a p e t s = (r, s')"
  shows "calls s' = calls s \<and> world s' = world s"
  using assms
  by (auto simp: subfinder_stage_def Let_def save_subfinder_output_dry
        split: prod.splits sum.splits dest!: run_command_dry dnsx_stage_dry)

lemma process_target_dry:
  assumes "dry_run a" and "process_target os a p e t cur s = (r, s')"
  shows "calls s' = calls s \<and> world s' = world s"
  using subfinder_stage_dry[OF assms(1)] assms(2) by (fastforce simp: process_target_def Let_def)

lemma for_targets_dry:
  assumes "dry_run a" and "for_targets os a p e ts cur s = (r, s')"
  shows "calls s' = calls s \<and> world s' = world s"
  using assms
proof (induction ts arbitrary: cur s)
  case Nil then show ?case by simp
next
  case (Cons t ts)
  show ?case
  proof (cases "process_target os a p e t cur s")
    case (Pair r1 s1)
    then have f: "calls s1 = calls s \<and> world s1 = world s"
      using process_target_dry[OF Cons.prems(1)] by blast
    show ?thesis
    proof (cases r1)
      case (Inl x) then show ?thesis using Cons.prems(2) Pair f by simp
    next
      case (Inr c1)
      then have "for_targets os a p e ts c1 s1 = (r, s')" using Cons.prems(2) Pair by simp
      then show ?thesis using Cons.IH[OF Cons.prems(1)] f by metis
    qed
  qed
qed

lemma check_tools_loop_calls:
  "check_tools_loop os tools missing s = (r, s') \<Longrightarrow>
     \<exists>new. calls s' = calls s @ new \<and> (\<forall>c \<in> set new. \<exists>tool \<in> set tools. c = which_probe tool)"
proof (induction tools arbitrary: missing s)
  case Nil then show ?case by simp
next
  case (Cons tool tools)
  obtain r1 s1 where sp: "subprocess_run os [u ''which'', tool] None None s = (r1, s1)"
    by (cases "subprocess_run os [u ''which'', tool] None None s")
  then have c1: "calls s1 = calls s @ [which_probe tool]"
    by (auto simp: subprocess_run_def which_probe_def Let_def split: prod.splits sum.splits if_splits)
  show ?case
  proof (cases r1)
    case (Inr res)
    then have "check_tools_loop os tools missing
        (print (u ''    '' @ GREEN @ [CHECK_MARK] @ ENDC @ u '' '' @ ljust 10 tool @ u '' ''
                      @ GREEN @ u ''INSTALLED'' @ ENDC) s1) = (r, s')"
      using Cons.prems sp by simp
    from Cons.IH[OF this] obtain new where
      "calls s' = calls s1 @ new" "\<forall>c \<in> set new. \<exists>tool \<in> set tools. c = which_probe tool"
      by auto
    then show ?thesis using c1 by (intro exI[of _ "which_probe tool # new"]) auto
  next
    case (Inl x)
    show ?thesis
    proof (cases x)
      case (CalledProcessError rc err)
      then have "check_tools_loop os tools (missing @ [tool])
        (print (u ''    '' @ RED @ [BALLOT_X] @ ENDC @ u '' '' @ ljust 10 tool @ u '' ''
                      @ RED @ u ''MISSING'' @ ENDC) s1) = (r, s')"
        using Cons.prems sp Inl by simp
      from Cons.IH[OF this] obtain new where
        "calls s' = calls s1 @ new" "\<forall>c \<in> set new. \<exists>tool \<in> set tools. c = which_probe tool"
        by auto
      then show ?thesis using c1 by (intro exI[of _ "which_probe tool # new"]) auto
    next
      case (Exn ex)
      show ?thesis
      proof (cases ex)
        case (FileNotFoundError m)
        then have "check_tools_loop os tools (missing @ [tool])
          (print (u ''    '' @ RED @ [BALLOT_X] @ ENDC @ u '' '' @ ljust 10 tool @ u '' ''
                      @ RED @ u ''ERROR (cmd not found)'' @ ENDC) s1) = (r, s')"
          using Cons.prems sp Inl Exn by simp
        from Cons.IH[OF this] obtain new where
          "calls s' = calls s1 @ new" "\<forall>c \<in> set new. \<exists>tool \<in> set tools. c = which_probe tool"
          by auto
        then show ?thesis using c1 by (intro exI[of _ "which_probe tool # new"]) auto
      next
        case (OtherError m)
        then have "s' = s1" using Cons.prems sp Inl Exn by simp
        then show ?thesis using c1 by (intro exI[of _ "[which_probe tool]"]) auto
      qed
    qed
  qed
qed

lemma check_tools_installed_calls:
  "check_tools_installed os tools s = (r, s') \<Longrightarrow>
     \<exists>new. calls s' = calls s @ new \<and> (\<forall>c \<in> set new. \<exists>tool \<in> set tools. c = which_probe tool)"
  by (auto simp: check_tools_installed_def Let_def split: prod.splits sum.splits if_splits
        dest!: check_tools_loop_calls)

lemma load_target_list_frame:
  "load_target_list os a s = (r, s') \<Longrightarrow> calls s' = calls s \<and> world s' = world s"
  by (auto simp: load_target_list_def split: if_splits option.splits sum.splits exn.splits)


lemma makedirs_calls:
  "makedirs os p s = (r, s') \<Longrightarrow> calls s' = calls s @ [MakeDirs p]"
  by (auto simp: makedirs_def split: prod.splits)


section \<open>Dry runs\<close>

text \<open>
  C1, as stated, fails: with the dry-run flag set the program still starts the five
  \<open>which\<close> subprocesses of the Tool Availability Checker and still calls
  \<open>os.makedirs\<close> on the output directory.
\<close>

theorem dry_run_counterexample:
  "dry_run \<lparr>domain = Some (u ''a.io''), list_file = None, output_dir = u ''out'', proxy = None,
             dry_run = True\<rparr>
   \<and> calls (snd (main (scripted_os all_ok [])
        \<lparr>domain = Some (u ''a.io''), list_file = None, output_dir = u ''out'', proxy = None,
          dry_run = True\<rparr> (start [])))
     = [which_probe (u ''subfinder''), which_probe (u ''dnsx''), which_probe (u ''naabu''),
        which_probe (u ''httpx''), which_probe (u ''katana''), MakeDirs (u ''out'')]"
  by (simp add: main_def check_tools_installed_def TOOL_CHAIN_def subprocess_run_def
        scripted_os_def scripted_spawn_def all_ok_def start_def Let_def load_target_list_def
        truthy_opt_def truthy_def str_opt_def makedirs_def process_target_def subfinder_stage_def
        save_subfinder_output_def dnsx_stage_def
        naabu_stage_def httpx_stage_def katana_stage_def collect_clean_urls_def seed_burp_def
        run_command_def which_probe_def u_def)

text \<open>
  C1, amended. For every configuration of proxy, target source and output directory, a run
  with the dry-run flag set writes no file and starts no subprocess other than the
  \<open>which\<close> probes of the Tool Availability Checker: no stage tool and no seeding
  command is ever started.
\<close>

theorem dry_run_no_write_no_tool:
  assumes "dry_run a" and "main os a s = (r, s')"
  shows "\<exists>new. calls s' = calls s @ new
           \<and> (\<forall>c \<in> set new. \<not> is_write c
                  \<and> (is_spawn c \<longrightarrow> (\<exists>tool \<in> set TOOL_CHAIN. c = which_probe tool)))"
proof -
  obtain r1 s1 where c: "check_tools_installed os TOOL_CHAIN s = (r1, s1)"
    by (cases "check_tools_installed os TOOL_CHAIN s")
  from check_tools_installed_calls[OF c] obtain new1 where
    n1: "calls s1 = calls s @ new1" "\<forall>c \<in> set new1. \<exists>tool \<in> set TOOL_CHAIN. c = which_probe tool"
    by auto
  have ok1: "\<forall>c \<in> set new1. \<not> is_write c
                  \<and> (is_spawn c \<longrightarrow> (\<exists>tool \<in> set TOOL_CHAIN. c = which_probe tool))"
    using n1(2) by (auto simp: which_probe_def)
  show ?thesis
  proof (cases r1)
    case (Some e)
    then have "s' = s1" using assms(2) c by (simp add: main_def)
    then show ?thesis using n1(1) ok1 by blast
  next
    case None
    obtain r2 s2 where l: "load_target_list os a s1 = (r2, s2)"
      by (cases "load_target_list os a s1")
    have f2: "calls s2 = calls s1" using load_target_list_frame[OF l] by simp
    show ?thesis
    proof (cases r2)
      case (Inl e)
      then have "s' = s2" using assms(2) c None l by (simp add: main_def)
      then show ?thesis using n1(1) ok1 f2 by auto
    next
      case (Inr targets)
      show ?thesis
      proof (cases "targets = []")
        case True
        then have "calls s' = calls s2" using assms(2) c None l Inr by (auto simp: main_def)
        then show ?thesis using n1(1) ok1 f2 by auto
      next
        case False
        obtain r3 s3 where m: "makedirs os (output_dir a) s2 = (r3, s3)"
          by (cases "makedirs os (output_dir a) s2")
        have f3: "calls s3 = calls s @ (new1 @ [MakeDirs (output_dir a)])"
          using makedirs_calls[OF m] f2 n1(1) by simp
        have ok3: "\<forall>c \<in> set (new1 @ [MakeDirs (output_dir a)]). \<not> is_write c
                  \<and> (is_spawn c \<longrightarrow> (\<exists>tool \<in> set TOOL_CHAIN. c = which_probe tool))"
          using ok1 by auto
        show ?thesis
        proof (cases r3)
          case (Some e)
          then have "s' = s3" using assms(2) c None l Inr False m by (simp add: main_def)
          then show ?thesis using f3 ok3 by blast
        next
          case None3: None
          have "calls s' = calls s3"
            using assms c None l Inr False m None3
            by (auto simp: main_def Let_def split: prod.splits sum.splits if_splits
                  dest!: for_targets_dry)
          then show ?thesis using f3 ok3 by metis
        qed
      qed
    qed
  qed
qed


theorem dry_run_no_write_no_tool_witness:
  "dry_run \<lparr>domain = Some (u ''a.io''), list_file = None, output_dir = u ''out'', proxy = None,
             dry_run = True\<rparr>
   \<and> (\<exists>new. calls (snd (main (scripted_os all_ok [])
              \<lparr>domain = Some (u ''a.io''), list_file = None, output_dir = u ''out'', proxy = None,
                dry_run = True\<rparr> (start [])))
            = calls (start []) @ new
          \<and> list_all (\<lambda>c. \<not> is_write c) new)"
proof -
  let ?a = "\<lparr>domain = Some (u ''a.io''), list_file = None, output_dir = u ''out'', proxy = None,
             dry_run = True\<rparr>"
  let ?m = "main (scripted_os all_ok []) ?a (start [])"
  have d: "dry_run ?a" by simp
  have m: "?m = (fst ?m, snd ?m)" by simp
  from dry_run_no_write_no_tool [OF d m] show ?thesis
    using d by (auto simp: list_all_iff)
qed


section \<open>What is printed for one target\<close>

lemma decorated_colours [simp]:
  "decorated (HEADER @ x)" "decorated (BLUE @ x)" "decorated (CYAN @ x)" "decorated (GREEN @ x)"
  "decorated (YELLOW @ x)" "decorated (RED @ x)" "decorated (BOLD @ x)" "decorated (NL # x)"
  by (simp_all add: decorated_def HEADER_def BLUE_def CYAN_def GREEN_def YELLOW_def RED_def BOLD_def)

lemma not_decorated_indent [simp]: "\<not> decorated (u ''    '' @ x)"
  by (simp add: decorated_def u_def ESC_def NL_def)

lemma print_kinds_console [simp]:
  "console (print_info m s) = console s @ [BLUE @ u ''[*] '' @ m @ ENDC]"
  "console (print_warn m s) = console s @ [YELLOW @ u ''[!] '' @ m @ ENDC]"
  "console (print_err m s) = console s @ [RED @ u ''['' @ [BALLOT_X] @ u ''] '' @ m @ ENDC]"
  "console (print_success m s) = console s @ [GREEN @ u ''['' @ [CHECK_MARK] @ u ''] '' @ m @ ENDC]"
  by (simp_all add: print_info_def print_warn_def print_err_def print_success_def)

lemma print_step_console:
  "\<exists>l. console (print_step n k t d s) = console s @ l \<and> list_all decorated l"
  by (simp add: print_step_def)

lemma subprocess_run_console:
  "subprocess_run os c i e s = (r, s') \<Longrightarrow> console s' = console s"
  by (auto simp: subprocess_run_def Let_def split: prod.splits sum.splits if_splits)

lemma write_file_console:
  "write_file os p t s = (r, s') \<Longrightarrow> console s' = console s"
  by (auto simp: write_file_def split: prod.splits)

lemma run_command_console_set:
  "run_command os c i ofile e d s = (r, s') \<Longrightarrow>
     \<exists>l. console s' = console s @ l \<and> (\<forall>x \<in> set l. decorated x)"
  by (auto simp: run_command_def Let_def
        split: prod.splits sum.splits if_splits option.splits raised.splits list.splits
        dest!: subprocess_run_console write_file_console)


lemma run_command_console:
  "run_command os c i ofile e d s = (r, s') \<Longrightarrow>
     \<exists>l. console s' = console s @ l \<and> list_all decorated l"
  unfolding list_all_iff by (rule run_command_console_set)

lemma final_summary_console:
  "\<exists>l. console (final_summary os a t s) = console s @ l
       \<and> results_line os a (world s) \<in> set l \<and> notice_line a t \<in> set l"
  by (simp add: final_summary_def Let_def results_line_def notice_line_def proxy_notice_def
        manual_notice_def)

lemma seed_burp_console:
  "seed_burp os a p e t s = (r, s') \<Longrightarrow> \<exists>l. console s' = console s @ l"
  by (auto simp: seed_burp_def Let_def print_step_def split: prod.splits sum.splits if_splits
        dest!: run_command_console)

lemma katana_stage_console:
  assumes "katana_stage os a p e t cur s = (r, s')"
  shows "\<exists>l. console s' = console s @ l
           \<and> (\<forall>c. r = Inr c \<longrightarrow> c = cur \<and> results_line os a (world s') \<in> set l
                                    \<and> notice_line a t \<in> set l)"
proof -
  let ?s1 = "print_step 5 6 (u ''Katana'') (u ''Crawling for endpoints'') s"
  obtain l1 where l1: "console ?s1 = console s @ l1" using print_step_console by blast
  obtain r2 s2 where rc: "run_command os (katana_cmd a p) cur (Some (katana_output_file a t))
      (Some e) (dry_run a) ?s1 = (r2, s2)" by (cases "run_command os (katana_cmd a p) cur
      (Some (katana_output_file a t)) (Some e) (dry_run a) ?s1")
  from run_command_console[OF rc] obtain l2 where l2: "console s2 = console ?s1 @ l2" by blast
  show ?thesis
  proof (cases r2)
    case (Inl x)
    then have "r = Inl x" "s' = s2" using assms rc by (simp_all add: katana_stage_def Let_def)
    then show ?thesis using l1 l2 by simp
  next
    case (Inr res)
    let ?s3 = "if \<not> dry_run a
               then print (GREEN @ u ''    '' @ [CHECK_MARK] @ u '' Crawled paths saved.'' @ ENDC) s2
               else s2"
    obtain l3 where l3: "console ?s3 = console s2 @ l3" by (cases "dry_run a") simp_all
    obtain r4 s4 where sb: "seed_burp os a p e t ?s3 = (r4, s4)"
      by (cases "seed_burp os a p e t ?s3")
    from seed_burp_console[OF sb] obtain l4 where l4: "console s4 = console ?s3 @ l4" by blast
    show ?thesis
    proof (cases r4)
      case (Some x)
      then have "r = Inl x" "s' = s4"
        using assms rc Inr sb by (simp_all add: katana_stage_def Let_def)
      then show ?thesis using l1 l2 l3 l4 by simp
    next
      case None
      then have r: "r = Inr cur" and s': "s' = final_summary os a t s4"
        using assms rc Inr sb by (simp_all add: katana_stage_def Let_def)
      obtain l5 where l5: "console (final_summary os a t s4) = console s4 @ l5"
        "results_line os a (world s4) \<in> set l5" "notice_line a t \<in> set l5"
        using final_summary_console by blast
      have "console s' = console s @ (l1 @ l2 @ l3 @ l4 @ l5)"
        using s' l1 l2 l3 l4 l5(1) by simp
      moreover have "results_line os a (world s') \<in> set (l1 @ l2 @ l3 @ l4 @ l5)"
        using l5(2) s' by simp
      moreover have "notice_line a t \<in> set (l1 @ l2 @ l3 @ l4 @ l5)" using l5(3) by simp
      ultimately show ?thesis using r by blast
    qed
  qed
qed

lemma collect_clean_urls_console_set:
  "collect_clean_urls os a t cur s = (r, s') \<Longrightarrow>
     \<exists>l. console s' = console s @ l \<and> (\<forall>x \<in> set l. decorated x)"
  by (auto simp: collect_clean_urls_def Let_def
        split: prod.splits sum.splits if_splits option.splits exn.splits
        dest!: write_file_console)

lemma collect_clean_urls_console:
  "collect_clean_urls os a t cur s = (r, s') \<Longrightarrow>
     \<exists>l. console s' = console s @ l \<and> list_all decorated l"
  unfolding list_all_iff by (rule collect_clean_urls_console_set)

lemma target_lines_early:
  "\<not> truthy_opt c \<Longrightarrow> \<not> dry_run a \<Longrightarrow> list_all decorated l \<Longrightarrow> target_lines os a t w c l"
  by (simp add: target_lines_def)

lemma target_lines_append:
  "truthy_opt c \<or> dry_run a \<Longrightarrow> target_lines os a t w c l \<Longrightarrow> target_lines os a t w c (k @ l)"
  by (auto simp: target_lines_def)

lemma katana_stage_lines:
  assumes "katana_stage os a p e t cur s = (r, s')" and "truthy_opt cur \<or> dry_run a"
  shows "\<exists>l. console s' = console s @ l \<and> (\<forall>c. r = Inr c \<longrightarrow> target_lines os a t (world s') c l)"
  using katana_stage_console[OF assms(1)] assms(2) by (auto simp: target_lines_def)

lemma httpx_stage_lines:
  assumes "httpx_stage os a p e t cur s = (r, s')"
  shows "\<exists>l. console s' = console s @ l \<and> (\<forall>c. r = Inr c \<longrightarrow> target_lines os a t (world s') c l)"
proof -
  let ?s1 = "print_step 4 6 (u ''HTTPX'') (u ''Probing for live HTTP services'') s"
  obtain l1 where l1: "console ?s1 = console s @ l1" "list_all decorated l1"
    using print_step_console by blast
  obtain r2 s2 where rc: "run_command os (httpx_cmd a p t) cur None (Some e) (dry_run a) ?s1
      = (r2, s2)"
    by (cases "run_command os (httpx_cmd a p t) cur None (Some e) (dry_run a) ?s1")
  from run_command_console[OF rc] obtain l2 where
    l2: "console s2 = console ?s1 @ l2" "list_all decorated l2" by blast
  show ?thesis
  proof (cases r2)
    case (Inl x)
    then have "r = Inl x" "s' = s2" using assms rc by (simp_all add: httpx_stage_def Let_def)
    then show ?thesis using l1(1) l2(1) by simp
  next
    case (Inr res)
    obtain r3 s3 where cc: "collect_clean_urls os a t cur s2 = (r3, s3)"
      by (cases "collect_clean_urls os a t cur s2")
    from collect_clean_urls_console[OF cc] obtain l3 where
      l3: "console s3 = console s2 @ l3" "list_all decorated l3" by blast
    show ?thesis
    proof (cases r3)
      case (Inl x)
      then have "r = Inl x" "s' = s3"
        using assms rc Inr cc by (simp_all add: httpx_stage_def Let_def)
      then show ?thesis using l1(1) l2(1) l3(1) by simp
    next
      case c': (Inr c')
      show ?thesis
      proof (cases "\<not> truthy_opt c' \<and> \<not> dry_run a")
        case True
        then have r: "r = Inr c'" and s': "s' = print_warn
            (u ''httpx found no live HTTP(S) services. Stopping chain for this target.'') s3"
          using assms rc Inr cc c' by (simp_all add: httpx_stage_def Let_def)
        let ?l = "l1 @ l2 @ l3 @ [YELLOW @ u ''[!] '' @
            u ''httpx found no live HTTP(S) services. Stopping chain for this target.'' @ ENDC]"
        have con: "console s' = console s @ ?l" using s' l1(1) l2(1) l3(1) by simp
        have dec: "list_all decorated ?l" using l1(2) l2(2) l3(2) by simp
        have "target_lines os a t (world s') c' ?l"
          using True dec by (simp add: target_lines_early)
        then have "\<forall>c. r = Inr c \<longrightarrow> target_lines os a t (world s') c ?l" using r by simp
        then show ?thesis using con by (intro exI[of _ ?l] conjI)
      next
        case False
        then have k: "katana_stage os a p e t c' s3 = (r, s')"
          using assms rc Inr cc c' by (auto simp: httpx_stage_def Let_def split: if_splits)
        have pre: "truthy_opt c' \<or> dry_run a" using False by blast
        from katana_stage_console[OF k] obtain l4 where
          l4: "console s' = console s3 @ l4"
              "\<forall>c. r = Inr c \<longrightarrow> c = c' \<and> results_line os a (world s') \<in> set l4
                     \<and> notice_line a t \<in> set l4" by blast
        have con: "console s' = console s @ (l1 @ l2 @ l3 @ l4)"
          using l1(1) l2(1) l3(1) l4(1) by simp
        have "\<forall>c. r = Inr c \<longrightarrow> target_lines os a t (world s') c (l1 @ l2 @ l3 @ l4)"
          using l4(2) pre by (auto simp: target_lines_def)
        then show ?thesis using con by (intro exI[of _ "l1 @ l2 @ l3 @ l4"] conjI)
      qed
    qed
  qed
qed

lemma naabu_stage_lines:
  assumes "naabu_stage os a p e t cur s = (r, s')"
  shows "\<exists>l. console s' = console s @ l \<and> (\<forall>c. r = Inr c \<longrightarrow> target_lines os a t (world s') c l)"
proof -
  let ?s1 = "print_step 3 6 (u ''Naabu'') (u ''Port scanning (Top web ports)'') s"
  obtain l1 where l1: "console ?s1 = console s @ l1" "list_all decorated l1"
    using print_step_console by blast
  obtain r2 s2 where rc: "run_command os naabu_cmd cur (Some (naabu_output_file a t)) None
      (dry_run a) ?s1 = (r2, s2)"
    by (cases "run_command os naabu_cmd cur (Some (naabu_output_file a t)) None (dry_run a) ?s1")
  from run_command_console[OF rc] obtain l2 where
    l2: "console s2 = console ?s1 @ l2" "list_all decorated l2" by blast
  show ?thesis
  proof (cases r2)
    case (Inl x)
    then have "r = Inl x" "s' = s2" using assms rc by (simp_all add: naabu_stage_def Let_def)
    then show ?thesis using l1(1) l2(1) by simp
  next
    case (Inr res)
    let ?c = "Some (stdout res)"
    show ?thesis
    proof (cases "\<not> truthy_opt ?c \<and> \<not> dry_run a")
      case True
      then have r: "r = Inr ?c" and s': "s' = print_warn
          (u ''Naabu found no open web ports. Stopping chain for this target.'') s2"
        using assms rc Inr by (simp_all add: naabu_stage_def Let_def)
      let ?l = "l1 @ l2 @ [YELLOW @ u ''[!] '' @
          u ''Naabu found no open web ports. Stopping chain for this target.'' @ ENDC]"
      have con: "console s' = console s @ ?l" using s' l1(1) l2(1) by simp
      have dec: "list_all decorated ?l" using l1(2) l2(2) by simp
      have "target_lines os a t (world s') ?c ?l"
        using True dec by (simp add: target_lines_early)
      then have "\<forall>c. r = Inr c \<longrightarrow> target_lines os a t (world s') c ?l" using r by simp
      then show ?thesis using con by (intro exI[of _ ?l] conjI)
    next
      case False
      then have k: "httpx_stage os a p e t ?c s2 = (r, s')"
        using assms rc Inr by (auto simp: naabu_stage_def Let_def split: if_splits)
      from httpx_stage_lines[OF k] obtain l4 where
        l4: "console s' = console s2 @ l4"
            "\<forall>c. r = Inr c \<longrightarrow> target_lines os a t (world s') c l4" by blast
      have con: "console s' = console s @ (l1 @ l2 @ l4)" using l1(1) l2(1) l4(1) by simp
      have "\<forall>c. r = Inr c \<longrightarrow> target_lines os a t (world s') c (l1 @ l2 @ l4)"
        using l4(2) l1(2) l2(2) by (auto simp: target_lines_def)
      then show ?thesis using con by (intro exI[of _ "l1 @ l2 @ l4"] conjI)
    qed
  qed
qed

lemma dnsx_stage_lines:
  assumes "dnsx_stage os a p e t cur s = (r, s')"
  shows "\<exists>l. console s' = console s @ l \<and> (\<forall>c. r = Inr c \<longrightarrow> target_lines os a t (world s') c l)"
proof -
  let ?s1 = "print_step 2 6 (u ''DNSx'') (u ''Resolving active subdomains'') s"
  obtain l1 where l1: "console ?s1 = console s @ l1" "list_all decorated l1"
    using print_step_console by blast
  obtain r2 s2 where rc: "run_command os dnsx_cmd cur (Some (dnsx_output_file a t)) None
      (dry_run a) ?s1 = (r2, s2)"
    by (cases "run_command os dnsx_cmd cur (Some (dnsx_output_file a t)) None (dry_run a) ?s1")
  from run_command_console[OF rc] obtain l2 where
    l2: "console s2 = console ?s1 @ l2" "list_all decorated l2" by blast
  show ?thesis
  proof (cases r2)
    case (Inl x)
    then have "r = Inl x" "s' = s2" using assms rc by (simp_all add: dnsx_stage_def Let_def)
    then show ?thesis using l1(1) l2(1) by simp
  next
    case (Inr res)
    let ?c = "Some (stdout res)"
    show ?thesis
    proof (cases "\<not> truthy_opt ?c \<and> \<not> dry_run a")
      case True
      then have r: "r = Inr ?c" and s': "s' = print_warn
          (u ''DNSx resolved no hosts. Stopping chain for this target.'') s2"
        using assms rc Inr by (simp_all add: dnsx_stage_def Let_def)
      let ?l = "l1 @ l2 @ [YELLOW @ u ''[!] '' @
          u ''DNSx resolved no hosts. Stopping chain for this target.'' @ ENDC]"
      have con: "console s' = console s @ ?l" using s' l1(1) l2(1) by simp
      have dec: "list_all decorated ?l" using l1(2) l2(2) by simp
      have "target_lines os a t (world s') ?c ?l"
        using True dec by (simp add: target_lines_early)
      then have "\<forall>c. r = Inr c \<longrightarrow> target_lines os a t (world s') c ?l" using r by simp
      then show ?thesis using con by (intro exI[of _ ?l] conjI)
    next
      case False
      then have k: "naabu_stage os a p e t ?c s2 = (r, s')"
        using assms rc Inr by (auto simp: dnsx_stage_def Let_def split: if_splits)
      from naabu_stage_lines[OF k] obtain l4 where
        l4: "console s' = console s2 @ l4"
            "\<forall>c. r = Inr c \<longrightarrow> target_lines os a t (world s') c l4" by blast
      have con: "console s' = console s @ (l1 @ l2 @ l4)" using l1(1) l2(1) l4(1) by simp
      have "\<forall>c. r = Inr c \<longrightarrow> target_lines os a t (world s') c (l1 @ l2 @ l4)"
        using l4(2) l1(2) l2(2) by (auto simp: target_lines_def)
      then show ?thesis using con by (intro exI[of _ "l1 @ l2 @ l4"] conjI)
    qed
  qed
qed

lemma save_subfinder_output_console:
  "save_subfinder_output os a t cur s = (r, s') \<Longrightarrow>
     \<exists>l. console s' = console s @ l \<and> list_all decorated l"
  by (auto simp: save_subfinder_output_def split: if_splits prod.splits option.splits
        dest!: write_file_console)

lemma subfinder_stage_lines:
  assumes "subfinder_stage os a p e t s = (r, s')"
  shows "\<exists>l. console s' = console s @ l \<and> (\<forall>c. r = Inr c \<longrightarrow> target_lines os a t (world s') c l)"
proof -
  let ?s1 = "print_step 1 6 (u ''Subfinder'') (u ''Enumerating subdomains'') s"
  obtain l1 where l1: "console ?s1 = console s @ l1" "list_all decorated l1"
    using print_step_console by blast
  obtain r2 s2 where rc: "run_command os (subfinder_cmd t) None None None (dry_run a) ?s1
      = (r2, s2)"
    by (cases "run_command os (subfinder_cmd t) None None None (dry_run a) ?s1")
  from run_command_console[OF rc] obtain l2 where
    l2: "console s2 = console ?s1 @ l2" "list_all decorated l2" by blast
  show ?thesis
  proof (cases r2)
    case (Inl x)
    then have "r = Inl x" "s' = s2" using assms rc by (simp_all add: subfinder_stage_def Let_def)
    then show ?thesis using l1(1) l2(1) by simp
  next
    case (Inr res)
    let ?c = "Some (stdout res)"
    obtain r3 s3 where sv: "save_subfinder_output os a t ?c s2 = (r3, s3)"
      by (cases "save_subfinder_output os a t ?c s2")
    from save_subfinder_output_console[OF sv] obtain l3 where
      l3: "console s3 = console s2 @ l3" "list_all decorated l3" by blast
    show ?thesis
    proof (cases r3)
      case (Some x)
      then have "r = Inl x" "s' = s3"
        using assms rc Inr sv by (simp_all add: subfinder_stage_def Let_def)
      then show ?thesis using l1(1) l2(1) l3(1) by simp
    next
      case None
      show ?thesis
      proof (cases "\<not> truthy_opt ?c \<and> \<not> dry_run a")
        case True
        then have r: "r = Inr ?c" and s': "s' = print_warn
            (u ''Subfinder returned no results. Stopping chain for this target.'') s3"
          using assms rc Inr sv None by (simp_all add: subfinder_stage_def Let_def)
        let ?l = "l1 @ l2 @ l3 @ [YELLOW @ u ''[!] '' @
            u ''Subfinder returned no results. Stopping chain for this target.'' @ ENDC]"
        have con: "console s' = console s @ ?l" using s' l1(1) l2(1) l3(1) by simp
        have dec: "list_all decorated ?l" using l1(2) l2(2) l3(2) by simp
        have "target_lines os a t (world s') ?c ?l"
          using True dec by (simp add: target_lines_early)
        then have "\<forall>c. r = Inr c \<longrightarrow> target_lines os a t (world s') c ?l" using r by simp
        then show ?thesis using con by (intro exI[of _ ?l] conjI)
      next
        case False
        then have k: "dnsx_stage os a p e t ?c s3 = (r, s')"
          using assms rc Inr sv None by (auto simp: subfinder_stage_def Let_def split: if_splits)
        from dnsx_stage_lines[OF k] obtain l4 where
          l4: "console s' = console s3 @ l4"
              "\<forall>c. r = Inr c \<longrightarrow> target_lines os a t (world s') c l4" by blast
        have con: "console s' = console s @ (l1 @ l2 @ l3 @ l4)"
          using l1(1) l2(1) l3(1) l4(1) by simp
        have "\<forall>c. r = Inr c \<longrightarrow> target_lines os a t (world s') c (l1 @ l2 @ l3 @ l4)"
          using l4(2) l1(2) l2(2) l3(2) by (auto simp: target_lines_def)
        then show ?thesis using con by (intro exI[of _ "l1 @ l2 @ l3 @ l4"] conjI)
      qed
    qed
  qed
qed

lemma process_target_lines:
  assumes "process_target os a p e t c0 s = (r, s')"
  shows "\<exists>l. console s' = console s @ l \<and> banner_line t \<in> set l
           \<and> (\<forall>c. r = Inr c \<longrightarrow> target_lines os a t (world s') c l)"
proof -
  let ?s3 = "print (BOLD @ BLUE @ rule60 @ ENDC)
      (print (BOLD @ BLUE @ u '' STARTING RECON FOR TARGET: '' @ WHITE @ t @ ENDC)
        (print (NL # BOLD @ BLUE @ rule60 @ ENDC) s))"
  let ?l0 = "[NL # BOLD @ BLUE @ rule60 @ ENDC, banner_line t, BOLD @ BLUE @ rule60 @ ENDC]"
  have l0: "console ?s3 = console s @ ?l0" "list_all decorated ?l0"
    by (simp_all add: banner_line_def)
  have k: "subfinder_stage os a p e t ?s3 = (r, s')"
    using assms by (simp add: process_target_def Let_def)
  from subfinder_stage_lines[OF k] obtain l4 where
    l4: "console s' = console ?s3 @ l4"
        "\<forall>c. r = Inr c \<longrightarrow> target_lines os a t (world s') c l4" by blast
  have con: "console s' = console s @ (?l0 @ l4)" using l0(1) l4(1) by simp
  have "\<forall>c. r = Inr c \<longrightarrow> target_lines os a t (world s') c (?l0 @ l4)"
    using l4(2) l0(2) by (auto simp: target_lines_def)
  moreover have "banner_line t \<in> set (?l0 @ l4)" by simp
  ultimately show ?thesis using con by (intro exI[of _ "?l0 @ l4"] conjI)
qed


section \<open>The single-domain option\<close>

text \<open>
  C10 does not hold of the program: with the empty string as the value of the single-domain
  option no target list is formed and no target is processed. The test \<open>if args.domain\<close>
  is false for the empty string, so the list branch is entered with no path, and
  \<open>open(None)\<close> raises a \<open>TypeError\<close> that nothing catches: \<open>main\<close> stops right after the
  tool check, in the state the tool check left.
\<close>

theorem empty_domain_uncaught_error:
  "main (scripted_os all_ok [])
     \<lparr>domain = Some [], list_file = None, output_dir = u ''out'', proxy = None, dry_run = False\<rparr>
     (start [])
   = (Some (Uncaught (OtherError (u ''expected str, bytes or os.PathLike object, not NoneType''))),
      snd (check_tools_installed (scripted_os all_ok []) TOOL_CHAIN (start [])))"
  by (simp add: main_def check_tools_installed_def TOOL_CHAIN_def subprocess_run_def
        scripted_os_def scripted_spawn_def all_ok_def start_def Let_def load_target_list_def
        truthy_opt_def truthy_def u_def)

section \<open>The calls made for one target\<close>

lemma chain_Cons [simp]:
  "chain ((c, env) # table) (i # inputs) = Spawn c i env # chain table inputs"
  by (simp add: chain_def)

lemma chain_Nil [simp]: "chain [] inputs = []" "chain table [] = []"
  by (simp_all add: chain_def)

lemma stage_trace_stop:
  assumes "filter is_spawn new = [Spawn c i env]" and "rest \<noteq> []"
      and "\<forall>cc. r = Inr cc \<longrightarrow> \<not> truthy_opt cc"
  shows "stage_trace a p e t ((c, env) # rest) i r new"
  unfolding stage_trace_def
  using assms by (intro exI[of _ "[]"]) auto

lemma stage_trace_next:
  assumes "filter is_spawn new1 = [Spawn c i env]" and "o1 \<noteq> []"
      and "stage_trace a p e t rest (Some o1) r new2"
  shows "stage_trace a p e t ((c, env) # rest) i r (new1 @ new2)"
proof -
  from assms(3) obtain outs sd where
    h: "filter is_spawn new2 = chain rest (Some o1 # map Some outs) @ sd"
       "Suc (length outs) \<le> length rest" "[] \<notin> set outs"
       "sd = [] \<or> sd = [Spawn (seed_cmd a p t) None (Some e)]
                     \<and> Suc (length outs) = length rest \<and> truthy_opt (proxy a)"
       "\<forall>c. r = Inr c \<longrightarrow> (truthy_opt c \<longleftrightarrow> Suc (length outs) = length rest)"
    unfolding stage_trace_def by blast
  have 1: "filter is_spawn (new1 @ new2) = chain ((c, env) # rest) (i # map Some (o1 # outs)) @ sd"
    using assms(1) h(1) by simp
  have 2: "Suc (length (o1 # outs)) \<le> length ((c, env) # rest)" using h(2) by simp
  have 3: "[] \<notin> set (o1 # outs)" using h(3) assms(2) by simp
  have 4: "sd = [] \<or> sd = [Spawn (seed_cmd a p t) None (Some e)]
                     \<and> Suc (length (o1 # outs)) = length ((c, env) # rest) \<and> truthy_opt (proxy a)"
    using h(4) by auto
  have 5: "\<forall>cc. r = Inr cc \<longrightarrow> (truthy_opt cc \<longleftrightarrow> Suc (length (o1 # outs)) = length ((c, env) # rest))"
    using h(5) by simp
  show ?thesis unfolding stage_trace_def
    using 1 2 3 4 5 by (intro exI[of _ "o1 # outs"] exI[of _ sd] conjI)
qed

lemma subprocess_run_calls:
  "subprocess_run os c i e s = (r, s') \<Longrightarrow> calls s' = calls s @ [Spawn c i e]"
  by (auto simp: subprocess_run_def Let_def split: prod.splits sum.splits if_splits)

lemma write_file_calls:
  "write_file os p t s = (r, s') \<Longrightarrow> calls s' = calls s @ [WriteText p t]"
  by (auto simp: write_file_def split: prod.splits)

lemma run_command_calls:
  "run_command os c i ofile e False s = (r, s') \<Longrightarrow>
     \<exists>new. calls s' = calls s @ new \<and> filter is_spawn new = [Spawn c i e]"
  by (auto simp: run_command_def Let_def
        split: prod.splits sum.splits if_splits option.splits raised.splits list.splits
        dest!: subprocess_run_calls write_file_calls)

lemma run_command_output:
  "run_command os c i ofile e False s = (Inr res, s') \<Longrightarrow> stdout res \<noteq> [] \<Longrightarrow>
     \<exists>err w. os_spawn os c i e (world s) = (Inr (0, stdout res, err), w)"
  by (auto simp: run_command_def subprocess_run_def Let_def
        split: prod.splits sum.splits if_splits option.splits raised.splits list.splits)

lemma seed_burp_calls:
  "seed_burp os a p e t s = (r, s') \<Longrightarrow>
     \<exists>new. calls s' = calls s @ new
       \<and> (filter is_spawn new = [] \<and> (r = None \<longrightarrow> \<not> (truthy_opt (proxy a) \<and> \<not> dry_run a))
          \<or> filter is_spawn new = [Spawn (seed_cmd a p t) None (Some e)] \<and> truthy_opt (proxy a))"
  by (auto simp: seed_burp_def Let_def split: prod.splits sum.splits if_splits
        dest!: run_command_calls)

lemma collect_clean_urls_calls:
  "collect_clean_urls os a t cur s = (r, s') \<Longrightarrow>
     \<exists>new. calls s' = calls s @ new \<and> filter is_spawn new = []"
  by (auto simp: collect_clean_urls_def Let_def
        split: prod.splits sum.splits if_splits option.splits exn.splits
        dest!: write_file_calls)

lemma truthy_opt_Some: "truthy_opt c \<Longrightarrow> \<exists>o1. c = Some o1 \<and> o1 \<noteq> []"
  by (cases c) (simp_all add: truthy_opt_def truthy_def)

lemma katana_stage_trace:
  assumes "katana_stage os a p e t cur s = (r, s')" and "\<not> dry_run a" and "truthy_opt cur"
  shows "\<exists>new. calls s' = calls s @ new
           \<and> stage_trace a p e t [(katana_cmd a p, Some e)] cur r new"
proof -
  let ?s1 = "print_step 5 6 (u ''Katana'') (u ''Crawling for endpoints'') s"
  obtain r2 s2 where rc: "run_command os (katana_cmd a p) cur (Some (katana_output_file a t))
      (Some e) False ?s1 = (r2, s2)" by (cases "run_command os (katana_cmd a p) cur
      (Some (katana_output_file a t)) (Some e) False ?s1")
  from run_command_calls[OF rc] obtain new1 where
    n1: "calls s2 = calls s @ new1" "filter is_spawn new1 = [Spawn (katana_cmd a p) cur (Some e)]"
    by auto
  show ?thesis
  proof (cases r2)
    case (Inl x)
    then have "r = Inl x" "s' = s2"
      using assms rc by (simp_all add: katana_stage_def Let_def)
    moreover have "stage_trace a p e t [(katana_cmd a p, Some e)] cur (Inl x) new1"
      unfolding stage_trace_def using n1(2) by (intro exI[of _ "[]"]) simp
    ultimately show ?thesis using n1(1) by blast
  next
    case (Inr res)
    let ?s3 = "print (GREEN @ u ''    '' @ [CHECK_MARK] @ u '' Crawled paths saved.'' @ ENDC) s2"
    obtain r4 s4 where sb: "seed_burp os a p e t ?s3 = (r4, s4)"
      by (cases "seed_burp os a p e t ?s3")
    from seed_burp_calls[OF sb] obtain new2 where
      n2: "calls s4 = calls s2 @ new2"
          "filter is_spawn new2 = [] \<or>
           filter is_spawn new2 = [Spawn (seed_cmd a p t) None (Some e)] \<and> truthy_opt (proxy a)"
      by auto
    have k: "katana_stage os a p e t cur s =
        (case r4 of Some x \<Rightarrow> (Inl x, s4) | None \<Rightarrow> (Inr cur, final_summary os a t s4))"
      using assms(2) rc Inr sb by (simp add: katana_stage_def Let_def)
    have c: "calls s' = calls s @ (new1 @ new2)"
      using k assms(1) n1(1) n2(1) by (cases r4) auto
    have "\<forall>c. r = Inr c \<longrightarrow> c = cur" using k assms(1) by (cases r4) auto
    then have "stage_trace a p e t [(katana_cmd a p, Some e)] cur r (new1 @ new2)"
      unfolding stage_trace_def using n1(2) n2(2) assms(3)
      by (intro exI[of _ "[]"] exI[of _ "filter is_spawn new2"]) auto
    then show ?thesis using c by blast
  qed
qed

lemma httpx_stage_trace:
  assumes "httpx_stage os a p e t cur s = (r, s')" and "\<not> dry_run a"
  shows "\<exists>new. calls s' = calls s @ new
           \<and> stage_trace a p e t [(httpx_cmd a p t, Some e), (katana_cmd a p, Some e)] cur r new"
proof -
  let ?s1 = "print_step 4 6 (u ''HTTPX'') (u ''Probing for live HTTP services'') s"
  obtain r2 s2 where rc: "run_command os (httpx_cmd a p t) cur None (Some e) False ?s1 = (r2, s2)"
    by (cases "run_command os (httpx_cmd a p t) cur None (Some e) False ?s1")
  from run_command_calls[OF rc] obtain new1 where
    n1: "calls s2 = calls s @ new1" "filter is_spawn new1 = [Spawn (httpx_cmd a p t) cur (Some e)]"
    by auto
  show ?thesis
  proof (cases r2)
    case (Inl x)
    then have "r = Inl x" "s' = s2"
      using assms rc by (simp_all add: httpx_stage_def Let_def)
    then show ?thesis using n1 stage_trace_stop[of new1] by fastforce
  next
    case (Inr res)
    obtain r3 s3 where cc: "collect_clean_urls os a t cur s2 = (r3, s3)"
      by (cases "collect_clean_urls os a t cur s2")
    from collect_clean_urls_calls[OF cc] obtain newc where
      nc: "calls s3 = calls s2 @ newc" "filter is_spawn newc = []" by auto
    have n13: "calls s3 = calls s @ (new1 @ newc)"
             "filter is_spawn (new1 @ newc) = [Spawn (httpx_cmd a p t) cur (Some e)]"
      using n1 nc by simp_all
    show ?thesis
    proof (cases r3)
      case (Inl x)
      then have "r = Inl x" "s' = s3"
        using assms rc Inr cc by (simp_all add: httpx_stage_def Let_def)
      then show ?thesis using n13 stage_trace_stop[of "new1 @ newc"] by fastforce
    next
      case c': (Inr c')
      show ?thesis
      proof (cases "truthy_opt c'")
        case False
        then have "r = Inr c'" "calls s' = calls s3"
          using assms rc Inr cc c' by (auto simp: httpx_stage_def Let_def)
        then show ?thesis using n13 False stage_trace_stop[of "new1 @ newc"] by fastforce
      next
        case True
        then have k: "katana_stage os a p e t c' s3 = (r, s')"
          using assms rc Inr cc c' by (simp add: httpx_stage_def Let_def)
        from truthy_opt_Some[OF True] obtain o1 where o1: "c' = Some o1" "o1 \<noteq> []" by blast
        from katana_stage_trace[OF k assms(2) True] obtain new2 where
          n2: "calls s' = calls s3 @ new2"
              "stage_trace a p e t [(katana_cmd a p, Some e)] (Some o1) r new2"
          using o1 by auto
        have "stage_trace a p e t [(httpx_cmd a p t, Some e), (katana_cmd a p, Some e)] cur r
                ((new1 @ newc) @ new2)"
          using n13(2) o1(2) n2(2) by (rule stage_trace_next)
        moreover have "calls s' = calls s @ ((new1 @ newc) @ new2)" using n13(1) n2(1) by simp
        ultimately show ?thesis by blast
      qed
    qed
  qed
qed

lemma naabu_stage_trace:
  assumes "naabu_stage os a p e t cur s = (r, s')" and "\<not> dry_run a"
  shows "\<exists>new. calls s' = calls s @ new
           \<and> stage_trace a p e t
                [(naabu_cmd, None), (httpx_cmd a p t, Some e), (katana_cmd a p, Some e)] cur r new"
proof -
  let ?s1 = "print_step 3 6 (u ''Naabu'') (u ''Port scanning (Top web ports)'') s"
  obtain r2 s2 where rc: "run_command os naabu_cmd cur (Some (naabu_output_file a t)) None
      False ?s1 = (r2, s2)"
    by (cases "run_command os naabu_cmd cur (Some (naabu_output_file a t)) None False ?s1")
  from run_command_calls[OF rc] obtain new1 where
    n1: "calls s2 = calls s @ new1" "filter is_spawn new1 = [Spawn naabu_cmd cur None]"
    by auto
  show ?thesis
  proof (cases r2)
    case (Inl x)
    then have "r = Inl x" "s' = s2"
      using assms rc by (simp_all add: naabu_stage_def Let_def)
    then show ?thesis using n1 stage_trace_stop[of new1] by fastforce
  next
    case (Inr res)
    let ?c = "Some (stdout res)"
    show ?thesis
    proof (cases "truthy_opt ?c")
      case False
      then have "r = Inr ?c" "calls s' = calls s2"
        using assms rc Inr by (auto simp: naabu_stage_def Let_def)
      then show ?thesis using n1 False stage_trace_stop[of new1] by fastforce
    next
      case True
      then have k: "httpx_stage os a p e t ?c s2 = (r, s')"
        using assms rc Inr by (simp add: naabu_stage_def Let_def)
      have ne: "stdout res \<noteq> []" using True by (simp add: truthy_opt_def truthy_def)
      from httpx_stage_trace[OF k assms(2)] obtain new2 where
        n2: "calls s' = calls s2 @ new2"
            "stage_trace a p e t [(httpx_cmd a p t, Some e), (katana_cmd a p, Some e)] ?c r new2"
        by auto
      have "stage_trace a p e t
              [(naabu_cmd, None), (httpx_cmd a p t, Some e), (katana_cmd a p, Some e)] cur r
              (new1 @ new2)"
        using n1(2) ne n2(2) by (rule stage_trace_next)
      moreover have "calls s' = calls s @ (new1 @ new2)" using n1(1) n2(1) by simp
      ultimately show ?thesis by blast
    qed
  qed
qed

lemma dnsx_stage_trace:
  assumes "dnsx_stage os a p e t cur s = (r, s')" and "\<not> dry_run a"
  shows "\<exists>new. calls s' = calls s @ new
           \<and> stage_trace a p e t
                [(dnsx_cmd, None), (naabu_cmd, None), (httpx_cmd a p t, Some e),
                 (katana_cmd a p, Some e)] cur r new"
proof -
  let ?s1 = "print_step 2 6 (u ''DNSx'') (u ''Resolving active subdomains'') s"
  obtain r2 s2 where rc: "run_command os dnsx_cmd cur (Some (dnsx_output_file a t)) None
      False ?s1 = (r2, s2)"
    by (cases "run_command os dnsx_cmd cur (Some (dnsx_output_file a t)) None False ?s1")
  from run_command_calls[OF rc] obtain new1 where
    n1: "calls s2 = calls s @ new1" "filter is_spawn new1 = [Spawn dnsx_cmd cur None]"
    by auto
  show ?thesis
  proof (cases r2)
    case (Inl x)
    then have "r = Inl x" "s' = s2"
      using assms rc by (simp_all add: dnsx_stage_def Let_def)
    then show ?thesis using n1 stage_trace_stop[of new1] by fastforce
  next
    case (Inr res)
    let ?c = "Some (stdout res)"
    show ?thesis
    proof (cases "truthy_opt ?c")
      case False
      then have "r = Inr ?c" "calls s' = calls s2"
        using assms rc Inr by (auto simp: dnsx_stage_def Let_def)
      then show ?thesis using n1 False stage_trace_stop[of new1] by fastforce
    next
      case True
      then have k: "naabu_stage os a p e t ?c s2 = (r, s')"
        using assms rc Inr by (simp add: dnsx_stage_def Let_def)
      have ne: "stdout res \<noteq> []" using True by (simp add: truthy_opt_def truthy_def)
      from naabu_stage_trace[OF k assms(2)] obtain new2 where
        n2: "calls s' = calls s2 @ new2"
            "stage_trace a p e t
               [(naabu_cmd, None), (httpx_cmd a p t, Some e), (katana_cmd a p, Some e)] ?c r new2"
        by auto
      have "stage_trace a p e t
              [(dnsx_cmd, None), (naabu_cmd, None), (httpx_cmd a p t, Some e),
               (katana_cmd a p, Some e)] cur r (new1 @ new2)"
        using n1(2) ne n2(2) by (rule stage_trace_next)
      moreover have "calls s' = calls s @ (new1 @ new2)" using n1(1) n2(1) by simp
      ultimately show ?thesis by blast
    qed
  qed
qed

lemma save_subfinder_output_calls:
  "save_subfinder_output os a t cur s = (r, s') \<Longrightarrow>
     \<exists>new. calls s' = calls s @ new \<and> filter is_spawn new = []"
  by (auto simp: save_subfinder_output_def split: if_splits prod.splits option.splits
        dest!: write_file_calls)

lemma subfinder_stage_trace:
  assumes "subfinder_stage os a p e t s = (r, s')" and "\<not> dry_run a"
  shows "\<exists>new. calls s' = calls s @ new \<and> stage_trace a p e t (stage_table a p e t) None r new"
proof -
  let ?rest = "[(dnsx_cmd, None), (naabu_cmd, None), (httpx_cmd a p t, Some e),
                (katana_cmd a p, Some e)]"
  have tbl: "stage_table a p e t = (subfinder_cmd t, None) # ?rest" by (simp add: stage_table_def)
  let ?s1 = "print_step 1 6 (u ''Subfinder'') (u ''Enumerating subdomains'') s"
  obtain r2 s2 where rc: "run_command os (subfinder_cmd t) None None None False ?s1 = (r2, s2)"
    by (cases "run_command os (subfinder_cmd t) None None None False ?s1")
  from run_command_calls[OF rc] obtain new1 where
    n1: "calls s2 = calls s @ new1" "filter is_spawn new1 = [Spawn (subfinder_cmd t) None None]"
    by auto
  show ?thesis unfolding tbl
  proof (cases r2)
    case (Inl x)
    then have "r = Inl x" "s' = s2"
      using assms rc by (simp_all add: subfinder_stage_def Let_def)
    then show "\<exists>new. calls s' = calls s @ new
        \<and> stage_trace a p e t ((subfinder_cmd t, None) # ?rest) None r new"
      using n1 stage_trace_stop[of new1] by fastforce
  next
    case (Inr res)
    let ?c = "Some (stdout res)"
    obtain r3 s3 where sv: "save_subfinder_output os a t ?c s2 = (r3, s3)"
      by (cases "save_subfinder_output os a t ?c s2")
    from save_subfinder_output_calls[OF sv] obtain newc where
      nc: "calls s3 = calls s2 @ newc" "filter is_spawn newc = []" by auto
    have n13: "calls s3 = calls s @ (new1 @ newc)"
             "filter is_spawn (new1 @ newc) = [Spawn (subfinder_cmd t) None None]"
      using n1 nc by simp_all
    show "\<exists>new. calls s' = calls s @ new
        \<and> stage_trace a p e t ((subfinder_cmd t, None) # ?rest) None r new"
    proof (cases r3)
      case (Some x)
      then have "r = Inl x" "s' = s3"
        using assms rc Inr sv by (simp_all add: subfinder_stage_def Let_def)
      then show ?thesis using n13 stage_trace_stop[of "new1 @ newc"] by fastforce
    next
      case None
      show ?thesis
      proof (cases "truthy_opt ?c")
        case False
        then have "r = Inr ?c" "calls s' = calls s3"
          using assms rc Inr sv None by (auto simp: subfinder_stage_def Let_def)
        then show ?thesis using n13 False stage_trace_stop[of "new1 @ newc"] by fastforce
      next
        case True
        then have k: "dnsx_stage os a p e t ?c s3 = (r, s')"
          using assms rc Inr sv None by (simp add: subfinder_stage_def Let_def)
        have ne: "stdout res \<noteq> []" using True by (simp add: truthy_opt_def truthy_def)
        from dnsx_stage_trace[OF k assms(2)] obtain new2 where
          n2: "calls s' = calls s3 @ new2" "stage_trace a p e t ?rest ?c r new2"
          by auto
        have "stage_trace a p e t ((subfinder_cmd t, None) # ?rest) None r ((new1 @ newc) @ new2)"
          using n13(2) ne n2(2) by (rule stage_trace_next)
        moreover have "calls s' = calls s @ ((new1 @ newc) @ new2)" using n13(1) n2(1) by simp
        ultimately show ?thesis by blast
      qed
    qed
  qed
qed

lemma process_target_trace:
  assumes "process_target os a p e t c0 s = (r, s')" and "\<not> dry_run a"
  shows "\<exists>new. calls s' = calls s @ new \<and> stage_trace a p e t (stage_table a p e t) None r new"
proof -
  let ?s3 = "print (BOLD @ BLUE @ rule60 @ ENDC)
      (print (BOLD @ BLUE @ u '' STARTING RECON FOR TARGET: '' @ WHITE @ t @ ENDC)
        (print (NL # BOLD @ BLUE @ rule60 @ ENDC) s))"
  have k: "subfinder_stage os a p e t ?s3 = (r, s')"
    using assms by (simp add: process_target_def Let_def)
  from subfinder_stage_trace[OF k assms(2)] show ?thesis by simp
qed


section \<open>Reading the calls and lines of one target\<close>

lemma new_calls_append: "calls s' = calls s @ new \<Longrightarrow> new_calls s s' = new"
  by (simp add: new_calls_def)

lemma new_lines_append: "console s' = console s @ l \<Longrightarrow> new_lines s s' = l"
  by (simp add: new_lines_def)

lemma chain_mem:
  "x \<in> set (chain table inputs) \<Longrightarrow> \<exists>c env i. x = Spawn c i env \<and> (c, env) \<in> set table"
  by (auto simp: chain_def dest: set_zip_leftD)

lemma chain_mem_take:
  "x \<in> set (chain table inputs) \<Longrightarrow>
     \<exists>c env i. x = Spawn c i env \<and> (c, env) \<in> set (take (length inputs) table)"
proof -
  assume "x \<in> set (chain table inputs)"
  then obtain c env i where x: "x = Spawn c i env" and z: "((c, env), i) \<in> set (zip table inputs)"
    by (auto simp: chain_def)
  from z obtain n where n: "table ! n = (c, env)" "n < length table" "n < length inputs"
    by (auto simp: in_set_zip)
  then have "take (length inputs) table ! n = (c, env)" "n < length (take (length inputs) table)"
    by simp_all
  then have "(c, env) \<in> set (take (length inputs) table)" by (metis nth_mem)
  then show ?thesis using x by blast
qed

lemma katana_cmd_distinct:
  "katana_cmd a p \<noteq> subfinder_cmd t" "katana_cmd a p \<noteq> dnsx_cmd" "katana_cmd a p \<noteq> naabu_cmd"
  "katana_cmd a p \<noteq> httpx_cmd a p t" "katana_cmd a p \<noteq> seed_cmd a p t"
  by (simp_all add: katana_cmd_def subfinder_cmd_def dnsx_cmd_def naabu_cmd_def httpx_cmd_def
        seed_cmd_def u_def)

lemma katana_reached_iff:
  assumes "\<not> dry_run a" and "process_target os a p e t c0 s = (Inr cur, s')"
  shows "truthy_opt cur \<longleftrightarrow> (\<exists>i env. Spawn (katana_cmd a p) i env \<in> set (new_calls s s'))"
proof -
  from process_target_trace[OF assms(2,1)] obtain new where
    n: "calls s' = calls s @ new" "stage_trace a p e t (stage_table a p e t) None (Inr cur) new"
    by blast
  have nc: "new_calls s s' = new" using n(1) by (rule new_calls_append)
  have len: "length (stage_table a p e t) = 5" by (simp add: stage_table_def)
  from n(2) obtain outs sd where
    h: "filter is_spawn new = chain (stage_table a p e t) (None # map Some outs) @ sd"
       "Suc (length outs) \<le> 5"
       "sd = [] \<or> sd = [Spawn (seed_cmd a p t) None (Some e)] \<and> Suc (length outs) = 5"
       "truthy_opt cur \<longleftrightarrow> Suc (length outs) = 5"
    unfolding stage_trace_def len by blast
  show ?thesis
  proof
    assume "truthy_opt cur"
    then have "length outs = 4" using h(4) by simp
    then obtain o1 o2 o3 o4 where "outs = [o1, o2, o3, o4]"
      by (auto simp: length_Suc_conv numeral_eq_Suc)
    then have "Spawn (katana_cmd a p) (Some o4) (Some e) \<in> set (filter is_spawn new)"
      using h(1) by (simp add: stage_table_def)
    then show "\<exists>i env. Spawn (katana_cmd a p) i env \<in> set (new_calls s s')"
      using nc by auto
  next
    assume "\<exists>i env. Spawn (katana_cmd a p) i env \<in> set (new_calls s s')"
    then obtain i env where "Spawn (katana_cmd a p) i env \<in> set new" using nc by auto
    then have m: "Spawn (katana_cmd a p) i env \<in> set (filter is_spawn new)" by simp
    show "truthy_opt cur"
    proof (rule ccontr)
      assume "\<not> truthy_opt cur"
      then have short: "Suc (length outs) \<le> 4" and sd: "sd = []" using h(2,3,4) by auto
      from m h(1) sd have "Spawn (katana_cmd a p) i env
          \<in> set (chain (stage_table a p e t) (None # map Some outs))" by simp
      from chain_mem_take[OF this] have
        "(katana_cmd a p, env) \<in> set (take (Suc (length outs)) (stage_table a p e t))" by simp
      moreover have "set (take (Suc (length outs)) (stage_table a p e t))
          \<subseteq> set (take 4 (stage_table a p e t))"
        using short by (rule set_take_subset_set_take)
      ultimately have "(katana_cmd a p, env) \<in> set (take 4 (stage_table a p e t))" by blast
      then show False
        using katana_cmd_distinct by (auto simp: stage_table_def)
    qed
  qed
qed

lemma summary_lines_not_decorated:
  "\<not> decorated (results_line os a w)" "\<not> decorated (notice_line a t)"
  by (simp_all add: results_line_def notice_line_def proxy_notice_def manual_notice_def)

lemmas demo_defs = process_target_def subfinder_stage_def save_subfinder_output_def dnsx_stage_def
  naabu_stage_def httpx_stage_def collect_clean_urls_def katana_stage_def seed_burp_def
  run_command_def subprocess_run_def write_file_def scripted_os_def scripted_spawn_def
  start_def Let_def truthy_opt_def truthy_def str_opt_def
  subfinder_cmd_def dnsx_cmd_def naabu_cmd_def httpx_cmd_def katana_cmd_def seed_cmd_def
  subfinder_output_file_def dnsx_output_file_def naabu_output_file_def httpx_details_file_def
  urls_for_burp_file_def katana_output_file_def path_join_def
  readlines_def split_def strip_def isspace_def NL_def CR_def u_def

lemmas main_defs = main_def check_tools_installed_def TOOL_CHAIN_def load_target_list_def
  makedirs_def

text \<open>Two runs of the loop body on the scripted environment.\<close>

lemma demo_full_result:
  "fst (process_target (scripted_os all_ok [])
         \<lparr>domain = Some (u ''a.io''), list_file = None, output_dir = u ''out'', proxy = None,
           dry_run = False\<rparr> [] [] (u ''a.io'') None (start []))
   = Inr (Some (u ''https://a.io''))"
  by (simp add: demo_defs all_ok_def)

lemma demo_full_katana:
  "Spawn (katana_cmd \<lparr>domain = Some (u ''a.io''), list_file = None, output_dir = u ''out'',
                      proxy = None, dry_run = False\<rparr> [])
      (Some (u ''https://a.io'')) (Some [])
   \<in> set (new_calls (start []) (snd (process_target (scripted_os all_ok [])
         \<lparr>domain = Some (u ''a.io''), list_file = None, output_dir = u ''out'', proxy = None,
           dry_run = False\<rparr> [] [] (u ''a.io'') None (start []))))"
  by (simp add: new_calls_def demo_defs all_ok_def)

lemma demo_empty_result:
  "fst (process_target (scripted_os subfinder_empty [])
         \<lparr>domain = Some (u ''a.io''), list_file = None, output_dir = u ''out'', proxy = None,
           dry_run = False\<rparr> [] [] (u ''a.io'') None (start []))
   = Inr (Some [])"
  by (simp add: demo_defs all_ok_def subfinder_empty_def)

lemma demo_empty_calls:
  "new_calls (start []) (snd (process_target (scripted_os subfinder_empty [])
         \<lparr>domain = Some (u ''a.io''), list_file = None, output_dir = u ''out'', proxy = None,
           dry_run = False\<rparr> [] [] (u ''a.io'') None (start [])))
   = [Spawn (subfinder_cmd (u ''a.io'')) None None]"
  by (simp add: new_calls_def demo_defs all_ok_def subfinder_empty_def)


text \<open>
  Two runs of \<open>main\<close> in which \<open>httpx\<close> fails while a rich-detail file is on disk: left
  there by an earlier run of the program, and left there by the iteration before.
\<close>

lemma stale_run:
  "(case main (scripted_os httpx_fails [])
       \<lparr>domain = Some (u ''a.io''), list_file = None, output_dir = u ''out'', proxy = None,
         dry_run = False\<rparr>
       (start [(u ''out/a.io_httpx_details.txt'', u ''https://old.example 200 5 Old'' @ [NL])])
    of (r, s) \<Rightarrow>
      r = None
      \<and> filter is_spawn (calls s)
        = map which_probe TOOL_CHAIN
          @ [Spawn (subfinder_cmd (u ''a.io'')) None None,
             Spawn dnsx_cmd (Some (u ''a.io'' @ [NL])) None,
             Spawn naabu_cmd (Some (u ''a.io'' @ [NL])) None,
             Spawn (httpx_cmd \<lparr>domain = Some (u ''a.io''), list_file = None,
                      output_dir = u ''out'', proxy = None, dry_run = False\<rparr> [] (u ''a.io''))
               (Some (u ''a.io'' @ [NL])) (Some []),
             Spawn (katana_cmd \<lparr>domain = Some (u ''a.io''), list_file = None,
                      output_dir = u ''out'', proxy = None, dry_run = False\<rparr> [])
               (Some (u ''https://old.example'')) (Some [])]
      \<and> os_read (scripted_os httpx_fails []) (u ''out/a.io_httpx_details.txt'') (world s)
        = Inr (u ''https://old.example 200 5 Old'' @ [NL]))"
  by (simp add: main_defs demo_defs all_ok_def httpx_fails_def which_probe_def)

lemma stale_run_httpx:
  "os_spawn (scripted_os httpx_fails [])
       (httpx_cmd \<lparr>domain = Some (u ''a.io''), list_file = None, output_dir = u ''out'',
                    proxy = None, dry_run = False\<rparr> [] (u ''a.io''))
       (Some (u ''a.io'' @ [NL])) (Some [])
       [(u ''out/a.io_httpx_details.txt'', u ''https://old.example 200 5 Old'' @ [NL]),
        (u ''out/a.io_subfinder.txt'', u ''a.io'' @ [NL]),
        (u ''out/a.io_dnsx.txt'', u ''a.io'' @ [NL]),
        (u ''out/a.io_naabu.txt'', u ''a.io'' @ [NL])]
   = (Inr (1, [], u ''boom''),
       [(u ''out/a.io_httpx_details.txt'', u ''https://old.example 200 5 Old'' @ [NL]),
        (u ''out/a.io_subfinder.txt'', u ''a.io'' @ [NL]),
        (u ''out/a.io_dnsx.txt'', u ''a.io'' @ [NL]),
        (u ''out/a.io_naabu.txt'', u ''a.io'' @ [NL])])"
  by (simp add: scripted_os_def scripted_spawn_def httpx_fails_def httpx_cmd_def u_def
        truthy_opt_def)

lemma rerun_run:
  "(case main rerun_os
       \<lparr>domain = None, list_file = Some (u ''l.txt''), output_dir = u ''out'', proxy = None,
         dry_run = False\<rparr>
       (start [(u ''l.txt'', u ''a.io'' @ [NL] @ u ''a.io'' @ [NL])])
    of (r, s) \<Rightarrow>
      r = None
      \<and> filter is_spawn (calls s)
        = map which_probe TOOL_CHAIN
          @ [Spawn (subfinder_cmd (u ''a.io'')) None None,
             Spawn dnsx_cmd (Some (u ''a.io'' @ [NL])) None,
             Spawn naabu_cmd (Some (u ''a.io'' @ [NL])) None,
             Spawn (httpx_cmd \<lparr>domain = None, list_file = Some (u ''l.txt''),
                      output_dir = u ''out'', proxy = None, dry_run = False\<rparr> [] (u ''a.io''))
               (Some (u ''a.io'' @ [NL])) (Some []),
             Spawn (katana_cmd \<lparr>domain = None, list_file = Some (u ''l.txt''),
                      output_dir = u ''out'', proxy = None, dry_run = False\<rparr> [])
               (Some (u ''https://a.io'')) (Some []),
             Spawn (subfinder_cmd (u ''a.io'')) None None,
             Spawn dnsx_cmd (Some (u ''a.io'' @ [NL])) None,
             Spawn naabu_cmd (Some (u ''a.io'' @ [NL])) None,
             Spawn (httpx_cmd \<lparr>domain = None, list_file = Some (u ''l.txt''),
                      output_dir = u ''out'', proxy = None, dry_run = False\<rparr> [] (u ''a.io''))
               (Some (u ''a.io'' @ [NL])) (Some []),
             Spawn (katana_cmd \<lparr>domain = None, list_file = Some (u ''l.txt''),
                      output_dir = u ''out'', proxy = None, dry_run = False\<rparr> [])
               (Some (u ''https://a.io'')) (Some [])])"
  by (simp add: main_defs demo_defs all_ok_def rerun_os_def rerun_spawn_def which_probe_def
        load_targets_def)

lemma rerun_httpx:
  "os_spawn rerun_os
       (httpx_cmd \<lparr>domain = None, list_file = Some (u ''l.txt''), output_dir = u ''out'',
                    proxy = None, dry_run = False\<rparr> [] (u ''a.io''))
       (Some (u ''a.io'' @ [NL])) (Some [])
       [(u ''l.txt'', u ''a.io'' @ [NL] @ u ''a.io'' @ [NL]),
        (u ''out/a.io_subfinder.txt'', u ''a.io'' @ [NL]),
        (u ''out/a.io_dnsx.txt'', u ''a.io'' @ [NL]),
        (u ''out/a.io_naabu.txt'', u ''a.io'' @ [NL]),
        (u ''out/a.io_httpx_details.txt'', u ''https://a.io 200 12 Home'' @ [NL]),
        (u ''out/a.io_urls_for_burp.txt'', u ''https://a.io''),
        (u ''out/a.io_katana_crawled_paths.txt'', u ''https://a.io/x'' @ [NL])]
   = (Inr (1, [], u ''boom''),
       [(u ''l.txt'', u ''a.io'' @ [NL] @ u ''a.io'' @ [NL]),
        (u ''out/a.io_subfinder.txt'', u ''a.io'' @ [NL]),
        (u ''out/a.io_dnsx.txt'', u ''a.io'' @ [NL]),
        (u ''out/a.io_naabu.txt'', u ''a.io'' @ [NL]),
        (u ''out/a.io_httpx_details.txt'', u ''https://a.io 200 12 Home'' @ [NL]),
        (u ''out/a.io_urls_for_burp.txt'', u ''https://a.io''),
        (u ''out/a.io_katana_crawled_paths.txt'', u ''https://a.io/x'' @ [NL])])"
  by (simp add: rerun_os_def rerun_spawn_def scripted_os_def httpx_cmd_def httpx_details_file_def
        path_join_def u_def truthy_opt_def)

section \<open>The result of a failing tool\<close>

lemma run_command_called_process_error:
  assumes "os_spawn os command input_data environment (world s) = (Inr (rc, out, err), w)"
      and "rc \<noteq> 0" and "command \<noteq> []"
  shows "fst (run_command os command input_data output_file environment False s)
           = Inr (CompletedProcess command 1 [] err)"
    and "calls (snd (run_command os command input_data output_file environment False s))
           = calls s @ [Spawn command input_data environment]"
  using assms by (cases command; simp add: run_command_def subprocess_run_def Let_def)+

lemma print_step_world: "world (print_step n m t d s) = world s"
  by (simp add: print_step_def)

lemma print_step_calls: "calls (print_step n m t d s) = calls s"
  by (simp add: print_step_def)

text \<open>
  C2, as stated, fails in three ways. The result does not carry the exit status of the
  subprocess: a \<open>dnsx\<close> that exits with status 2 yields a result with status 1. The
  Process Runner does stop the program on some failing tools: when what the tool printed
  cannot be decoded, \<open>subprocess.run\<close> raises an exception other than
  \<open>CalledProcessError\<close> and the runner ends the program with \<open>sys.exit(1)\<close>. And a
  non-zero exit is not always an empty-output condition downstream: after an \<open>httpx\<close> that
  exits with status 1 and prints nothing, \<open>katana\<close> is started all the same when a
  rich-detail file is on disk.
\<close>

theorem run_command_exit_status_counterexample:
  "fst (os_spawn (scripted_os dnsx_fails []) [u ''dnsx''] None None [])
     = Inr (2, u ''partial'', u ''boom'')
   \<and> fst (run_command (scripted_os dnsx_fails []) [u ''dnsx''] None None None False (start []))
     = Inr (CompletedProcess [u ''dnsx''] 1 [] (u ''boom''))
   \<and> fst (run_command undecodable_os [u ''dnsx''] None None None False (start []))
     = Inl (SysExit 1)
   \<and> fst (os_spawn (scripted_os httpx_fails [])
       (httpx_cmd \<lparr>domain = Some (u ''a.io''), list_file = None, output_dir = u ''out'',
                    proxy = None, dry_run = False\<rparr> [] (u ''a.io''))
       (Some (u ''a.io'' @ [NL])) (Some [])
       [(u ''out/a.io_httpx_details.txt'', u ''https://old.example 200 5 Old'' @ [NL]),
        (u ''out/a.io_subfinder.txt'', u ''a.io'' @ [NL]),
        (u ''out/a.io_dnsx.txt'', u ''a.io'' @ [NL]),
        (u ''out/a.io_naabu.txt'', u ''a.io'' @ [NL])])
     = Inr (1, [], u ''boom'')
   \<and> Spawn (katana_cmd \<lparr>domain = Some (u ''a.io''), list_file = None, output_dir = u ''out'',
                         proxy = None, dry_run = False\<rparr> [])
        (Some (u ''https://old.example'')) (Some [])
     \<in> set (filter is_spawn (calls (snd (main (scripted_os httpx_fails [])
         \<lparr>domain = Some (u ''a.io''), list_file = None, output_dir = u ''out'', proxy = None,
           dry_run = False\<rparr>
         (start [(u ''out/a.io_httpx_details.txt'',
                  u ''https://old.example 200 5 Old'' @ [NL])])))))"
proof -
  have 1: "fst (os_spawn (scripted_os dnsx_fails []) [u ''dnsx''] None None [])
            = Inr (2, u ''partial'', u ''boom'')
          \<and> fst (run_command (scripted_os dnsx_fails []) [u ''dnsx''] None None None False
                   (start []))
            = Inr (CompletedProcess [u ''dnsx''] 1 [] (u ''boom''))
          \<and> fst (run_command undecodable_os [u ''dnsx''] None None None False (start []))
            = Inl (SysExit 1)"
    by (simp add: run_command_def subprocess_run_def scripted_os_def scripted_spawn_def
          dnsx_fails_def undecodable_os_def start_def Let_def u_def truthy_def)
  have 2: "filter is_spawn (calls (snd (main (scripted_os httpx_fails [])
         \<lparr>domain = Some (u ''a.io''), list_file = None, output_dir = u ''out'', proxy = None,
           dry_run = False\<rparr>
         (start [(u ''out/a.io_httpx_details.txt'',
                  u ''https://old.example 200 5 Old'' @ [NL])]))))
        = map which_probe TOOL_CHAIN
          @ [Spawn (subfinder_cmd (u ''a.io'')) None None,
             Spawn dnsx_cmd (Some (u ''a.io'' @ [NL])) None,
             Spawn naabu_cmd (Some (u ''a.io'' @ [NL])) None,
             Spawn (httpx_cmd \<lparr>domain = Some (u ''a.io''), list_file = None,
                      output_dir = u ''out'', proxy = None, dry_run = False\<rparr> [] (u ''a.io''))
               (Some (u ''a.io'' @ [NL])) (Some []),
             Spawn (katana_cmd \<lparr>domain = Some (u ''a.io''), list_file = None,
                      output_dir = u ''out'', proxy = None, dry_run = False\<rparr> [])
               (Some (u ''https://old.example'')) (Some [])]"
    using stale_run by (simp only: case_prod_beta)
  have 3: "Spawn (katana_cmd \<lparr>domain = Some (u ''a.io''), list_file = None,
                      output_dir = u ''out'', proxy = None, dry_run = False\<rparr> [])
        (Some (u ''https://old.example'')) (Some [])
     \<in> set (filter is_spawn (calls (snd (main (scripted_os httpx_fails [])
         \<lparr>domain = Some (u ''a.io''), list_file = None, output_dir = u ''out'', proxy = None,
           dry_run = False\<rparr>
         (start [(u ''out/a.io_httpx_details.txt'',
                  u ''https://old.example 200 5 Old'' @ [NL])])))))"
    unfolding 2 by simp
  have 4: "fst (os_spawn (scripted_os httpx_fails [])
       (httpx_cmd \<lparr>domain = Some (u ''a.io''), list_file = None, output_dir = u ''out'',
                    proxy = None, dry_run = False\<rparr> [] (u ''a.io''))
       (Some (u ''a.io'' @ [NL])) (Some [])
       [(u ''out/a.io_httpx_details.txt'', u ''https://old.example 200 5 Old'' @ [NL]),
        (u ''out/a.io_subfinder.txt'', u ''a.io'' @ [NL]),
        (u ''out/a.io_dnsx.txt'', u ''a.io'' @ [NL]),
        (u ''out/a.io_naabu.txt'', u ''a.io'' @ [NL])])
     = Inr (1, [], u ''boom'')"
    unfolding stale_run_httpx by simp
  show ?thesis using 1 3 4 by (intro conjI) blast+
qed

text \<open>
  C2, amended. For every tool invocation (a command line with a program name) that exits
  with a non-zero status and whose captured output can be decoded, so that
  \<open>subprocess.run\<close> raises \<open>CalledProcessError\<close>, the Process Runner does not stop the
  program: it returns a result whose exit status is 1
  whatever the status of the subprocess was, whose standard error is the captured one, and
  whose standard output is empty. When \<open>subprocess.run\<close> raises any other exception (the
  tool cannot be started, or what it printed is not valid UTF-8, whatever its exit
  status), the Process Runner ends the program with exit status 1. When the failing
  invocation is that of stage 1, 2 or 3 of a run that is not a dry run, the driver takes
  the empty output as an empty-output condition: the iteration ends there with an empty
  buffer, and nothing else was called for the target.
\<close>

theorem run_command_nonzero_exit:
  "(os_spawn os command input_data environment (world s) = (Inr (rc, out, err), w)
      \<and> rc \<noteq> 0 \<and> command \<noteq> []
    \<longrightarrow> fst (run_command os command input_data output_file environment False s)
          = Inr (CompletedProcess command 1 [] err))
   \<and> (os_spawn os command input_data environment (world s) = (Inl e, w)
    \<longrightarrow> fst (run_command os command input_data output_file environment False s)
          = Inl (SysExit 1))
   \<and> (\<not> dry_run a
      \<and> os_spawn os (subfinder_cmd t) None None (world s) = (Inr (rc, out, err), w) \<and> rc \<noteq> 0
    \<longrightarrow> fst (subfinder_stage os a p ce t s) = Inr (Some [])
        \<and> new_calls s (snd (subfinder_stage os a p ce t s)) = [Spawn (subfinder_cmd t) None None])
   \<and> (\<not> dry_run a
      \<and> os_spawn os dnsx_cmd cur None (world s) = (Inr (rc, out, err), w) \<and> rc \<noteq> 0
    \<longrightarrow> fst (dnsx_stage os a p ce t cur s) = Inr (Some [])
        \<and> new_calls s (snd (dnsx_stage os a p ce t cur s)) = [Spawn dnsx_cmd cur None])
   \<and> (\<not> dry_run a
      \<and> os_spawn os naabu_cmd cur None (world s) = (Inr (rc, out, err), w) \<and> rc \<noteq> 0
    \<longrightarrow> fst (naabu_stage os a p ce t cur s) = Inr (Some [])
        \<and> new_calls s (snd (naabu_stage os a p ce t cur s)) = [Spawn naabu_cmd cur None])"
proof (intro conjI impI)
  assume "os_spawn os command input_data environment (world s) = (Inr (rc, out, err), w)
      \<and> rc \<noteq> 0 \<and> command \<noteq> []"
  then show "fst (run_command os command input_data output_file environment False s)
          = Inr (CompletedProcess command 1 [] err)"
    by (simp add: run_command_called_process_error(1))
next
  assume "os_spawn os command input_data environment (world s) = (Inl e, w)"
  then show "fst (run_command os command input_data output_file environment False s)
          = Inl (SysExit 1)"
    by (simp add: run_command_def subprocess_run_def Let_def)
next
  assume h: "\<not> dry_run a
      \<and> os_spawn os (subfinder_cmd t) None None (world s) = (Inr (rc, out, err), w) \<and> rc \<noteq> 0"
  let ?s1 = "print_step 1 6 (u ''Subfinder'') (u ''Enumerating subdomains'') s"
  have sp: "os_spawn os (subfinder_cmd t) None None (world ?s1) = (Inr (rc, out, err), w)"
    using h by (simp add: print_step_world)
  have ne: "subfinder_cmd t \<noteq> []" by (simp add: subfinder_cmd_def)
  have rc: "rc \<noteq> 0" using h by simp
  note r = run_command_called_process_error[OF sp rc ne, of None]
  obtain s2 where s2: "run_command os (subfinder_cmd t) None None None False ?s1
      = (Inr (CompletedProcess (subfinder_cmd t) 1 [] err), s2)"
    using r(1) by (metis prod.collapse)
  have c2: "calls s2 = calls s @ [Spawn (subfinder_cmd t) None None]"
    using r(2) s2 by (simp add: print_step_calls)
  show "fst (subfinder_stage os a p ce t s) = Inr (Some [])"
    using h s2 by (simp add: subfinder_stage_def save_subfinder_output_def Let_def
        truthy_opt_def truthy_def)
  show "new_calls s (snd (subfinder_stage os a p ce t s)) = [Spawn (subfinder_cmd t) None None]"
    using h s2 c2 by (simp add: subfinder_stage_def save_subfinder_output_def Let_def
        truthy_opt_def truthy_def new_calls_def print_warn_def)
next
  assume h: "\<not> dry_run a
      \<and> os_spawn os dnsx_cmd cur None (world s) = (Inr (rc, out, err), w) \<and> rc \<noteq> 0"
  let ?s1 = "print_step 2 6 (u ''DNSx'') (u ''Resolving active subdomains'') s"
  have sp: "os_spawn os dnsx_cmd cur None (world ?s1) = (Inr (rc, out, err), w)"
    using h by (simp add: print_step_world)
  have ne: "dnsx_cmd \<noteq> []" by (simp add: dnsx_cmd_def)
  have rc: "rc \<noteq> 0" using h by simp
  note r = run_command_called_process_error[OF sp rc ne, of "Some (dnsx_output_file a t)"]
  obtain s2 where s2: "run_command os dnsx_cmd cur (Some (dnsx_output_file a t)) None False ?s1
      = (Inr (CompletedProcess dnsx_cmd 1 [] err), s2)"
    using r(1) by (metis prod.collapse)
  have c2: "calls s2 = calls s @ [Spawn dnsx_cmd cur None]"
    using r(2) s2 by (simp add: print_step_calls)
  show "fst (dnsx_stage os a p ce t cur s) = Inr (Some [])"
    using h s2 by (simp add: dnsx_stage_def Let_def truthy_opt_def truthy_def)
  show "new_calls s (snd (dnsx_stage os a p ce t cur s)) = [Spawn dnsx_cmd cur None]"
    using h s2 c2 by (simp add: dnsx_stage_def Let_def
        truthy_opt_def truthy_def new_calls_def print_warn_def)
next
  assume h: "\<not> dry_run a
      \<and> os_spawn os naabu_cmd cur None (world s) = (Inr (rc, out, err), w) \<and> rc \<noteq> 0"
  let ?s1 = "print_step 3 6 (u ''Naabu'') (u ''Port scanning (Top web ports)'') s"
  have sp: "os_spawn os naabu_cmd cur None (world ?s1) = (Inr (rc, out, err), w)"
    using h by (simp add: print_step_world)
  have ne: "naabu_cmd \<noteq> []" by (simp add: naabu_cmd_def)
  have rc: "rc \<noteq> 0" using h by simp
  note r = run_command_called_process_error[OF sp rc ne, of "Some (naabu_output_file a t)"]
  obtain s2 where s2: "run_command os naabu_cmd cur (Some (naabu_output_file a t)) None False ?s1
      = (Inr (CompletedProcess naabu_cmd 1 [] err), s2)"
    using r(1) by (metis prod.collapse)
  have c2: "calls s2 = calls s @ [Spawn naabu_cmd cur None]"
    using r(2) s2 by (simp add: print_step_calls)
  show "fst (naabu_stage os a p ce t cur s) = Inr (Some [])"
    using h s2 by (simp add: naabu_stage_def Let_def truthy_opt_def truthy_def)
  show "new_calls s (snd (naabu_stage os a p ce t cur s)) = [Spawn naabu_cmd cur None]"
    using h s2 c2 by (simp add: naabu_stage_def Let_def
        truthy_opt_def truthy_def new_calls_def print_warn_def)
qed

theorem run_command_nonzero_exit_witness:
  "os_spawn (scripted_os all_fail []) dnsx_cmd (Some (u ''a.io'')) None (world (start []))
     = (Inr (2, u ''partial'', u ''boom''), [])
   \<and> (2::int) \<noteq> 0 \<and> dnsx_cmd \<noteq> []
   \<and> fst (run_command (scripted_os all_fail []) dnsx_cmd (Some (u ''a.io''))
            (Some (u ''out/a.io_dnsx.txt'')) None False (start []))
       = Inr (CompletedProcess dnsx_cmd 1 [] (u ''boom''))
   \<and> os_spawn undecodable_os dnsx_cmd (Some (u ''a.io'')) None (world (start []))
     = (Inl (OtherError (u ''utf-8 codec cannot decode byte 0xff'')), [])
   \<and> fst (run_command undecodable_os dnsx_cmd (Some (u ''a.io''))
            (Some (u ''out/a.io_dnsx.txt'')) None False (start []))
       = Inl (SysExit 1)
   \<and> \<not> dry_run \<lparr>domain = Some (u ''a.io''), list_file = None, output_dir = u ''out'',
                  proxy = None, dry_run = False\<rparr>
   \<and> os_spawn (scripted_os all_fail []) (subfinder_cmd (u ''a.io'')) None None (world (start []))
     = (Inr (2, u ''partial'', u ''boom''), [])
   \<and> fst (subfinder_stage (scripted_os all_fail [])
        \<lparr>domain = Some (u ''a.io''), list_file = None, output_dir = u ''out'',
          proxy = None, dry_run = False\<rparr> [] [] (u ''a.io'') (start [])) = Inr (Some [])
   \<and> new_calls (start []) (snd (subfinder_stage (scripted_os all_fail [])
        \<lparr>domain = Some (u ''a.io''), list_file = None, output_dir = u ''out'',
          proxy = None, dry_run = False\<rparr> [] [] (u ''a.io'') (start [])))
       = [Spawn (subfinder_cmd (u ''a.io'')) None None]
   \<and> fst (dnsx_stage (scripted_os all_fail [])
        \<lparr>domain = Some (u ''a.io''), list_file = None, output_dir = u ''out'',
          proxy = None, dry_run = False\<rparr> [] [] (u ''a.io'') (Some (u ''a.io'')) (start []))
       = Inr (Some [])
   \<and> new_calls (start []) (snd (dnsx_stage (scripted_os all_fail [])
        \<lparr>domain = Some (u ''a.io''), list_file = None, output_dir = u ''out'',
          proxy = None, dry_run = False\<rparr> [] [] (u ''a.io'') (Some (u ''a.io'')) (start [])))
       = [Spawn dnsx_cmd (Some (u ''a.io'')) None]
   \<and> os_spawn (scripted_os all_fail []) naabu_cmd (Some (u ''a.io'')) None (world (start []))
     = (Inr (2, u ''partial'', u ''boom''), [])
   \<and> fst (naabu_stage (scripted_os all_fail [])
        \<lparr>domain = Some (u ''a.io''), list_file = None, output_dir = u ''out'',
          proxy = None, dry_run = False\<rparr> [] [] (u ''a.io'') (Some (u ''a.io'')) (start []))
       = Inr (Some [])
   \<and> new_calls (start []) (snd (naabu_stage (scripted_os all_fail [])
        \<lparr>domain = Some (u ''a.io''), list_file = None, output_dir = u ''out'',
          proxy = None, dry_run = False\<rparr> [] [] (u ''a.io'') (Some (u ''a.io'')) (start [])))
       = [Spawn naabu_cmd (Some (u ''a.io'')) None]"
proof -
  let ?os = "scripted_os all_fail []"
  let ?a = "\<lparr>domain = Some (u ''a.io''), list_file = None, output_dir = u ''out'',
              proxy = None, dry_run = False\<rparr>"
  let ?i = "Some (u ''a.io'')"
  have hd: "os_spawn ?os dnsx_cmd ?i None (world (start []))
             = (Inr (2, u ''partial'', u ''boom''), [])"
    by (simp add: scripted_os_def scripted_spawn_def all_fail_def start_def dnsx_cmd_def u_def)
  have hs: "os_spawn ?os (subfinder_cmd (u ''a.io'')) None None (world (start []))
             = (Inr (2, u ''partial'', u ''boom''), [])"
    by (simp add: scripted_os_def scripted_spawn_def all_fail_def start_def subfinder_cmd_def
          u_def)
  have hn: "os_spawn ?os naabu_cmd ?i None (world (start []))
             = (Inr (2, u ''partial'', u ''boom''), [])"
    by (simp add: scripted_os_def scripted_spawn_def all_fail_def start_def naabu_cmd_def u_def)
  have hu: "os_spawn undecodable_os dnsx_cmd ?i None (world (start []))
             = (Inl (OtherError (u ''utf-8 codec cannot decode byte 0xff'')), [])"
    by (simp add: undecodable_os_def scripted_os_def start_def)
  have n: "(2::int) \<noteq> 0" by simp
  have c: "dnsx_cmd \<noteq> []" by (simp add: dnsx_cmd_def)
  have d: "\<not> dry_run ?a" by simp
  note t1 = run_command_nonzero_exit
      [where os = ?os and command = dnsx_cmd and input_data = ?i and environment = None
         and s = "start []" and rc = 2 and out = "u ''partial''" and err = "u ''boom''"
         and w = "[]" and output_file = "Some (u ''out/a.io_dnsx.txt'')" and a = ?a
         and t = "u ''a.io''" and p = "[]" and ce = "[]" and cur = ?i]
  note t2 = run_command_nonzero_exit
      [where os = undecodable_os and command = dnsx_cmd and input_data = ?i
         and environment = None and s = "start []" and w = "[]"
         and e = "OtherError (u ''utf-8 codec cannot decode byte 0xff'')"
         and output_file = "Some (u ''out/a.io_dnsx.txt'')"]
  from t1 hd n c have r1: "fst (run_command ?os dnsx_cmd ?i (Some (u ''out/a.io_dnsx.txt'')) None
                                  False (start []))
                            = Inr (CompletedProcess dnsx_cmd 1 [] (u ''boom''))"
    by blast
  from t2 hu have r2: "fst (run_command undecodable_os dnsx_cmd ?i
                              (Some (u ''out/a.io_dnsx.txt'')) None False (start []))
                        = Inl (SysExit 1)"
    by blast
  from t1 d hs n have r3: "fst (subfinder_stage ?os ?a [] [] (u ''a.io'') (start [])) = Inr (Some [])
      \<and> new_calls (start []) (snd (subfinder_stage ?os ?a [] [] (u ''a.io'') (start [])))
        = [Spawn (subfinder_cmd (u ''a.io'')) None None]"
    by blast
  from t1 d hd n have r4: "fst (dnsx_stage ?os ?a [] [] (u ''a.io'') ?i (start [])) = Inr (Some [])
      \<and> new_calls (start []) (snd (dnsx_stage ?os ?a [] [] (u ''a.io'') ?i (start [])))
        = [Spawn dnsx_cmd ?i None]"
    by blast
  from t1 d hn n have r5: "fst (naabu_stage ?os ?a [] [] (u ''a.io'') ?i (start [])) = Inr (Some [])
      \<and> new_calls (start []) (snd (naabu_stage ?os ?a [] [] (u ''a.io'') ?i (start [])))
        = [Spawn naabu_cmd ?i None]"
    by blast
  show ?thesis using hd n c r1 hu r2 d hs r3 r4 hn r5 by (intro conjI) blast+
qed

section \<open>The number of stage commands\<close>

text \<open>
  C3 does not hold of the program: stage 4 is not judged by what \<open>httpx\<close> returned. The
  driver drops the result of the \<open>httpx\<close> invocation and reads the rich-detail file by its
  name, whatever put it there. In the run below a rich-detail file is in the output
  directory from an earlier run and the \<open>httpx\<close> of this run exits with status 1, prints
  nothing and leaves the file as it was. Stage 4 is the first stage with an empty output,
  so the claim asks for four stage commands; \<open>main\<close> returns normally after five, the
  fifth being \<open>katana\<close> started on the URL of the old file.
\<close>

theorem stale_details_file_five_stage_commands:
  "os_spawn (scripted_os httpx_fails [])
       (httpx_cmd \<lparr>domain = Some (u ''a.io''), list_file = None, output_dir = u ''out'',
                    proxy = None, dry_run = False\<rparr> [] (u ''a.io''))
       (Some (u ''a.io'' @ [NL])) (Some [])
       [(u ''out/a.io_httpx_details.txt'', u ''https://old.example 200 5 Old'' @ [NL]),
        (u ''out/a.io_subfinder.txt'', u ''a.io'' @ [NL]),
        (u ''out/a.io_dnsx.txt'', u ''a.io'' @ [NL]),
        (u ''out/a.io_naabu.txt'', u ''a.io'' @ [NL])]
     = (Inr (1, [], u ''boom''),
        [(u ''out/a.io_httpx_details.txt'', u ''https://old.example 200 5 Old'' @ [NL]),
         (u ''out/a.io_subfinder.txt'', u ''a.io'' @ [NL]),
         (u ''out/a.io_dnsx.txt'', u ''a.io'' @ [NL]),
         (u ''out/a.io_naabu.txt'', u ''a.io'' @ [NL])])
   \<and> fst (main (scripted_os httpx_fails [])
       \<lparr>domain = Some (u ''a.io''), list_file = None, output_dir = u ''out'', proxy = None,
         dry_run = False\<rparr>
       (start [(u ''out/a.io_httpx_details.txt'', u ''https://old.example 200 5 Old'' @ [NL])]))
     = None
   \<and> filter is_spawn (calls (snd (main (scripted_os httpx_fails [])
       \<lparr>domain = Some (u ''a.io''), list_file = None, output_dir = u ''out'', proxy = None,
         dry_run = False\<rparr>
       (start [(u ''out/a.io_httpx_details.txt'', u ''https://old.example 200 5 Old'' @ [NL])]))))
     = map which_probe TOOL_CHAIN
       @ [Spawn (subfinder_cmd (u ''a.io'')) None None,
          Spawn dnsx_cmd (Some (u ''a.io'' @ [NL])) None,
          Spawn naabu_cmd (Some (u ''a.io'' @ [NL])) None,
          Spawn (httpx_cmd \<lparr>domain = Some (u ''a.io''), list_file = None,
                   output_dir = u ''out'', proxy = None, dry_run = False\<rparr> [] (u ''a.io''))
            (Some (u ''a.io'' @ [NL])) (Some []),
          Spawn (katana_cmd \<lparr>domain = Some (u ''a.io''), list_file = None,
                   output_dir = u ''out'', proxy = None, dry_run = False\<rparr> [])
            (Some (u ''https://old.example'')) (Some [])]
   \<and> os_read (scripted_os httpx_fails []) (u ''out/a.io_httpx_details.txt'')
        (world (snd (main (scripted_os httpx_fails [])
          \<lparr>domain = Some (u ''a.io''), list_file = None, output_dir = u ''out'', proxy = None,
            dry_run = False\<rparr>
          (start [(u ''out/a.io_httpx_details.txt'',
                   u ''https://old.example 200 5 Old'' @ [NL])]))))
     = Inr (u ''https://old.example 200 5 Old'' @ [NL])"
  using stale_run stale_run_httpx by (simp only: case_prod_beta simp_thms)

section \<open>The summary block\<close>

text \<open>
  C4, as stated, fails: a target whose chain stops at an empty stage gets no summary block.
  When \<open>subfinder\<close> finds nothing, \<open>main\<close> returns normally, the line with the results
  directory is nowhere in the output, and the last line printed is the warning.
\<close>

theorem summary_counterexample:
  "fst (main (scripted_os subfinder_empty [])
         \<lparr>domain = Some (u ''a.io''), list_file = None, output_dir = u ''out'', proxy = None,
           dry_run = False\<rparr> (start [])) = None
   \<and> results_line (scripted_os subfinder_empty [])
         \<lparr>domain = Some (u ''a.io''), list_file = None, output_dir = u ''out'', proxy = None,
           dry_run = False\<rparr> []
       \<notin> set (console (snd (main (scripted_os subfinder_empty [])
         \<lparr>domain = Some (u ''a.io''), list_file = None, output_dir = u ''out'', proxy = None,
           dry_run = False\<rparr> (start []))))
   \<and> YELLOW @ u ''[!] Subfinder returned no results. Stopping chain for this target.'' @ ENDC
       = last (console (snd (main (scripted_os subfinder_empty [])
         \<lparr>domain = Some (u ''a.io''), list_file = None, output_dir = u ''out'', proxy = None,
           dry_run = False\<rparr> (start []))))"
  by (simp add: main_defs demo_defs all_ok_def subfinder_empty_def results_line_def
        print_info_def print_warn_def print_step_def
        HEADER_def BLUE_def CYAN_def GREEN_def YELLOW_def RED_def WHITE_def ENDC_def BOLD_def
        UNDERLINE_def ESC_def)

text \<open>
  C4, amended. For every target whose iteration comes to its end: if all five stages ran
  (the crawl command was started), or the run is a dry run, the lines printed for the target
  contain the summary line with the absolute path of the output directory and the
  proxy-traffic notice or the manual-import notice, depending on whether a proxy is
  configured; if the chain stopped early at an empty stage, neither line is printed for
  that target.
\<close>

theorem summary_after_full_pipeline:
  assumes "process_target os a p e t c0 s = (Inr cur, s')"
  shows "(dry_run a \<or> (\<exists>i env. Spawn (katana_cmd a p) i env \<in> set (new_calls s s'))
            \<longrightarrow> results_line os a (world s') \<in> set (new_lines s s')
                \<and> notice_line a t \<in> set (new_lines s s'))
       \<and> (\<not> dry_run a \<and> \<not> (\<exists>i env. Spawn (katana_cmd a p) i env \<in> set (new_calls s s'))
            \<longrightarrow> results_line os a (world s') \<notin> set (new_lines s s')
                \<and> notice_line a t \<notin> set (new_lines s s'))"
proof -
  from process_target_lines[OF assms] obtain l where
    l: "console s' = console s @ l" "target_lines os a t (world s') cur l" by blast
  have nl: "new_lines s s' = l" using l(1) by (rule new_lines_append)
  show ?thesis
  proof (cases "dry_run a")
    case True
    then show ?thesis using l(2) nl by (simp add: target_lines_def)
  next
    case False
    note k = katana_reached_iff[OF False assms]
    show ?thesis
    proof (cases "truthy_opt cur")
      case True
      then show ?thesis using l(2) nl k False by (simp add: target_lines_def)
    next
      case nt: False
      then have "list_all decorated l" using l(2) False by (simp add: target_lines_def)
      then have d: "\<forall>x \<in> set l. decorated x" by (simp add: list_all_iff)
      have "\<not> decorated (results_line os a (world s'))" "\<not> decorated (notice_line a t)"
        by (rule summary_lines_not_decorated)+
      then have "results_line os a (world s') \<notin> set l" "notice_line a t \<notin> set l"
        using d by blast+
      then show ?thesis using nl k nt False by simp
    qed
  qed
qed

theorem summary_after_full_pipeline_witness:
  "fst (process_target (scripted_os all_ok [])
         \<lparr>domain = Some (u ''a.io''), list_file = None, output_dir = u ''out'', proxy = None,
           dry_run = False\<rparr> [] [] (u ''a.io'') None (start [])) = Inr (Some (u ''https://a.io''))
   \<and> Spawn (katana_cmd \<lparr>domain = Some (u ''a.io''), list_file = None, output_dir = u ''out'',
                      proxy = None, dry_run = False\<rparr> [])
        (Some (u ''https://a.io'')) (Some [])
      \<in> set (new_calls (start []) (snd (process_target (scripted_os all_ok [])
         \<lparr>domain = Some (u ''a.io''), list_file = None, output_dir = u ''out'', proxy = None,
           dry_run = False\<rparr> [] [] (u ''a.io'') None (start []))))
   \<and> results_line (scripted_os all_ok [])
        \<lparr>domain = Some (u ''a.io''), list_file = None, output_dir = u ''out'', proxy = None,
          dry_run = False\<rparr>
        (world (snd (process_target (scripted_os all_ok [])
         \<lparr>domain = Some (u ''a.io''), list_file = None, output_dir = u ''out'', proxy = None,
           dry_run = False\<rparr> [] [] (u ''a.io'') None (start []))))
      \<in> set (new_lines (start []) (snd (process_target (scripted_os all_ok [])
         \<lparr>domain = Some (u ''a.io''), list_file = None, output_dir = u ''out'', proxy = None,
           dry_run = False\<rparr> [] [] (u ''a.io'') None (start []))))
   \<and> fst (process_target (scripted_os subfinder_empty [])
         \<lparr>domain = Some (u ''a.io''), list_file = None, output_dir = u ''out'', proxy = None,
           dry_run = False\<rparr> [] [] (u ''a.io'') None (start [])) = Inr (Some [])
   \<and> new_calls (start []) (snd (process_target (scripted_os subfinder_empty [])
         \<lparr>domain = Some (u ''a.io''), list_file = None, output_dir = u ''out'', proxy = None,
           dry_run = False\<rparr> [] [] (u ''a.io'') None (start [])))
       = [Spawn (subfinder_cmd (u ''a.io'')) None None]
   \<and> results_line (scripted_os subfinder_empty [])
        \<lparr>domain = Some (u ''a.io''), list_file = None, output_dir = u ''out'', proxy = None,
          dry_run = False\<rparr>
        (world (snd (process_target (scripted_os subfinder_empty [])
         \<lparr>domain = Some (u ''a.io''), list_file = None, output_dir = u ''out'', proxy = None,
           dry_run = False\<rparr> [] [] (u ''a.io'') None (start []))))
      \<notin> set (new_lines (start []) (snd (process_target (scripted_os subfinder_empty [])
         \<lparr>domain = Some (u ''a.io''), list_file = None, output_dir = u ''out'', proxy = None,
           dry_run = False\<rparr> [] [] (u ''a.io'') None (start []))))"
proof -
  let ?a = "\<lparr>domain = Some (u ''a.io''), list_file = None, output_dir = u ''out'',
              proxy = None, dry_run = False\<rparr>"
  let ?p = "process_target (scripted_os all_ok []) ?a [] [] (u ''a.io'') None (start [])"
  let ?q = "process_target (scripted_os subfinder_empty []) ?a [] [] (u ''a.io'') None (start [])"
  have d: "\<not> dry_run ?a" by simp
  have r: "?p = (Inr (Some (u ''https://a.io'')), snd ?p)"
    using demo_full_result by (simp add: prod_eq_iff)
  have q: "?q = (Inr (Some []), snd ?q)"
    using demo_empty_result by (simp add: prod_eq_iff)
  have nk: "\<not> (\<exists>i env. Spawn (katana_cmd ?a []) i env \<in> set (new_calls (start []) (snd ?q)))"
    unfolding demo_empty_calls by (simp add: katana_cmd_def subfinder_cmd_def u_def)
  have 1: "results_line (scripted_os all_ok []) ?a (world (snd ?p))
             \<in> set (new_lines (start []) (snd ?p))"
    using summary_after_full_pipeline [OF r] demo_full_katana by blast
  have 2: "results_line (scripted_os subfinder_empty []) ?a (world (snd ?q))
             \<notin> set (new_lines (start []) (snd ?q))"
    using summary_after_full_pipeline [OF q] d nk by blast
  show ?thesis using demo_full_result demo_full_katana 1 demo_empty_result demo_empty_calls 2
    by (intro conjI)
qed


section \<open>The environment given to each command\<close>

lemma dict_get_set_same: "dict_get (dict_set k v d) k = Some v"
  by (induction d) (auto simp: dict_get_def)

lemma dict_get_set_other: "k \<noteq> k' \<Longrightarrow> dict_get (dict_set k' v d) k = dict_get d k"
  by (induction d) (auto simp: dict_get_def)

lemma proxy_env_vars:
  assumes "proxy a = Some addr" and "addr \<noteq> []"
  shows "dict_get (if truthy_opt (proxy a)
                   then dict_set (u ''HTTPS_PROXY'')
                          (if truthy_opt (proxy a) then u ''http://'' @ str_opt (proxy a) else [])
                          (dict_set (u ''HTTP_PROXY'')
                             (if truthy_opt (proxy a) then u ''http://'' @ str_opt (proxy a) else [])
                             environ)
                   else environ) (u ''HTTP_PROXY'') = Some (u ''http://'' @ addr)
       \<and> dict_get (if truthy_opt (proxy a)
                   then dict_set (u ''HTTPS_PROXY'')
                          (if truthy_opt (proxy a) then u ''http://'' @ str_opt (proxy a) else [])
                          (dict_set (u ''HTTP_PROXY'')
                             (if truthy_opt (proxy a) then u ''http://'' @ str_opt (proxy a) else [])
                             environ)
                   else environ) (u ''HTTPS_PROXY'') = Some (u ''http://'' @ addr)"
proof -
  have t: "truthy_opt (proxy a)" using assms by (simp add: truthy_opt_def truthy_def)
  have ne: "u ''HTTP_PROXY'' \<noteq> u ''HTTPS_PROXY''" by (simp add: u_def)
  show ?thesis
    using t assms(1) ne by (simp add: dict_get_set_same dict_get_set_other str_opt_def)
qed

lemma table_env_ok:
  "(cmd, env) \<in> set (stage_table a p e t) \<or> cmd = seed_cmd a p t \<and> env = Some e
     \<Longrightarrow> stage_env_ok e (Spawn cmd i env)"
  by (auto simp: stage_table_def stage_env_ok_def subfinder_cmd_def dnsx_cmd_def naabu_cmd_def
        httpx_cmd_def katana_cmd_def seed_cmd_def u_def)

lemma stage_env_ok_other [simp]:
  "stage_env_ok e (WriteText path content)" "stage_env_ok e (MakeDirs path)"
  by (simp_all add: stage_env_ok_def)

lemma which_probe_env_ok: "stage_env_ok e (which_probe tool)"
  by (simp add: stage_env_ok_def which_probe_def u_def)

lemma process_target_env_ok:
  assumes "process_target os a p e t c0 s = (r, s')"
  shows "\<exists>new. calls s' = calls s @ new \<and> list_all (stage_env_ok e) new"
proof (cases "dry_run a")
  case True
  then have "calls s' = calls s @ []" using process_target_dry[OF True assms] by simp
  then show ?thesis by (intro exI[of _ "[]"]) simp
next
  case False
  from process_target_trace[OF assms False] obtain new where
    n: "calls s' = calls s @ new" "stage_trace a p e t (stage_table a p e t) None r new" by blast
  from n(2) obtain outs sd where
    h: "filter is_spawn new = chain (stage_table a p e t) (None # map Some outs) @ sd"
       "sd = [] \<or> sd = [Spawn (seed_cmd a p t) None (Some e)]"
    unfolding stage_trace_def by blast
  have "stage_env_ok e c" if c: "c \<in> set new" for c
  proof (cases c)
    case (Spawn cmd i env)
    then have "c \<in> set (filter is_spawn new)" using c by simp
    then have "c \<in> set (chain (stage_table a p e t) (None # map Some outs)) \<or> c \<in> set sd"
      unfolding h(1) by auto
    then have "(cmd, env) \<in> set (stage_table a p e t) \<or> cmd = seed_cmd a p t \<and> env = Some e"
      using chain_mem[of c "stage_table a p e t" "None # map Some outs"] h(2) Spawn by auto
    then show ?thesis unfolding Spawn by (rule table_env_ok)
  qed simp_all
  then have "list_all (stage_env_ok e) new" by (simp add: list_all_iff)
  then show ?thesis using n(1) by blast
qed

lemma for_targets_env_ok:
  "for_targets os a p e ts c0 s = (r, s') \<Longrightarrow>
     \<exists>new. calls s' = calls s @ new \<and> list_all (stage_env_ok e) new"
proof (induction ts arbitrary: c0 s)
  case Nil
  then show ?case by (intro exI[of _ "[]"]) simp
next
  case (Cons t ts)
  obtain r1 s1 where pt: "process_target os a p e t c0 s = (r1, s1)"
    by (cases "process_target os a p e t c0 s")
  from process_target_env_ok[OF pt] obtain new1 where
    n1: "calls s1 = calls s @ new1" "list_all (stage_env_ok e) new1" by blast
  show ?case
  proof (cases r1)
    case (Inl x)
    then have "s' = s1" using Cons.prems pt by simp
    then show ?thesis using n1 by blast
  next
    case (Inr c1)
    then have "for_targets os a p e ts c1 s1 = (r, s')" using Cons.prems pt by simp
    from Cons.IH[OF this] obtain new2 where
      n2: "calls s' = calls s1 @ new2" "list_all (stage_env_ok e) new2" by blast
    have "calls s' = calls s @ (new1 @ new2)" using n1(1) n2(1) by simp
    moreover have "list_all (stage_env_ok e) (new1 @ new2)" using n1(2) n2(2) by simp
    ultimately show ?thesis by blast
  qed
qed

lemma main_env_ok:
  assumes "main os a s = (r, s')"
  shows "\<exists>new e. calls s' = calls s @ new \<and> list_all (stage_env_ok e) new
           \<and> (\<forall>addr. proxy a = Some addr \<and> addr \<noteq> [] \<longrightarrow>
                  dict_get e (u ''HTTP_PROXY'') = Some (u ''http://'' @ addr)
                \<and> dict_get e (u ''HTTPS_PROXY'') = Some (u ''http://'' @ addr))"
proof -
  let ?purl = "if truthy_opt (proxy a) then u ''http://'' @ str_opt (proxy a) else []"
  let ?penv = "\<lambda>environ. if truthy_opt (proxy a)
                 then dict_set (u ''HTTPS_PROXY'') ?purl (dict_set (u ''HTTP_PROXY'') ?purl environ)
                 else environ"
  have vars: "\<forall>addr. proxy a = Some addr \<and> addr \<noteq> [] \<longrightarrow>
                  dict_get (?penv environ) (u ''HTTP_PROXY'') = Some (u ''http://'' @ addr)
                \<and> dict_get (?penv environ) (u ''HTTPS_PROXY'') = Some (u ''http://'' @ addr)"
    for environ using proxy_env_vars[of a _ environ] by blast
  have fin: "calls s' = calls s @ new \<Longrightarrow> list_all (stage_env_ok (?penv environ)) new \<Longrightarrow> ?thesis"
    for new environ using vars[of environ] by blast
  obtain r1 s1 where c: "check_tools_installed os TOOL_CHAIN s = (r1, s1)"
    by (cases "check_tools_installed os TOOL_CHAIN s")
  from check_tools_installed_calls[OF c] obtain new1 where
    n1: "calls s1 = calls s @ new1" "\<forall>c \<in> set new1. \<exists>tool \<in> set TOOL_CHAIN. c = which_probe tool"
    by auto
  have ok1: "list_all (stage_env_ok e) new1" for e
    using n1(2) which_probe_env_ok by (auto simp: list_all_iff)
  show ?thesis
  proof (cases r1)
    case (Some x)
    then have "s' = s1" using assms c by (simp add: main_def)
    then show ?thesis using n1(1) ok1 fin by blast
  next
    case None
    obtain r2 s2 where l: "load_target_list os a s1 = (r2, s2)"
      by (cases "load_target_list os a s1")
    have f2: "calls s2 = calls s1" using load_target_list_frame[OF l] by simp
    show ?thesis
    proof (cases r2)
      case (Inl x)
      then have "s' = s2" using assms c None l by (simp add: main_def)
      then show ?thesis using n1(1) f2 ok1 fin[of new1] by simp
    next
      case (Inr targets)
      show ?thesis
      proof (cases "targets = []")
        case True
        then have "calls s' = calls s2" using assms c None l Inr by (auto simp: main_def)
        then show ?thesis using n1(1) f2 ok1 fin[of new1] by simp
      next
        case False
        obtain r3 s3 where m: "makedirs os (output_dir a) s2 = (r3, s3)"
          by (cases "makedirs os (output_dir a) s2")
        let ?new3 = "new1 @ [MakeDirs (output_dir a)]"
        have f3: "calls s3 = calls s @ ?new3"
          using makedirs_calls[OF m] f2 n1(1) by simp
        have ok3: "list_all (stage_env_ok e) ?new3" for e using ok1 by simp
        show ?thesis
        proof (cases r3)
          case (Some x)
          then have "s' = s3" using assms c None l Inr False m by (simp add: main_def)
          then show ?thesis using f3 ok3 fin[of ?new3] by simp
        next
          case None3: None
          let ?s4 = "print_info (u ''Output directory: '' @ output_dir a) s3"
          let ?e = "?penv (os_environ os (world ?s4))"
          let ?s5 = "if truthy_opt (proxy a)
                     then print_info (u ''Proxy enabled: '' @ BOLD @ ?purl @ ENDC
                                        @ u '' (BurpSuite Integration)'') ?s4
                     else print_info (u ''No proxy specified. Direct connection mode.'') ?s4"
          obtain r6 s6 where ft: "for_targets os a ?purl ?e targets None ?s5 = (r6, s6)"
            by (cases "for_targets os a ?purl ?e targets None ?s5")
          have "s' = s6"
            using assms c None l Inr False m None3 ft
            by (simp add: main_def Let_def split: sum.splits)
          moreover from for_targets_env_ok[OF ft] obtain new4 where
            n4: "calls s6 = calls ?s5 @ new4" "list_all (stage_env_ok ?e) new4" by blast
          moreover have "calls ?s5 = calls s3" by simp
          ultimately have "calls s' = calls s @ (?new3 @ new4)" using f3 by simp
          moreover have "list_all (stage_env_ok ?e) (?new3 @ new4)" using ok3 n4(2) by simp
          ultimately show ?thesis by (rule fin)
        qed
      qed
    qed
  qed
qed

lemma demo_proxy_calls:
  "Spawn (katana_cmd \<lparr>domain = Some (u ''a.io''), list_file = None, output_dir = u ''out'',
                      proxy = Some (u ''h:1''), dry_run = False\<rparr> (u ''http://h:1''))
      (Some (u ''https://a.io''))
      (Some [(u ''HTTP_PROXY'', u ''http://h:1''), (u ''HTTPS_PROXY'', u ''http://h:1'')])
     \<in> set (new_calls (start []) (snd (main (scripted_os all_ok [])
           \<lparr>domain = Some (u ''a.io''), list_file = None, output_dir = u ''out'',
             proxy = Some (u ''h:1''), dry_run = False\<rparr> (start []))))
   \<and> Spawn (subfinder_cmd (u ''a.io'')) None None
     \<in> set (new_calls (start []) (snd (main (scripted_os all_ok [])
           \<lparr>domain = Some (u ''a.io''), list_file = None, output_dir = u ''out'',
             proxy = Some (u ''h:1''), dry_run = False\<rparr> (start []))))"
  by (simp add: new_calls_def main_defs demo_defs all_ok_def)


section \<open>Proxy variables\<close>

text \<open>
  C5, as stated, fails for the stages 1 to 3: the environment such a stage receives can
  hold the proxy variables. The stage is passed no environment mapping, so it runs in the
  environment of the program itself, and when the caller's environment has \<open>HTTP_PROXY\<close>
  and \<open>HTTPS_PROXY\<close> set, \<open>subfinder\<close> receives both, with or without a configured proxy.
\<close>

theorem inherited_proxy_counterexample:
  "Spawn (subfinder_cmd (u ''a.io'')) None None
     \<in> set (calls (snd (main
         (scripted_os subfinder_empty
            [(u ''HTTP_PROXY'', u ''http://h:1''), (u ''HTTPS_PROXY'', u ''http://h:1'')])
         \<lparr>domain = Some (u ''a.io''), list_file = None, output_dir = u ''out'', proxy = None,
           dry_run = False\<rparr> (start []))))
   \<and> dict_get (received_env
                 (os_environ (scripted_os subfinder_empty
                    [(u ''HTTP_PROXY'', u ''http://h:1''), (u ''HTTPS_PROXY'', u ''http://h:1'')])
                    [])
                 None) (u ''HTTP_PROXY'') = Some (u ''http://h:1'')
   \<and> dict_get (received_env
                 (os_environ (scripted_os subfinder_empty
                    [(u ''HTTP_PROXY'', u ''http://h:1''), (u ''HTTPS_PROXY'', u ''http://h:1'')])
                    [])
                 None) (u ''HTTPS_PROXY'') = Some (u ''http://h:1'')"
  by (simp add: main_defs demo_defs all_ok_def subfinder_empty_def received_env_def dict_get_def)

text \<open>
  C5, amended. In every run, each command the program starts has a program name, and: a
  \<open>subfinder\<close>, \<open>dnsx\<close> or \<open>naabu\<close> command (stages 1 to 3) is passed no environment
  mapping at all, whatever the configuration, so the environment it receives is that of
  the program itself, unchanged: it holds a proxy variable exactly when the caller's
  environment does, and the program adds none; an \<open>httpx\<close> or \<open>katana\<close> command (stages
  4 and 5, and the seeding step) is passed an environment mapping, which is the
  environment it receives, and when a proxy address is configured that mapping has
  \<open>HTTP_PROXY\<close> and \<open>HTTPS_PROXY\<close> both equal to \<open>http://\<close> followed by the address.
\<close>

theorem proxy_environment_of_stages:
  assumes "main os a s = (r, s')"
  shows "\<forall>cmd i env. Spawn cmd i env \<in> set (new_calls s s') \<longrightarrow>
           cmd \<noteq> []
           \<and> (hd cmd = u ''subfinder'' \<or> hd cmd = u ''dnsx'' \<or> hd cmd = u ''naabu''
                \<longrightarrow> env = None \<and> (\<forall>environ. received_env environ env = environ))
           \<and> (hd cmd = u ''httpx'' \<or> hd cmd = u ''katana'' \<longrightarrow>
                (\<exists>m. env = Some m
                   \<and> (\<forall>environ. received_env environ env = m)
                   \<and> (\<forall>addr. proxy a = Some addr \<and> addr \<noteq> [] \<longrightarrow>
                          dict_get m (u ''HTTP_PROXY'') = Some (u ''http://'' @ addr)
                        \<and> dict_get m (u ''HTTPS_PROXY'') = Some (u ''http://'' @ addr))))"
proof (intro allI impI)
  fix cmd i env assume m: "Spawn cmd i env \<in> set (new_calls s s')"
  from main_env_ok[OF assms] obtain new e where
    n: "calls s' = calls s @ new" "list_all (stage_env_ok e) new"
       "\<forall>addr. proxy a = Some addr \<and> addr \<noteq> [] \<longrightarrow>
                  dict_get e (u ''HTTP_PROXY'') = Some (u ''http://'' @ addr)
                \<and> dict_get e (u ''HTTPS_PROXY'') = Some (u ''http://'' @ addr)"
    by blast
  have "new_calls s s' = new" using n(1) by (rule new_calls_append)
  then have "stage_env_ok e (Spawn cmd i env)" using m n(2) by (simp add: list_all_iff)
  then have ok: "cmd \<noteq> []"
      "hd cmd \<in> {u ''subfinder'', u ''dnsx'', u ''naabu'', u ''which''} \<longrightarrow> env = None"
      "hd cmd \<in> {u ''httpx'', u ''katana''} \<longrightarrow> env = Some e"
    by (simp_all add: stage_env_ok_def)
  have r1: "env = None \<longrightarrow> (\<forall>environ. received_env environ env = environ)"
    by (simp add: received_env_def)
  have r2: "env = Some e \<longrightarrow> (\<forall>environ. received_env environ env = e)"
    by (simp add: received_env_def)
  show "cmd \<noteq> []
           \<and> (hd cmd = u ''subfinder'' \<or> hd cmd = u ''dnsx'' \<or> hd cmd = u ''naabu''
                \<longrightarrow> env = None \<and> (\<forall>environ. received_env environ env = environ))
           \<and> (hd cmd = u ''httpx'' \<or> hd cmd = u ''katana'' \<longrightarrow>
                (\<exists>m. env = Some m
                   \<and> (\<forall>environ. received_env environ env = m)
                   \<and> (\<forall>addr. proxy a = Some addr \<and> addr \<noteq> [] \<longrightarrow>
                          dict_get m (u ''HTTP_PROXY'') = Some (u ''http://'' @ addr)
                        \<and> dict_get m (u ''HTTPS_PROXY'') = Some (u ''http://'' @ addr))))"
  proof (intro conjI impI)
    show "cmd \<noteq> []" by (rule ok(1))
  next
    assume "hd cmd = u ''subfinder'' \<or> hd cmd = u ''dnsx'' \<or> hd cmd = u ''naabu''"
    then show "env = None" using ok(2) by blast
  next
    assume "hd cmd = u ''subfinder'' \<or> hd cmd = u ''dnsx'' \<or> hd cmd = u ''naabu''"
    then have "env = None" using ok(2) by blast
    then show "\<forall>environ. received_env environ env = environ" using r1 by blast
  next
    assume "hd cmd = u ''httpx'' \<or> hd cmd = u ''katana''"
    then have e: "env = Some e" using ok(3) by blast
    then have "\<forall>environ. received_env environ env = e" using r2 by blast
    then show "\<exists>m. env = Some m
                   \<and> (\<forall>environ. received_env environ env = m)
                   \<and> (\<forall>addr. proxy a = Some addr \<and> addr \<noteq> [] \<longrightarrow>
                          dict_get m (u ''HTTP_PROXY'') = Some (u ''http://'' @ addr)
                        \<and> dict_get m (u ''HTTPS_PROXY'') = Some (u ''http://'' @ addr))"
      using e n(3) by (intro exI[of _ e] conjI)
  qed
qed

theorem proxy_environment_of_stages_witness:
  "Spawn (katana_cmd \<lparr>domain = Some (u ''a.io''), list_file = None, output_dir = u ''out'',
                      proxy = Some (u ''h:1''), dry_run = False\<rparr> (u ''http://h:1''))
      (Some (u ''https://a.io''))
      (Some [(u ''HTTP_PROXY'', u ''http://h:1''), (u ''HTTPS_PROXY'', u ''http://h:1'')])
     \<in> set (new_calls (start []) (snd (main (scripted_os all_ok [])
           \<lparr>domain = Some (u ''a.io''), list_file = None, output_dir = u ''out'',
             proxy = Some (u ''h:1''), dry_run = False\<rparr> (start []))))
   \<and> hd (katana_cmd \<lparr>domain = Some (u ''a.io''), list_file = None, output_dir = u ''out'',
                      proxy = Some (u ''h:1''), dry_run = False\<rparr> (u ''http://h:1'')) = u ''katana''
   \<and> u ''h:1'' \<noteq> []
   \<and> received_env [(u ''HTTP_PROXY'', u ''http://old:9'')]
        (Some [(u ''HTTP_PROXY'', u ''http://h:1''), (u ''HTTPS_PROXY'', u ''http://h:1'')])
       = [(u ''HTTP_PROXY'', u ''http://h:1''), (u ''HTTPS_PROXY'', u ''http://h:1'')]
   \<and> dict_get [(u ''HTTP_PROXY'', u ''http://h:1''), (u ''HTTPS_PROXY'', u ''http://h:1'')]
        (u ''HTTP_PROXY'') = Some (u ''http://'' @ u ''h:1'')
   \<and> dict_get [(u ''HTTP_PROXY'', u ''http://h:1''), (u ''HTTPS_PROXY'', u ''http://h:1'')]
        (u ''HTTPS_PROXY'') = Some (u ''http://'' @ u ''h:1'')
   \<and> Spawn (subfinder_cmd (u ''a.io'')) None None
     \<in> set (new_calls (start []) (snd (main (scripted_os all_ok [])
           \<lparr>domain = Some (u ''a.io''), list_file = None, output_dir = u ''out'',
             proxy = Some (u ''h:1''), dry_run = False\<rparr> (start []))))
   \<and> hd (subfinder_cmd (u ''a.io'')) = u ''subfinder''
   \<and> received_env [(u ''HTTP_PROXY'', u ''http://old:9'')] None
       = [(u ''HTTP_PROXY'', u ''http://old:9'')]"
proof -
  let ?a = "\<lparr>domain = Some (u ''a.io''), list_file = None, output_dir = u ''out'',
              proxy = Some (u ''h:1''), dry_run = False\<rparr>"
  let ?m = "main (scripted_os all_ok []) ?a (start [])"
  let ?e = "[(u ''HTTP_PROXY'', u ''http://h:1''), (u ''HTTPS_PROXY'', u ''http://h:1'')]"
  let ?old = "[(u ''HTTP_PROXY'', u ''http://old:9'')]"
  have m: "?m = (fst ?m, snd ?m)" by simp
  note t = proxy_environment_of_stages [OF m]
  have k: "hd (katana_cmd ?a (u ''http://h:1'')) = u ''katana''" by (simp add: katana_cmd_def)
  have sf: "hd (subfinder_cmd (u ''a.io'')) = u ''subfinder''" by (simp add: subfinder_cmd_def)
  have p: "proxy ?a = Some (u ''h:1'')" by simp
  have ne: "u ''h:1'' \<noteq> []" by (simp add: u_def)
  from t demo_proxy_calls k have
    "\<exists>m. Some ?e = Some m
         \<and> (\<forall>environ. received_env environ (Some ?e) = m)
         \<and> (\<forall>addr. proxy ?a = Some addr \<and> addr \<noteq> [] \<longrightarrow>
                dict_get m (u ''HTTP_PROXY'') = Some (u ''http://'' @ addr)
              \<and> dict_get m (u ''HTTPS_PROXY'') = Some (u ''http://'' @ addr))"
    by blast
  then have 1: "(\<forall>environ. received_env environ (Some ?e) = ?e)
           \<and> (\<forall>addr. proxy ?a = Some addr \<and> addr \<noteq> [] \<longrightarrow>
                dict_get ?e (u ''HTTP_PROXY'') = Some (u ''http://'' @ addr)
              \<and> dict_get ?e (u ''HTTPS_PROXY'') = Some (u ''http://'' @ addr))"
    by blast
  then have 2: "dict_get ?e (u ''HTTP_PROXY'') = Some (u ''http://'' @ u ''h:1'')
           \<and> dict_get ?e (u ''HTTPS_PROXY'') = Some (u ''http://'' @ u ''h:1'')"
    using p ne by blast
  from 1 have 3: "received_env ?old (Some ?e) = ?e" by blast
  from t demo_proxy_calls sf have "\<forall>environ. received_env environ None = environ" by blast
  then have 4: "received_env ?old None = ?old" by blast
  show ?thesis using demo_proxy_calls k sf ne 2 3 4 by (intro conjI) blast+
qed

section \<open>Stale input\<close>

text \<open>
  C8 does not hold of the program: what stage 5 is started on is not reset with the
  buffer. The buffer is set to \<open>None\<close> when an iteration begins, but the input of stage 5
  is read from the rich-detail file, which stays on disk from one iteration to the next.
  In the run below the list names \<open>a.io\<close> twice and \<open>httpx\<close> fails the second time
  (status 1, nothing printed, nothing written). The second iteration still starts
  \<open>katana\<close>, on the URL that the first iteration left in the file.
\<close>

theorem second_iteration_runs_on_stale_urls:
  "os_spawn rerun_os
       (httpx_cmd \<lparr>domain = None, list_file = Some (u ''l.txt''), output_dir = u ''out'',
                    proxy = None, dry_run = False\<rparr> [] (u ''a.io''))
       (Some (u ''a.io'' @ [NL])) (Some [])
       [(u ''l.txt'', u ''a.io'' @ [NL] @ u ''a.io'' @ [NL]),
        (u ''out/a.io_subfinder.txt'', u ''a.io'' @ [NL]),
        (u ''out/a.io_dnsx.txt'', u ''a.io'' @ [NL]),
        (u ''out/a.io_naabu.txt'', u ''a.io'' @ [NL]),
        (u ''out/a.io_httpx_details.txt'', u ''https://a.io 200 12 Home'' @ [NL]),
        (u ''out/a.io_urls_for_burp.txt'', u ''https://a.io''),
        (u ''out/a.io_katana_crawled_paths.txt'', u ''https://a.io/x'' @ [NL])]
     = (Inr (1, [], u ''boom''),
        [(u ''l.txt'', u ''a.io'' @ [NL] @ u ''a.io'' @ [NL]),
         (u ''out/a.io_subfinder.txt'', u ''a.io'' @ [NL]),
         (u ''out/a.io_dnsx.txt'', u ''a.io'' @ [NL]),
         (u ''out/a.io_naabu.txt'', u ''a.io'' @ [NL]),
         (u ''out/a.io_httpx_details.txt'', u ''https://a.io 200 12 Home'' @ [NL]),
         (u ''out/a.io_urls_for_burp.txt'', u ''https://a.io''),
         (u ''out/a.io_katana_crawled_paths.txt'', u ''https://a.io/x'' @ [NL])])
   \<and> fst (main rerun_os
       \<lparr>domain = None, list_file = Some (u ''l.txt''), output_dir = u ''out'', proxy = None,
         dry_run = False\<rparr>
       (start [(u ''l.txt'', u ''a.io'' @ [NL] @ u ''a.io'' @ [NL])]))
     = None
   \<and> filter is_spawn (calls (snd (main rerun_os
       \<lparr>domain = None, list_file = Some (u ''l.txt''), output_dir = u ''out'', proxy = None,
         dry_run = False\<rparr>
       (start [(u ''l.txt'', u ''a.io'' @ [NL] @ u ''a.io'' @ [NL])]))))
     = map which_probe TOOL_CHAIN
       @ [Spawn (subfinder_cmd (u ''a.io'')) None None,
          Spawn dnsx_cmd (Some (u ''a.io'' @ [NL])) None,
          Spawn naabu_cmd (Some (u ''a.io'' @ [NL])) None,
          Spawn (httpx_cmd \<lparr>domain = None, list_file = Some (u ''l.txt''),
                   output_dir = u ''out'', proxy = None, dry_run = False\<rparr> [] (u ''a.io''))
            (Some (u ''a.io'' @ [NL])) (Some []),
          Spawn (katana_cmd \<lparr>domain = None, list_file = Some (u ''l.txt''),
                   output_dir = u ''out'', proxy = None, dry_run = False\<rparr> [])
            (Some (u ''https://a.io'')) (Some []),
          Spawn (subfinder_cmd (u ''a.io'')) None None,
          Spawn dnsx_cmd (Some (u ''a.io'' @ [NL])) None,
          Spawn naabu_cmd (Some (u ''a.io'' @ [NL])) None,
          Spawn (httpx_cmd \<lparr>domain = None, list_file = Some (u ''l.txt''),
                   output_dir = u ''out'', proxy = None, dry_run = False\<rparr> [] (u ''a.io''))
            (Some (u ''a.io'' @ [NL])) (Some []),
          Spawn (katana_cmd \<lparr>domain = None, list_file = Some (u ''l.txt''),
                   output_dir = u ''out'', proxy = None, dry_run = False\<rparr> [])
            (Some (u ''https://a.io'')) (Some [])]"
  using rerun_run rerun_httpx by (simp only: case_prod_beta simp_thms)

end
